theory Spec2Isabelle
  imports Complex_Main
begin

section \<open>Python values, exceptions and effects\<close>

text \<open>
  The controller script \<^verbatim>\<open>run_daq.py\<close> and the histogram class of
  \<^verbatim>\<open>mimocorb/histogram_buffer.py\<close> are embedded as HOL functions.  Every
  exception the Python code can raise is a value of type \<open>error\<close>; the string names the
  key, attribute or variable concerned.
\<close>

datatype error =
    KeyError string
  | IndexError string
  | RuntimeError string
  | TypeError string
  | ValueError string
  | NameError string
  | UnboundLocalError string
  | AttributeError string
  | AssertionError string
  | FileNotFoundError string
  | ImportError string
  | SyntaxError string
  | OSError string
  | ZeroDivisionError

definition bind_e :: "error + 'a \<Rightarrow> ('a \<Rightarrow> error + 'b) \<Rightarrow> error + 'b" where
  "bind_e m f = (case m of Inl e \<Rightarrow> Inl e | Inr a \<Rightarrow> f a)"

text \<open>\<open>xs[i]\<close> on a Python list, for a non-negative index.\<close>

definition list_get :: "'a list \<Rightarrow> nat \<Rightarrow> string \<Rightarrow> error + 'a" where
  "list_get xs i what = (if i < length xs then Inr (xs ! i) else Inl (IndexError what))"

text \<open>\<open>d[k]\<close> on a Python dict; dicts are association lists in insertion order.\<close>

definition dict_get :: "(string \<times> 'v) list \<Rightarrow> string \<Rightarrow> error + 'v" where
  "dict_get d k = (case map_of d k of None \<Rightarrow> Inl (KeyError k) | Some v \<Rightarrow> Inr v)"

text \<open>\<open>d[k] = v\<close>: an existing key keeps its place, a new key goes to the end.\<close>

fun dict_set :: "string \<Rightarrow> 'v \<Rightarrow> (string \<times> 'v) list \<Rightarrow> (string \<times> 'v) list" where
  "dict_set k v [] = [(k, v)]"
| "dict_set k v (p # ps) = (if fst p = k then (k, v) # ps else p # dict_set k v ps)"

text \<open>A key of a YAML mapping that may be absent: \<open>None\<close> raises \<open>KeyError\<close>.\<close>

definition key_get :: "'v option \<Rightarrow> string \<Rightarrow> error + 'v" where
  "key_get x k = (case x of None \<Rightarrow> Inl (KeyError k) | Some v \<Rightarrow> Inr v)"

text \<open>An attribute of \<open>self\<close> that may not have been assigned yet.\<close>

definition attr_get :: "'v option \<Rightarrow> string \<Rightarrow> error + 'v" where
  "attr_get x k = (case x of None \<Rightarrow> Inl (AttributeError k) | Some v \<Rightarrow> Inr v)"

section \<open>Strings and paths\<close>

definition digit_char :: "nat \<Rightarrow> char" where
  "digit_char n = ''0123456789'' ! n"

text \<open>\<open>str(n)\<close> for a non-negative integer.\<close>

function str_nat :: "nat \<Rightarrow> string" where
  "str_nat n = (if n < 10 then [digit_char n] else str_nat (n div 10) @ [digit_char (n mod 10)])"
  by pat_completeness auto
termination
  by (relation "measure id") auto

declare str_nat.simps [simp del]

text \<open>\<open>"{:0wd}".format(n)\<close> for a non-negative integer.\<close>

definition fmt0 :: "nat \<Rightarrow> nat \<Rightarrow> string" where
  "fmt0 w n = replicate (w - length (str_nat n)) (CHR ''0'') @ str_nat n"

text \<open>\<open>s.find(sub)\<close>: the lowest index where \<open>sub\<close> starts, or \<open>-1\<close>.\<close>

fun find_from :: "string \<Rightarrow> string \<Rightarrow> nat \<Rightarrow> int" where
  "find_from sub [] i = (if sub = [] then int i else - 1)"
| "find_from sub (c # s) i =
     (if take (length sub) (c # s) = sub then int i else find_from sub s (Suc i))"

definition py_find :: "string \<Rightarrow> string \<Rightarrow> int" where
  "py_find s sub = find_from sub s 0"

text \<open>The slice \<open>s[:k]\<close>; a negative \<open>k\<close> counts from the end.\<close>

definition py_slice_to :: "string \<Rightarrow> int \<Rightarrow> string" where
  "py_slice_to s k = (if 0 \<le> k then take (nat k) s else take (nat (int (length s) + k)) s)"

text \<open>\<open>s.rfind(c) + 1\<close> for a single character \<open>c\<close>.\<close>

definition after_last :: "char \<Rightarrow> string \<Rightarrow> nat" where
  "after_last c s = length s - length (takeWhile (\<lambda>x. x \<noteq> c) (rev s))"

definition rstrip :: "char \<Rightarrow> string \<Rightarrow> string" where
  "rstrip c s = rev (dropWhile (\<lambda>x. x = c) (rev s))"

text \<open>\<open>os.path.dirname\<close> and \<open>os.path.basename\<close> of \<open>posixpath\<close>.\<close>

definition posix_dirname :: "string \<Rightarrow> string" where
  "posix_dirname p =
     (let head = take (after_last (CHR ''/'') p) p in
      if head \<noteq> [] \<and> head \<noteq> replicate (length head) (CHR ''/'')
      then rstrip (CHR ''/'') head else head)"

definition posix_basename :: "string \<Rightarrow> string" where
  "posix_basename p = drop (after_last (CHR ''/'') p) p"

fun split_on :: "char \<Rightarrow> string \<Rightarrow> string list" where
  "split_on c [] = [[]]"
| "split_on c (x # xs) =
     (if x = c then [] # split_on c xs
      else (case split_on c xs of [] \<Rightarrow> [[x]] | w # ws \<Rightarrow> (x # w) # ws))"

text \<open>\<open>Path(p).name\<close> and \<open>Path(p).stem\<close> of \<open>pathlib\<close> (POSIX flavour).\<close>

definition path_name :: "string \<Rightarrow> string" where
  "path_name p =
     (case filter (\<lambda>c. c \<noteq> [] \<and> c \<noteq> ''.'') (split_on (CHR ''/'') p) of
        [] \<Rightarrow> []
      | c # cs \<Rightarrow> last (c # cs))"

definition path_stem :: "string \<Rightarrow> string" where
  "path_stem p =
     (let name = path_name p; i = int (after_last (CHR ''.'') name) - 1
      in if 0 < i \<and> i < int (length name) - 1 then take (nat i) name else name)"

section \<open>Histograms: \<^verbatim>\<open>animHists\<close>\<close>

text \<open>
  A histogram descriptor is the list \<^verbatim>\<open>[min, max, nbins, ymax, name, type]\<close>.
  Floating-point values are taken as real numbers; the figure and its artists
  (matplotlib) are left out, only the numeric state of the object is kept.
\<close>

record hdescr =
  h_min :: real
  h_max :: real
  h_nbins :: int
  h_ymax :: real
  h_name :: string
  h_type :: int

record animHists =
  nHist :: nat
  entries :: "real list"
  frqs :: "real list list"
  mins :: "real list"
  maxs :: "real list"
  nbins :: "int list"
  ymxs :: "real list"
  names :: "string list"
  types :: "int list"

text \<open>
  The first loop of \<^verbatim>\<open>__init__\<close>: \<^verbatim>\<open>np.linspace(min, max, nbins + 1)\<close> rejects a
  negative number of samples, and \<^verbatim>\<open>be[1] - be[0]\<close> needs two bin edges.
\<close>

fun check_descr :: "hdescr list \<Rightarrow> error + unit" where
  "check_descr [] = Inr ()"
| "check_descr (d # ds) =
     (if h_nbins d + 1 < 0 then Inl (ValueError ''linspace'')
      else if h_nbins d + 1 < 2 then Inl (IndexError ''be'')
      else check_descr ds)"

text \<open>The last loop of \<^verbatim>\<open>__init__\<close>: the initial frequency array of one histogram.\<close>

definition init_frq :: "hdescr \<Rightarrow> real list" where
  "init_frq d =
     (if h_type d \<noteq> 0
      then map (\<lambda>one. 1 / 10000 * (h_ymax d / real_of_int (h_nbins d)) * one)
             (replicate (nat (h_nbins d)) 1)
      else replicate (nat (h_nbins d)) 0)"

definition animHists_init :: "hdescr list \<Rightarrow> error + animHists" where
  "animHists_init Hdescr =
     bind_e (check_descr Hdescr) (\<lambda>_.
       Inr \<lparr> nHist = length Hdescr,
             entries = replicate (length Hdescr) 0,
             frqs = map init_frq Hdescr,
             mins = map h_min Hdescr,
             maxs = map h_max Hdescr,
             nbins = map h_nbins Hdescr,
             ymxs = map h_ymax Hdescr,
             names = map h_name Hdescr,
             types = map h_type Hdescr \<rparr>)"

text \<open>\<open>int(x)\<close> truncates towards zero.\<close>

definition py_int :: "real \<Rightarrow> int" where
  "py_int x = (if x < 0 then \<lceil>x\<rceil> else \<lfloor>x\<rfloor>)"

text \<open>\<^verbatim>\<open>iv = int(nbins * (v - min) / (max - min))\<close>\<close>

definition bin_index :: "int \<Rightarrow> real \<Rightarrow> real \<Rightarrow> real \<Rightarrow> error + int" where
  "bin_index nb mn mx v =
     (if mx - mn = 0 then Inl ZeroDivisionError
      else Inr (py_int (real_of_int nb * (v - mn) / (mx - mn))))"

text \<open>
  \<^verbatim>\<open>a[iv] += 1\<close> on a numpy array of length \<open>n\<close>: an index in \<open>[-n, 0)\<close> counts
  from the end, any index outside \<open>[-n, n)\<close> raises \<open>IndexError\<close>.
\<close>

definition np_incr :: "real list \<Rightarrow> int \<Rightarrow> error + real list" where
  "np_incr a iv =
     (let n = int (length a); j = (if iv < 0 then n + iv else iv)
      in if 0 \<le> j \<and> j < n then Inr (a[nat j := a ! nat j + 1])
         else Inl (IndexError ''frqs''))"

text \<open>The loop \<^verbatim>\<open>for v in vs\<close> of \<^verbatim>\<open>__call__\<close> for histogram \<open>ih\<close>.\<close>

fun hist_fill :: "animHists \<Rightarrow> nat \<Rightarrow> real list \<Rightarrow> error + animHists" where
  "hist_fill H ih [] = Inr H"
| "hist_fill H ih (v # vs) =
     bind_e (list_get (nbins H) ih ''nbins'') (\<lambda>nb.
     bind_e (list_get (mins H) ih ''mins'') (\<lambda>mn.
     bind_e (list_get (maxs H) ih ''maxs'') (\<lambda>mx.
     bind_e (bin_index nb mn mx v) (\<lambda>iv.
       if 0 \<le> iv \<and> iv < nb then
         bind_e (list_get (frqs H) ih ''self.frqs'') (\<lambda>frq.
         bind_e (np_incr frq iv) (\<lambda>frq'.
           hist_fill (H\<lparr>frqs := (frqs H)[ih := frq']\<rparr>) ih vs))
       else hist_fill H ih vs))))"

text \<open>The body of \<^verbatim>\<open>for ih in range(self.nHist)\<close>.\<close>

definition hist_step :: "real list list \<Rightarrow> nat \<Rightarrow> animHists \<Rightarrow> error + animHists" where
  "hist_step vals ih H =
     bind_e (list_get vals ih ''vals'') (\<lambda>vs.
     bind_e (list_get (entries H) ih ''entries'') (\<lambda>n.
       hist_fill (H\<lparr>entries := (entries H)[ih := n + real (length vs)]\<rparr>) ih vs))"

fun hist_loop :: "real list list \<Rightarrow> nat list \<Rightarrow> animHists \<Rightarrow> error + animHists" where
  "hist_loop vals [] H = Inr H"
| "hist_loop vals (ih # ihs) H =
     bind_e (hist_step vals ih H) (hist_loop vals ihs)"

text \<open>\<^verbatim>\<open>__call__(vals)\<close>; \<open>None\<close> leaves the histograms as they are.\<close>

definition animHists_call :: "animHists \<Rightarrow> real list list option \<Rightarrow> error + animHists" where
  "animHists_call H vals =
     (case vals of None \<Rightarrow> Inr H | Some vs \<Rightarrow> hist_loop vs [0..<nHist H] H)"

text \<open>
  What \<^verbatim>\<open>__init__\<close> establishes: every per-histogram list has \<open>nHist\<close> entries and
  the frequency array of histogram \<open>ih\<close> has \<open>nbins[ih]\<close> bins.
\<close>

definition hist_inv :: "animHists \<Rightarrow> bool" where
  "hist_inv H \<longleftrightarrow>
     length (entries H) = nHist H \<and> length (frqs H) = nHist H \<and>
     length (mins H) = nHist H \<and> length (maxs H) = nHist H \<and>
     length (nbins H) = nHist H \<and>
     list_all2 (\<lambda>frq nb. int (length frq) = nb) (frqs H) (nbins H)"

text \<open>What one run of the loop over the values of histogram \<open>ih\<close> does to the object.\<close>

definition fill_post :: "animHists \<Rightarrow> nat \<Rightarrow> real list \<Rightarrow> animHists \<Rightarrow> bool" where
  "fill_post H ih vs H' \<longleftrightarrow>
     hist_inv H' \<and> nHist H' = nHist H \<and> entries H' = entries H \<and> mins H' = mins H \<and>
     maxs H' = maxs H \<and> nbins H' = nbins H \<and>
     (\<forall>j. j \<noteq> ih \<longrightarrow> frqs H' ! j = frqs H ! j) \<and>
     length (frqs H' ! ih) = length (frqs H ! ih) \<and>
     (\<forall>k<length (frqs H ! ih). frqs H' ! ih ! k = frqs H ! ih ! k +
        real (length (filter (\<lambda>v. bin_index (nbins H ! ih) (mins H ! ih) (maxs H ! ih) v = Inr (int k)) vs)))"

text \<open>What one iteration of the loop over the histograms does.\<close>

definition step_post :: "real list list \<Rightarrow> animHists \<Rightarrow> nat \<Rightarrow> animHists \<Rightarrow> bool" where
  "step_post vals H ih H' \<longleftrightarrow>
     hist_inv H' \<and> nHist H' = nHist H \<and> mins H' = mins H \<and> maxs H' = maxs H \<and>
     nbins H' = nbins H \<and>
     (\<forall>j. j \<noteq> ih \<longrightarrow> frqs H' ! j = frqs H ! j \<and> entries H' ! j = entries H ! j) \<and>
     entries H' ! ih = entries H ! ih + real (length (vals ! ih)) \<and>
     length (frqs H' ! ih) = length (frqs H ! ih) \<and>
     (\<forall>k<length (frqs H ! ih). frqs H' ! ih ! k = frqs H ! ih ! k +
        real (length (filter (\<lambda>v. bin_index (nbins H ! ih) (mins H ! ih) (maxs H ! ih) v = Inr (int k))
           (vals ! ih))))"

text \<open>What the loop over the histograms \<open>ihs\<close> does.\<close>

definition loop_post :: "real list list \<Rightarrow> animHists \<Rightarrow> nat list \<Rightarrow> animHists \<Rightarrow> bool" where
  "loop_post vals H ihs H' \<longleftrightarrow>
     hist_inv H' \<and> nHist H' = nHist H \<and> mins H' = mins H \<and> maxs H' = maxs H \<and>
     nbins H' = nbins H \<and>
     (\<forall>j. j \<notin> set ihs \<longrightarrow> frqs H' ! j = frqs H ! j \<and> entries H' ! j = entries H ! j) \<and>
     (\<forall>ih\<in>set ihs.
        entries H' ! ih = entries H ! ih + real (length (vals ! ih)) \<and>
        length (frqs H' ! ih) = length (frqs H ! ih) \<and>
        (\<forall>k<length (frqs H ! ih). frqs H' ! ih ! k = frqs H ! ih ! k +
           real (length (filter (\<lambda>v. bin_index (nbins H ! ih) (mins H ! ih) (maxs H ! ih) v = Inr (int k))
              (vals ! ih)))))"

text \<open>The object built from the descriptor \<^verbatim>\<open>[0, 10, 4, 1, 'x', 0]\<close>.\<close>

definition hist_example :: animHists where
  "hist_example =
     \<lparr> nHist = 1, entries = [0], frqs = [[0, 0, 0, 0]], mins = [0], maxs = [10],
       nbins = [4], ymxs = [1], names = [''x''], types = [0] \<rparr>"

section \<open>The setup file, the environment and the trace of a run\<close>

text \<open>
  The YAML setup file has the sections \<^verbatim>\<open>RingBuffer\<close> and \<^verbatim>\<open>Functions\<close>, each a list of
  single-key mappings.  A mapping with optional keys is a record of options: \<open>None\<close> is
  an absent key, and reading it raises \<open>KeyError\<close>.
\<close>

datatype dtype_yaml = DTStr string | DTDict "(string \<times> string list) list" | DTOther

record rb_spec =
  number_of_slots :: "int option"
  channel_per_slot :: "int option"
  data_type :: "dtype_yaml option"

text \<open>A value of a YAML document: a number, a string or a mapping.\<close>

datatype yval = YInt int | YStr string | YDict "(string \<times> yval) list"

record fkt_spec =
  file_name :: "string option"
  fkt_name :: "string option"
  num_process :: "int option"
  RB_assign :: "(string \<times> string) list option"
  config_file :: "string option"
  runtime :: "yval option"

type_synonym buffers_yaml = "(string \<times> rb_spec) list list"
type_synonym functions_yaml = "(string \<times> fkt_spec) list list"
type_synonym config_dict = "(string \<times> yval) list"

record setup_yaml =
  RingBuffer :: "buffers_yaml option"
  Functions :: "functions_yaml option"

record tm =
  tm_year :: nat
  tm_mon :: nat
  tm_mday :: nat
  tm_hour :: nat
  tm_min :: nat
  tm_sec :: nat

text \<open>
  What the script reads from outside: the file system (\<open>abspath\<close>, the YAML files, whether
  \<^verbatim>\<open>os.makedirs\<close> and \<^verbatim>\<open>shutil.copyfile\<close> succeed), which type names \<^verbatim>\<open>np.dtype\<close>
  accepts, the clock, and the exit code of every process at every sample of the
  supervision loop.  \<open>modules\<close> is the outcome of the \<^verbatim>\<open>try\<close> block of \<^verbatim>\<open>import_function\<close> for
  a module path: the exception it raises (\<open>ImportError\<close> stands for that class and its
  subclass \<^verbatim>\<open>ModuleNotFoundError\<close>; a \<open>SyntaxError\<close> in the module, the \<open>ValueError\<close> for an
  empty module name and any exception raised while the module is executed are other
  values), or the names the imported module defines.
\<close>

record env =
  abspath :: "string \<Rightarrow> string"
  setup_files :: "string \<Rightarrow> error + setup_yaml"
  config_files :: "string \<Rightarrow> config_dict option"
  makedirs_ok :: "string \<Rightarrow> bool"
  copy_ok :: "string \<Rightarrow> string \<Rightarrow> bool"
  np_dtype_ok :: "string \<Rightarrow> bool"
  modules :: "string \<Rightarrow> error + string list"
  localtime :: tm
  timed_rounds :: "int \<Rightarrow> nat"
  exitcode :: "nat \<Rightarrow> nat \<Rightarrow> int option"

datatype layout = Scalar string | Fields "(string \<times> string) list"

text \<open>
  The calls the controller makes on the outside world, in the order it makes them.
  Console output is left out.
\<close>

datatype event =
    MakeDirs string nat
  | CopyFile string string
  | Hook string
  | NewBuffer string int int layout
  | NewReaderGroup string
  | NewWriter string
  | NewObserver string
  | ProcessStart nat
  | Sleep
  | BufferStatus string
  | BufferPause string
  | BufferResume string
  | Input
  | BufferShutdown string
  | ProcessJoin nat

text \<open>
  A computation yields the calls it made and then either the exception that ended it
  or its result.
\<close>

type_synonym 'a io = "event list \<times> (error + 'a)"

definition io_return :: "'a \<Rightarrow> 'a io" where
  "io_return a = ([], Inr a)"

definition io_raise :: "error \<Rightarrow> 'a io" where
  "io_raise e = ([], Inl e)"

definition io_lift :: "error + 'a \<Rightarrow> 'a io" where
  "io_lift r = ([], r)"

definition io_emit :: "event list \<Rightarrow> unit io" where
  "io_emit evs = (evs, Inr ())"

definition bind_io :: "'a io \<Rightarrow> ('a \<Rightarrow> 'b io) \<Rightarrow> 'b io" where
  "bind_io m f =
     (case m of
        (t, Inl e) \<Rightarrow> (t, Inl e)
      | (t, Inr a) \<Rightarrow> (case f a of (t', r) \<Rightarrow> (t @ t', r)))"

text \<open>A \<^verbatim>\<open>for\<close> loop whose body may raise.\<close>

fun for_each :: "'i list \<Rightarrow> ('i \<Rightarrow> 's \<Rightarrow> 's io) \<Rightarrow> 's \<Rightarrow> 's io" where
  "for_each [] body s = io_return s"
| "for_each (i # is) body s = bind_io (body i s) (for_each is body)"

section \<open>Ring buffers, endpoints and processes\<close>

text \<open>
  Modelled from the spec: the module \<^verbatim>\<open>mimocorb.mimo_buffer\<close> (the class \<^verbatim>\<open>NewBuffer\<close> with
  \<^verbatim>\<open>new_reader_group\<close>, \<^verbatim>\<open>new_writer\<close>, \<^verbatim>\<open>new_observer\<close>) is not among the sources.
  After section 4.1 of the specification a buffer is created from its number of slots,
  its channels per slot and its layout, with no reader group; \<^verbatim>\<open>new_reader_group\<close>
  allocates the next group, \<^verbatim>\<open>new_writer\<close> and \<^verbatim>\<open>new_observer\<close> hand out a handle.  A
  handle is named by the buffer and by how many handles of its kind were handed out
  before it.
\<close>

record ringbuffer =
  rb_slots :: int
  rb_channels :: int
  rb_layout :: layout
  n_reader_groups :: nat
  n_writers :: nat
  n_observers :: nat

datatype endpoint = Reader string nat | Writer string nat | Observer string nat

definition NewBuffer_obj :: "int \<Rightarrow> int \<Rightarrow> layout \<Rightarrow> ringbuffer" where
  "NewBuffer_obj num_slots num_ch rb_datatype =
     \<lparr> rb_slots = num_slots, rb_channels = num_ch, rb_layout = rb_datatype,
       n_reader_groups = 0, n_writers = 0, n_observers = 0 \<rparr>"

text \<open>
  A \<^verbatim>\<open>multiprocessing.Process\<close> object.  \<open>proc_id\<close> stands for the identity of the
  Python object: the number of \<^verbatim>\<open>Process\<close> objects created before it.  The target
  \<open>None\<close> is Python's \<^verbatim>\<open>None\<close>; a callable is named by its module path and its name.
\<close>

record process =
  proc_id :: nat
  target :: "(string \<times> string) option"
  args_source :: "endpoint list option"
  args_sink :: "endpoint list option"
  args_observe :: "endpoint list option"
  args_config :: config_dict
  kwargs :: "(string \<times> string) list"
  name :: string

section \<open>The class \<^verbatim>\<open>buffer_control\<close>\<close>

text \<open>
  The attributes \<^verbatim>\<open>ringbuffers\<close>, \<^verbatim>\<open>process_list\<close> and \<^verbatim>\<open>runtime\<close> exist only once
  \<^verbatim>\<open>setup_buffers\<close> or \<^verbatim>\<open>setup_workers\<close> has assigned them.
\<close>

record buffer_control =
  buffers_dict :: buffers_yaml
  number_of_ringbuffers :: nat
  out_dir :: string
  functions_dict :: functions_yaml
  number_of_functions :: nat
  workers_setup :: bool
  workers_started :: bool
  ringbuffers :: "(string \<times> ringbuffer) list option"
  process_list :: "process list option"
  self_runtime :: "yval option"

definition buffer_control_init :: "buffers_yaml \<Rightarrow> functions_yaml \<Rightarrow> string \<Rightarrow> buffer_control" where
  "buffer_control_init bd fd output_directory =
     \<lparr> buffers_dict = bd,
       number_of_ringbuffers = length bd + 1,
       out_dir = output_directory,
       functions_dict = fd,
       number_of_functions = length fd,
       workers_setup = False,
       workers_started = False,
       ringbuffers = None,
       process_list = None,
       self_runtime = None \<rparr>"

subsection \<open>\<^verbatim>\<open>setup_buffers\<close>\<close>

text \<open>
  The fields of a record layout: \<^verbatim>\<open>(value[0], np.dtype(value[1]))\<close> for every item of
  the mapping.
\<close>

fun make_fields :: "env \<Rightarrow> (string \<times> string list) list \<Rightarrow> error + (string \<times> string) list" where
  "make_fields E [] = Inr []"
| "make_fields E ((key, val) # rest) =
     bind_e (list_get val 0 ''value'') (\<lambda>field_name.
     bind_e (list_get val 1 ''value'') (\<lambda>type_name.
       if np_dtype_ok E type_name
       then bind_e (make_fields E rest) (\<lambda>fs. Inr ((field_name, type_name) # fs))
       else Inl (TypeError type_name)))"

definition make_dtype :: "env \<Rightarrow> dtype_yaml \<Rightarrow> error + layout" where
  "make_dtype E dt =
     (case dt of
        DTStr s \<Rightarrow> if np_dtype_ok E s then Inr (Scalar s) else Inl (TypeError s)
      | DTDict d \<Rightarrow> bind_e (make_fields E d) (\<lambda>fs. Inr (Fields fs))
      | DTOther \<Rightarrow> Inl (RuntimeError ''Ring buffer data type is unknown!''))"

text \<open>The body of \<^verbatim>\<open>for i in range(1, self.number_of_ringbuffers)\<close>.\<close>

definition setup_buffer ::
  "env \<Rightarrow> buffer_control \<Rightarrow> nat \<Rightarrow> (string \<times> ringbuffer) list \<Rightarrow> (string \<times> ringbuffer) list io"
where
  "setup_buffer E bc i rbs =
     (let ringbuffer_name = ''RB_'' @ str_nat i in
      bind_io (io_lift (list_get (buffers_dict bc) (i - 1) ''buffers_dict'')) (\<lambda>entry.
        case map_of entry ringbuffer_name of
          None \<Rightarrow> io_raise (RuntimeError (''Ring buffer not found: '' @ ringbuffer_name))
        | Some spec \<Rightarrow>
            bind_io (io_lift (key_get (number_of_slots spec) ''number_of_slots'')) (\<lambda>num_slots.
            bind_io (io_lift (key_get (channel_per_slot spec) ''channel_per_slot'')) (\<lambda>num_ch.
            bind_io (io_lift (key_get (data_type spec) ''data_type'')) (\<lambda>dt.
            bind_io (io_lift (make_dtype E dt)) (\<lambda>rb_datatype.
            bind_io (io_emit [NewBuffer ringbuffer_name num_slots num_ch rb_datatype]) (\<lambda>_.
              io_return
                (dict_set ringbuffer_name (NewBuffer_obj num_slots num_ch rb_datatype) rbs))))))))"

definition setup_buffers :: "env \<Rightarrow> buffer_control \<Rightarrow> buffer_control io" where
  "setup_buffers E bc =
     bind_io (for_each [1..<number_of_ringbuffers bc] (setup_buffer E bc) []) (\<lambda>rbs.
       io_return (bc\<lparr>ringbuffers := Some rbs\<rparr>))"

subsection \<open>\<^verbatim>\<open>setup_workers\<close>\<close>

definition copyfile :: "env \<Rightarrow> string \<Rightarrow> string \<Rightarrow> unit io" where
  "copyfile E src dst =
     bind_io (io_emit [CopyFile src dst]) (\<lambda>_.
       if copy_ok E src dst then io_return () else io_raise (FileNotFoundError dst))"

definition get_config :: "env \<Rightarrow> string \<Rightarrow> config_dict io" where
  "get_config E cfg =
     (case config_files E (abspath E cfg) of
        None \<Rightarrow> io_raise (FileNotFoundError cfg)
      | Some c \<Rightarrow> io_return c)"

text \<open>
  \<^verbatim>\<open>if 'runtime' in general: ... general['runtime']\<close> for the section \<^verbatim>\<open>general\<close> of the
  common configuration: on a string \<^verbatim>\<open>in\<close> is the substring test.
\<close>

definition runtime_override :: "yval \<Rightarrow> error + yval option" where
  "runtime_override general =
     (case general of
        YDict d \<Rightarrow> Inr (map_of d ''runtime'')
      | YStr s \<Rightarrow>
          if 0 \<le> py_find s ''runtime'' then Inl (TypeError ''string indices must be integers'')
          else Inr None
      | YInt n \<Rightarrow> Inl (TypeError ''argument of type int is not iterable''))"

text \<open>
  Lines 83 to 95: the run time and the common configuration.  The run time is first
  read from \<^verbatim>\<open>self.functions_dict\<close>; the common configuration file is looked up in the
  module-level variable \<^verbatim>\<open>parallel_functions_dict\<close>, here the argument \<open>G\<close> (\<open>None\<close> when
  the module was imported and the variable does not exist).  The result is the run time
  and the local variable \<^verbatim>\<open>config_dict_common\<close>, which stays unbound (\<open>None\<close>) when no
  common file is named.
\<close>

definition common_config ::
  "functions_yaml option \<Rightarrow> env \<Rightarrow> buffer_control \<Rightarrow> (yval \<times> config_dict option) io"
where
  "common_config G E bc =
     bind_io (io_lift (list_get (functions_dict bc) 0 ''functions_dict'')) (\<lambda>entry0.
     bind_io (io_lift (dict_get entry0 ''Fkt_main'')) (\<lambda>fkt_main.
       let runtime0 = (case runtime fkt_main of None \<Rightarrow> YInt 0 | Some r \<Rightarrow> r) in
       case G of
         None \<Rightarrow> io_raise (NameError ''parallel_functions_dict'')
       | Some parallel_functions_dict \<Rightarrow>
           bind_io (io_lift (list_get parallel_functions_dict 0 ''parallel_functions_dict''))
             (\<lambda>g0.
           bind_io (io_lift (dict_get g0 ''Fkt_main'')) (\<lambda>g_main.
             case config_file g_main of
               None \<Rightarrow> io_return (runtime0, None)
             | Some cfg_common \<Rightarrow>
                 bind_io (copyfile E (abspath E cfg_common)
                            (posix_dirname (out_dir bc) @ ''/'' @ posix_basename cfg_common))
                   (\<lambda>_.
                 bind_io (get_config E cfg_common) (\<lambda>config_dict_common.
                 bind_io (io_lift (dict_get config_dict_common ''general'')) (\<lambda>general.
                 bind_io (io_lift (runtime_override general)) (\<lambda>override.
                   io_return
                     ((case override of None \<Rightarrow> runtime0 | Some r \<Rightarrow> r),
                      Some config_dict_common)))))))))"

text \<open>
  Lines 115 to 131: the configuration of one worker.  Reading the unbound local
  \<^verbatim>\<open>config_dict_common\<close> raises \<open>UnboundLocalError\<close>, which the handler for
  \<^verbatim>\<open>(KeyError, TypeError)\<close> does not catch.  A section that is no mapping is refused
  by the assignment of \<^verbatim>\<open>directory_prefix\<close> that follows.  (That assignment also
  writes into the section of the common configuration itself; as every worker is given
  the same value, sharing the section changes nothing.)
\<close>

definition resolve_config ::
  "env \<Rightarrow> config_dict option \<Rightarrow> buffer_control \<Rightarrow> fkt_spec \<Rightarrow> string \<Rightarrow> config_dict io"
where
  "resolve_config E config_dict_common bc w fkt_py_name =
     (case config_file w of
        None \<Rightarrow>
          (case config_dict_common of
             None \<Rightarrow> io_raise (UnboundLocalError ''config_dict_common'')
           | Some common \<Rightarrow>
               (case map_of common fkt_py_name of
                  None \<Rightarrow> io_return []
                | Some (YDict section) \<Rightarrow> io_return section
                | Some _ \<Rightarrow> io_raise (TypeError ''object does not support item assignment'')))
      | Some cfg_file_name \<Rightarrow>
          bind_io (copyfile E (abspath E cfg_file_name)
                     (posix_dirname (out_dir bc) @ ''/'' @ posix_basename cfg_file_name))
            (\<lambda>_.
          get_config E cfg_file_name))"

definition get_ringbuffer :: "buffer_control \<Rightarrow> string \<Rightarrow> ringbuffer io" where
  "get_ringbuffer bc key =
     bind_io (io_lift (attr_get (ringbuffers bc) ''ringbuffers'')) (\<lambda>rbs.
       io_lift (dict_get rbs key))"

definition put_ringbuffer :: "buffer_control \<Rightarrow> string \<Rightarrow> ringbuffer \<Rightarrow> buffer_control" where
  "put_ringbuffer bc key rb = bc\<lparr>ringbuffers := map_option (dict_set key rb) (ringbuffers bc)\<rparr>"

definition new_reader_group :: "buffer_control \<Rightarrow> string \<Rightarrow> (buffer_control \<times> endpoint) io" where
  "new_reader_group bc key =
     bind_io (get_ringbuffer bc key) (\<lambda>rb.
     bind_io (io_emit [NewReaderGroup key]) (\<lambda>_.
       io_return (put_ringbuffer bc key (rb\<lparr>n_reader_groups := Suc (n_reader_groups rb)\<rparr>),
                  Reader key (n_reader_groups rb))))"

definition new_writer :: "buffer_control \<Rightarrow> string \<Rightarrow> (buffer_control \<times> endpoint) io" where
  "new_writer bc key =
     bind_io (get_ringbuffer bc key) (\<lambda>rb.
     bind_io (io_emit [NewWriter key]) (\<lambda>_.
       io_return (put_ringbuffer bc key (rb\<lparr>n_writers := Suc (n_writers rb)\<rparr>),
                  Writer key (n_writers rb))))"

definition new_observer :: "buffer_control \<Rightarrow> string \<Rightarrow> (buffer_control \<times> endpoint) io" where
  "new_observer bc key =
     bind_io (get_ringbuffer bc key) (\<lambda>rb.
     bind_io (io_emit [NewObserver key]) (\<lambda>_.
       io_return (put_ringbuffer bc key (rb\<lparr>n_observers := Suc (n_observers rb)\<rparr>),
                  Observer key (n_observers rb))))"

text \<open>
  Lines 145 to 154: the loop over \<^verbatim>\<open>assigned_ringbuffers.items()\<close>.  The state is the
  controller and the three lists; a role that is none of \<^verbatim>\<open>read\<close>, \<^verbatim>\<open>write\<close>,
  \<^verbatim>\<open>observe\<close> falls through the \<^verbatim>\<open>if\<close> chain.
\<close>

type_synonym endpoints = "endpoint list \<times> endpoint list \<times> endpoint list"

fun assign_endpoints ::
  "(string \<times> string) list \<Rightarrow> buffer_control \<times> endpoints \<Rightarrow> (buffer_control \<times> endpoints) io"
where
  "assign_endpoints [] st = io_return st"
| "assign_endpoints ((key, val) # rest) (bc, source_list, sink_list, observe_list) =
     (if val = ''read'' then
        bind_io (new_reader_group bc key) (\<lambda>(bc', h).
          assign_endpoints rest (bc', source_list @ [h], sink_list, observe_list))
      else if val = ''write'' then
        bind_io (new_writer bc key) (\<lambda>(bc', h).
          assign_endpoints rest (bc', source_list, sink_list @ [h], observe_list))
      else if val = ''observe'' then
        bind_io (new_observer bc key) (\<lambda>(bc', h).
          assign_endpoints rest (bc', source_list, sink_list, observe_list @ [h]))
      else assign_endpoints rest (bc, source_list, sink_list, observe_list))"

text \<open>\<^verbatim>\<open>if not xs: xs = None\<close>\<close>

definition none_if_empty :: "'a list \<Rightarrow> 'a list option" where
  "none_if_empty xs = (if xs = [] then None else Some xs)"

text \<open>
  \<^verbatim>\<open>import_function\<close>: an \<open>ImportError\<close> is caught and \<open>None\<close> returned; every other
  exception of the \<^verbatim>\<open>try\<close> block propagates; a module that lacks the name raises
  \<open>KeyError\<close> from \<^verbatim>\<open>vars(module)[function_name]\<close>, outside the \<^verbatim>\<open>try\<close>.  The changes to
  \<^verbatim>\<open>sys.path\<close> are part of the environment's \<open>modules\<close>.
\<close>

definition import_function :: "env \<Rightarrow> string \<Rightarrow> string \<Rightarrow> (string \<times> string) option io" where
  "import_function E module_path function_name =
     (case modules E module_path of
        Inl (ImportError ie) \<Rightarrow> io_return None
      | Inl e \<Rightarrow> io_raise e
      | Inr defined \<Rightarrow>
          if function_name \<in> set defined then io_return (Some (module_path, function_name))
          else io_raise (KeyError function_name))"

text \<open>
  \<^verbatim>\<open>dict(self.functions_dict[i][function_name]['RB_assign'])\<close>, with the empty mapping
  when the key is absent.
\<close>

definition assigned_ringbuffers :: "fkt_spec \<Rightarrow> (string \<times> string) list" where
  "assigned_ringbuffers w = (case RB_assign w of None \<Rightarrow> [] | Some a \<Rightarrow> a)"

text \<open>
  \<^verbatim>\<open>Process(target=..., args=(source_list, sink_list, observe_list, config_dict),
  kwargs=..., name=...)\<close>; the last argument is the identity of the new object.
\<close>

definition Process ::
  "(string \<times> string) option \<Rightarrow>
   endpoint list option \<times> endpoint list option \<times> endpoint list option \<times> config_dict \<Rightarrow>
   (string \<times> string) list \<Rightarrow> string \<Rightarrow> nat \<Rightarrow> process"
where
  "Process tgt args kw nm ident =
     \<lparr> proc_id = ident, target = tgt,
       args_source = fst args, args_sink = fst (snd args), args_observe = fst (snd (snd args)),
       args_config = snd (snd (snd args)),
       kwargs = kw, name = nm \<rparr>"

text \<open>The body of \<^verbatim>\<open>for i in range(1, self.number_of_functions)\<close>.\<close>

definition setup_worker ::
  "env \<Rightarrow> config_dict option \<Rightarrow> nat \<Rightarrow> buffer_control \<Rightarrow> buffer_control io"
where
  "setup_worker E config_dict_common i bc =
     bind_io (io_lift (list_get (functions_dict bc) i ''functions_dict'')) (\<lambda>entry.
     bind_io (io_lift (dict_get entry (''Fkt_'' @ str_nat i))) (\<lambda>w.
     bind_io (io_lift (key_get (file_name w) ''file_name'')) (\<lambda>file_py_name.
     bind_io (io_lift (key_get (fkt_name w) ''fkt_name'')) (\<lambda>fkt_py_name.
     bind_io (io_lift (key_get (num_process w) ''num_process'')) (\<lambda>number_of_processes.
     bind_io (resolve_config E config_dict_common bc w fkt_py_name) (\<lambda>config_dict.
     bind_io (assign_endpoints (assigned_ringbuffers w) (bc, [], [], []))
       (\<lambda>(bc1, source_list, sink_list, observe_list).
     bind_io (import_function E file_py_name fkt_py_name) (\<lambda>parallel_function.
     bind_io (io_lift (attr_get (process_list bc1) ''process_list'')) (\<lambda>pl.
       io_return
         (bc1\<lparr>process_list := Some (pl @
            map (\<lambda>k. Process parallel_function
                        (none_if_empty source_list, none_if_empty sink_list,
                         none_if_empty observe_list,
                         dict_set ''directory_prefix'' (YStr (out_dir bc)) config_dict)
                        (assigned_ringbuffers w) fkt_py_name (length pl + k))
              [0..<nat number_of_processes])\<rparr>))))))))))"

definition setup_workers ::
  "functions_yaml option \<Rightarrow> env \<Rightarrow> buffer_control \<Rightarrow> buffer_control io"
where
  "setup_workers G E bc =
     (if workers_setup bc then io_return bc
      else
        bind_io (common_config G E (bc\<lparr>process_list := Some []\<rparr>)) (\<lambda>(rt, config_dict_common).
        bind_io (for_each [1..<number_of_functions bc] (setup_worker E config_dict_common)
                   (bc\<lparr>process_list := Some [], self_runtime := Some rt\<rparr>)) (\<lambda>bc'.
          io_return (bc'\<lparr>workers_setup := True\<rparr>))))"

subsection \<open>\<^verbatim>\<open>start_workers\<close>, \<^verbatim>\<open>shutdown\<close>, \<^verbatim>\<open>pause\<close>, \<^verbatim>\<open>resume\<close>\<close>

text \<open>
  \<^verbatim>\<open>start_workers\<close> reverses \<^verbatim>\<open>self.process_list\<close> in place and starts the processes in
  the new order.  A second call only prints a message and goes on; \<^verbatim>\<open>Process.start\<close>
  then refuses to start a process twice.
\<close>

definition start_workers :: "buffer_control \<Rightarrow> (buffer_control \<times> process list) io" where
  "start_workers bc =
     bind_io (io_lift (attr_get (process_list bc) ''process_list'')) (\<lambda>pl.
       let pl' = rev pl in
       if workers_started bc \<and> pl' \<noteq> []
       then io_raise (AssertionError ''cannot start a process twice'')
       else
         bind_io (io_emit (map (\<lambda>p. ProcessStart (proc_id p)) pl')) (\<lambda>_.
           io_return (bc\<lparr>process_list := Some pl', workers_started := True\<rparr>, pl')))"

definition display_layout :: "buffer_control \<Rightarrow> unit io" where
  "display_layout bc =
     bind_io (io_lift (attr_get (ringbuffers bc) ''ringbuffers'')) (\<lambda>_. io_return ())"

text \<open>
  \<^verbatim>\<open>shutdown\<close>: \<^verbatim>\<open>buffer.shutdown()\<close> for every item of \<^verbatim>\<open>self.ringbuffers\<close>, then
  \<^verbatim>\<open>p.join()\<close> for every process, then the attribute is deleted.  \<^verbatim>\<open>Process.join\<close>
  refuses a process that was never started.
\<close>

definition shutdown :: "buffer_control \<Rightarrow> buffer_control io" where
  "shutdown bc =
     bind_io (io_lift (attr_get (ringbuffers bc) ''ringbuffers'')) (\<lambda>rbs.
     bind_io (io_emit (map (\<lambda>(name, buffer). BufferShutdown name) rbs)) (\<lambda>_.
     bind_io (io_lift (attr_get (process_list bc) ''process_list'')) (\<lambda>pl.
       if \<not> workers_started bc \<and> pl \<noteq> []
       then io_raise (AssertionError ''can only join a started process'')
       else
         bind_io (io_emit (map (\<lambda>p. ProcessJoin (proc_id p)) pl)) (\<lambda>_.
           io_return (bc\<lparr>ringbuffers := None\<rparr>)))))"


definition resume :: "buffer_control \<Rightarrow> unit io" where
  "resume bc =
     bind_io (get_ringbuffer bc ''RB_1'') (\<lambda>_. io_emit [BufferResume ''RB_1''])"

section \<open>The main script\<close>

text \<open>The time code \<^verbatim>\<open>{:04d}-{:02d}-{:02d}_{:02d}{:02d}{:02d}\<close> of the start time.\<close>

definition time_code :: "tm \<Rightarrow> string" where
  "time_code t =
     fmt0 4 (tm_year t) @ ''-'' @ fmt0 2 (tm_mon t) @ ''-'' @ fmt0 2 (tm_mday t) @ ''_'' @
     fmt0 2 (tm_hour t) @ fmt0 2 (tm_min t) @ fmt0 2 (tm_sec t)"

definition directory_prefix :: "env \<Rightarrow> string \<Rightarrow> string" where
  "directory_prefix E setup_filename =
     (let template_name = path_stem setup_filename;
          template_name = py_slice_to template_name (py_find template_name ''setup'')
      in ''target/'' @ template_name @ time_code (localtime E) @ ''/'')"

text \<open>\<^verbatim>\<open>os.makedirs(directory_prefix, mode=0o0770, exist_ok=True)\<close>\<close>

definition makedirs :: "env \<Rightarrow> string \<Rightarrow> nat \<Rightarrow> unit io" where
  "makedirs E dir mode =
     bind_io (io_emit [MakeDirs dir mode]) (\<lambda>_.
       if makedirs_ok E dir then io_return () else io_raise (OSError dir))"

text \<open>
  From the command line to the controller that is set up: the setup file is loaded, the
  target directory made with mode \<open>0o770\<close>, the setup file copied, the buffers and the
  workers set up.
\<close>

definition main_init :: "env \<Rightarrow> string \<Rightarrow> buffer_control io" where
  "main_init E setup_filename =
     (if setup_filename = [] then io_raise (RuntimeError ''No setup YAML file was specified!'')
      else
        bind_io (io_lift (setup_files E (abspath E setup_filename))) (\<lambda>setup_yaml.
        bind_io (makedirs E (directory_prefix E setup_filename) (7 * 64 + 7 * 8)) (\<lambda>_.
        bind_io (copyfile E (abspath E setup_filename)
                   (posix_dirname (directory_prefix E setup_filename) @ ''/'' @ setup_filename))
          (\<lambda>_.
        bind_io (io_lift (key_get (RingBuffer setup_yaml) ''RingBuffer'')) (\<lambda>ringbuffers_dict.
        bind_io (io_lift (key_get (Functions setup_yaml) ''Functions''))
          (\<lambda>parallel_functions_dict.
        bind_io (io_emit [Hook ''appl_init'']) (\<lambda>_.
        bind_io (setup_buffers E
                   (buffer_control_init ringbuffers_dict parallel_functions_dict
                      (directory_prefix E setup_filename))) (\<lambda>bc.
        bind_io (setup_workers (Some parallel_functions_dict) E bc) (\<lambda>bc.
        bind_io (display_layout bc) (\<lambda>_.
          io_return bc))))))))))"

text \<open>... and then the workers are started.\<close>

definition main_setup :: "env \<Rightarrow> string \<Rightarrow> (buffer_control \<times> process list) io" where
  "main_setup E setup_filename = bind_io (main_init E setup_filename) start_workers"








section \<open>An example topology\<close>

text \<open>
  Two buffers and two worker definitions: a source writing into \<^verbatim>\<open>RB_1\<close> and two
  replicas of a filter reading \<^verbatim>\<open>RB_1\<close> and writing into \<^verbatim>\<open>RB_2\<close>, with a common
  configuration file.
\<close>

definition fkt_main_example :: fkt_spec where
  "fkt_main_example =
     \<lparr>file_name = None, fkt_name = None, num_process = None, RB_assign = None,
      config_file = Some ''config/common.yaml'', runtime = None\<rparr>"

definition fkt_1_example :: fkt_spec where
  "fkt_1_example =
     \<lparr>file_name = Some ''modules/source'', fkt_name = Some ''read_source'',
      num_process = Some 1, RB_assign = Some [(''RB_1'', ''write'')],
      config_file = None, runtime = None\<rparr>"

definition fkt_2_example :: fkt_spec where
  "fkt_2_example =
     \<lparr>file_name = Some ''modules/filters'', fkt_name = Some ''find_peaks'',
      num_process = Some 2, RB_assign = Some [(''RB_1'', ''read''), (''RB_2'', ''write'')],
      config_file = None, runtime = None\<rparr>"

definition buffers_example :: buffers_yaml where
  "buffers_example =
     [[(''RB_1'', \<lparr>number_of_slots = Some 16, channel_per_slot = Some 1,
                   data_type = Some (DTStr ''float'')\<rparr>)],
      [(''RB_2'', \<lparr>number_of_slots = Some 8, channel_per_slot = Some 1,
                   data_type = Some (DTDict [(''1'', [''height'', ''float''])])\<rparr>)]]"

definition functions_example :: functions_yaml where
  "functions_example =
     [[(''Fkt_main'', fkt_main_example)], [(''Fkt_1'', fkt_1_example)],
      [(''Fkt_2'', fkt_2_example)]]"

definition yaml_example :: setup_yaml where
  "yaml_example = \<lparr>RingBuffer = Some buffers_example, Functions = Some functions_example\<rparr>"

text \<open>
  An environment in which the setup file \<^verbatim>\<open>demo_setup.yaml\<close> holds the topology \<open>y\<close>, the
  directory can be made and every copy succeeds, the two modules of the example can be
  imported, the module \<^verbatim>\<open>modules/broken\<close> has a syntax error and no other module is found,
  and the first process created has left with exit code \<open>0\<close> when the exit codes are read
  for the third time.
\<close>

definition env_with :: "setup_yaml \<Rightarrow> env" where
  "env_with y =
     \<lparr> abspath = (\<lambda>p. ''/daq/'' @ p),
       setup_files = (\<lambda>p. if p = ''/daq/demo_setup.yaml'' then Inr y
                          else Inl (FileNotFoundError p)),
       config_files = (\<lambda>p. if p = ''/daq/config/common.yaml''
                           then Some [(''general'', YDict [(''runtime'', YInt 0)]),
                                      (''find_peaks'', YDict [(''threshold'', YInt 5)])]
                           else None),
       makedirs_ok = (\<lambda>dir. True),
       copy_ok = (\<lambda>src dst. True),
       np_dtype_ok = (\<lambda>s. s \<in> set [''float'', ''int'', ''uint8'']),
       modules = (\<lambda>m. if m = ''modules/source'' then Inr [''read_source'']
                      else if m = ''modules/filters'' then Inr [''find_peaks'']
                      else if m = ''modules/broken'' then Inl (SyntaxError m)
                      else Inl (ImportError m)),
       localtime = \<lparr>tm_year = 2024, tm_mon = 1, tm_mday = 2, tm_hour = 3, tm_min = 4,
                     tm_sec = 5\<rparr>,
       timed_rounds = (\<lambda>r. nat (2 * r)),
       exitcode = (\<lambda>k p. if 2 \<le> k \<and> p = 0 then Some 0 else None) \<rparr>"

definition env_example :: env where
  "env_example = env_with yaml_example"

section \<open>Notions used in the statements and proofs\<close>

definition frame :: "buffer_control \<Rightarrow> buffer_control \<Rightarrow> bool" where
  "frame bc bc' \<longleftrightarrow>
     (\<exists>r. bc' = bc\<lparr>ringbuffers := r\<rparr> \<and>
          map_option (map fst) r = map_option (map fst) (ringbuffers bc))"

definition buffer_names :: "buffer_control \<Rightarrow> string list" where
  "buffer_names bc = (case ringbuffers bc of None \<Rightarrow> [] | Some rbs \<Rightarrow> map fst rbs)"

text \<open>What one endpoint allocation does: nothing but an error, or one call and a new handle.\<close>

definition alloc_spec ::
  "event \<Rightarrow> buffer_control \<Rightarrow> string \<Rightarrow> (buffer_control \<times> endpoint) io \<Rightarrow> bool" where
  "alloc_spec ev bc key m \<longleftrightarrow>
     (case snd m of
        Inl e \<Rightarrow> fst m = [] \<and> key \<notin> set (buffer_names bc)
      | Inr (bc', h) \<Rightarrow> fst m = [ev] \<and> frame bc bc' \<and> key \<in> set (buffer_names bc))"

definition is_alloc :: "event \<Rightarrow> bool" where
  "is_alloc e = (case e of NewReaderGroup k \<Rightarrow> True | NewWriter k \<Rightarrow> True
                 | NewObserver k \<Rightarrow> True | _ \<Rightarrow> False)"

definition assign_post ::
  "(string \<times> string) list \<Rightarrow> buffer_control \<times> endpoints \<Rightarrow> event list \<Rightarrow>
   buffer_control \<times> endpoints \<Rightarrow> bool" where
  "assign_post a st t st' \<longleftrightarrow>
     frame (fst st) (fst st') \<and>
     (\<exists>rs ws os.
        snd st' = (fst (snd st) @ rs, fst (snd (snd st)) @ ws, snd (snd (snd st)) @ os) \<and>
        length rs = length (filter (\<lambda>kv. snd kv = ''read'') a) \<and>
        length ws = length (filter (\<lambda>kv. snd kv = ''write'') a) \<and>
        length os = length (filter (\<lambda>kv. snd kv = ''observe'') a)) \<and>
     (\<forall>key. length (filter (\<lambda>e. e = NewReaderGroup key) t) =
            length (filter (\<lambda>kv. kv = (key, ''read'')) a))"

definition worker_new ::
  "buffer_control \<Rightarrow> fkt_spec \<Rightarrow> (string \<times> string) option \<Rightarrow> endpoints \<Rightarrow> config_dict \<Rightarrow>
   nat \<Rightarrow> process list" where
  "worker_new bc w pf eps cfg n0 =
     map (\<lambda>k. Process pf
                 (none_if_empty (fst eps), none_if_empty (fst (snd eps)),
                  none_if_empty (snd (snd eps)),
                  dict_set ''directory_prefix'' (YStr (out_dir bc)) cfg)
                 (assigned_ringbuffers w) (the (fkt_name w)) (n0 + k))
       [0..<nat (the (num_process w))]"

text \<open>The common configuration file of the example and the controller after \<^verbatim>\<open>setup_buffers\<close>.\<close>

definition common_example :: config_dict where
  "common_example =
     [(''general'', YDict [(''runtime'', YInt 0)]),
      (''find_peaks'', YDict [(''threshold'', YInt 5)])]"

definition bc_example :: buffer_control where
  "bc_example =
     (buffer_control_init buffers_example functions_example ''target/demo/'')
       \<lparr>ringbuffers := Some [(''RB_1'', NewBuffer_obj 16 1 (Scalar ''float'')),
                             (''RB_2'', NewBuffer_obj 8 1 (Fields [(''height'', ''float'')]))],
        process_list := Some []\<rparr>"

text \<open>
  \<open>worker_inv bc0 bc\<close>: \<open>bc\<close> is \<open>bc0\<close> but for the handle counters of its buffers and
  a process list in which every process carries its position as identity.
\<close>

definition worker_inv :: "buffer_control \<Rightarrow> buffer_control \<Rightarrow> bool" where
  "worker_inv bc0 bc \<longleftrightarrow>
     (\<exists>r pl. bc = bc0\<lparr>ringbuffers := r, process_list := Some pl\<rparr> \<and>
             map_option (map fst) r = map_option (map fst) (ringbuffers bc0) \<and>
             map proc_id pl = [0..<length pl])"

text \<open>The name \<^verbatim>\<open>"RB_" + str(i)\<close> of the \<open>i\<close>-th buffer.\<close>

definition rb_name :: "nat \<Rightarrow> string" where
  "rb_name i = ''RB_'' @ str_nat i"

text \<open>Every call in the trace of a computation satisfies \<open>P\<close>.\<close>

definition events_ok :: "(event \<Rightarrow> bool) \<Rightarrow> 'a io \<Rightarrow> bool" where
  "events_ok P m \<longleftrightarrow> (\<forall>e\<in>set (fst m). P e)"

text \<open>The calls made while the controller is set up.\<close>

definition init_event :: "event \<Rightarrow> bool" where
  "init_event e =
     (case e of MakeDirs d m \<Rightarrow> True | CopyFile a b \<Rightarrow> True | Hook h \<Rightarrow> True
      | NewBuffer n s c l \<Rightarrow> True | NewReaderGroup k \<Rightarrow> True | NewWriter k \<Rightarrow> True
      | NewObserver k \<Rightarrow> True | _ \<Rightarrow> False)"

text \<open>The example topology without a common configuration file.\<close>

definition yaml_no_common :: setup_yaml where
  "yaml_no_common =
     \<lparr>RingBuffer = Some buffers_example,
      Functions = Some
        [[(''Fkt_main'', fkt_main_example\<lparr>config_file := None\<rparr>)],
         [(''Fkt_1'', fkt_1_example)], [(''Fkt_2'', fkt_2_example)]]\<rparr>"

text \<open>
  The run time of the setup file (\<^verbatim>\<open>runtime = 0 if 'runtime' not in ... else ...\<close>) and
  the run time a common configuration sets in its section \<^verbatim>\<open>general\<close>.
\<close>

definition own_runtime :: "fkt_spec \<Rightarrow> yval" where
  "own_runtime m = (case runtime m of None \<Rightarrow> YInt 0 | Some r \<Rightarrow> r)"

definition file_runtime :: "config_dict option \<Rightarrow> yval option" where
  "file_runtime c =
     (case c of
        None \<Rightarrow> None
      | Some config_dict_common \<Rightarrow>
          (case map_of config_dict_common ''general'' of
             Some (YDict d) \<Rightarrow> map_of d ''runtime''
           | _ \<Rightarrow> None))"

text \<open>A controller over no buffers and no workers whose \<^verbatim>\<open>Fkt_main\<close> sets the run time.\<close>

definition bc_runtime :: "int \<Rightarrow> buffer_control" where
  "bc_runtime r =
     buffer_control_init []
       [[(''Fkt_main'', fkt_main_example\<lparr>config_file := None, runtime := Some (YInt r)\<rparr>)]]
       ''target/out/''"

definition global_no_runtime :: functions_yaml where
  "global_no_runtime = [[(''Fkt_main'', fkt_main_example\<lparr>config_file := None\<rparr>)]]"

text \<open>
  A \<^verbatim>\<open>data_type\<close> value that \<^verbatim>\<open>setup_buffers\<close> refuses: a type name that \<^verbatim>\<open>np.dtype\<close>
  does not accept, a field description with fewer than two entries or with such a
  type name, or a value that is neither a string nor a mapping.
\<close>

definition invalid_dtype :: "env \<Rightarrow> dtype_yaml \<Rightarrow> bool" where
  "invalid_dtype E dt =
     (case dt of
        DTStr s \<Rightarrow> \<not> np_dtype_ok E s
      | DTDict d \<Rightarrow> list_ex (\<lambda>kv. length (snd kv) < 2 \<or> \<not> np_dtype_ok E (snd kv ! 1)) d
      | DTOther \<Rightarrow> True)"

text \<open>
  The example topology with a misspelt role, with a role on a buffer that is not
  defined, and with a type name that is none.
\<close>

definition yaml_unknown_role :: setup_yaml where
  "yaml_unknown_role =
     \<lparr>RingBuffer = Some buffers_example,
      Functions = Some
        [[(''Fkt_main'', fkt_main_example)],
         [(''Fkt_1'', fkt_1_example\<lparr>RB_assign := Some [(''RB_1'', ''writer'')]\<rparr>)],
         [(''Fkt_2'', fkt_2_example)]]\<rparr>"

definition yaml_undefined_buffer :: setup_yaml where
  "yaml_undefined_buffer =
     \<lparr>RingBuffer = Some buffers_example,
      Functions = Some
        [[(''Fkt_main'', fkt_main_example)],
         [(''Fkt_1'', fkt_1_example\<lparr>RB_assign := Some [(''RB_9'', ''write'')]\<rparr>)],
         [(''Fkt_2'', fkt_2_example)]]\<rparr>"

definition yaml_invalid_dtype :: setup_yaml where
  "yaml_invalid_dtype =
     \<lparr>RingBuffer = Some
        [[(''RB_1'', \<lparr>number_of_slots = Some 16, channel_per_slot = Some 1,
                      data_type = Some (DTStr ''floot'')\<rparr>)]],
      Functions = Some functions_example\<rparr>"

text \<open>
  The example topology with a source whose module is not found, with a source whose
  module lacks the callable, and with a source whose module has a syntax error.
\<close>

definition yaml_missing_module :: setup_yaml where
  "yaml_missing_module =
     \<lparr>RingBuffer = Some buffers_example,
      Functions = Some
        [[(''Fkt_main'', fkt_main_example)],
         [(''Fkt_1'', fkt_1_example\<lparr>file_name := Some ''modules/absent''\<rparr>)],
         [(''Fkt_2'', fkt_2_example)]]\<rparr>"

definition yaml_missing_callable :: setup_yaml where
  "yaml_missing_callable =
     \<lparr>RingBuffer = Some buffers_example,
      Functions = Some
        [[(''Fkt_main'', fkt_main_example)],
         [(''Fkt_1'', fkt_1_example\<lparr>fkt_name := Some ''read_sauce''\<rparr>)],
         [(''Fkt_2'', fkt_2_example)]]\<rparr>"

definition yaml_broken_module :: setup_yaml where
  "yaml_broken_module =
     \<lparr>RingBuffer = Some buffers_example,
      Functions = Some
        [[(''Fkt_main'', fkt_main_example)],
         [(''Fkt_1'', fkt_1_example\<lparr>file_name := Some ''modules/broken''\<rparr>)],
         [(''Fkt_2'', fkt_2_example)]]\<rparr>"

text \<open>The exceptions that \<^verbatim>\<open>except ImportError\<close> catches.\<close>

definition is_import_error :: "error \<Rightarrow> bool" where
  "is_import_error e = (case e of ImportError ie \<Rightarrow> True | _ \<Rightarrow> False)"

text \<open>
  The worker definition \<^verbatim>\<open>Fkt_i\<close> of the setup file, and what the definitions ask for:
  for every definition, in the order \<^verbatim>\<open>Fkt_1\<close>, \<^verbatim>\<open>Fkt_2\<close>, ..., one process per replica,
  described by the name of the callable and the buffer assignment.
\<close>

definition worker_def :: "functions_yaml \<Rightarrow> nat \<Rightarrow> fkt_spec" where
  "worker_def fd i = the (map_of (fd ! i) (''Fkt_'' @ str_nat i))"

definition replicas :: "functions_yaml \<Rightarrow> nat \<Rightarrow> (string \<times> (string \<times> string) list) list" where
  "replicas fd i =
     replicate (nat (the (num_process (worker_def fd i))))
       (the (fkt_name (worker_def fd i)), assigned_ringbuffers (worker_def fd i))"

definition declared ::
  "functions_yaml \<Rightarrow> nat \<Rightarrow> (string \<times> (string \<times> string) list) list" where
  "declared fd n = concat (map (replicas fd) [1..<n])"

section \<open>Basic facts about results, traces and loops\<close>

lemma bind_e_simps [simp]:
  "bind_e (Inl e) f = Inl e" "bind_e (Inr a) f = f a"
  by (simp_all add: bind_e_def)

lemma bind_e_Inr_iff:
  "bind_e m f = Inr b \<longleftrightarrow> (\<exists>a. m = Inr a \<and> f a = Inr b)"
  by (cases m) simp_all

lemma bind_e_Inl_iff:
  "bind_e m f = Inl e \<longleftrightarrow> m = Inl e \<or> (\<exists>a. m = Inr a \<and> f a = Inl e)"
  by (cases m) auto

lemma list_get_simps:
  "i < length xs \<Longrightarrow> list_get xs i w = Inr (xs ! i)"
  "\<not> i < length xs \<Longrightarrow> list_get xs i w = Inl (IndexError w)"
  by (simp_all add: list_get_def)

lemma bind_io_simps [simp]:
  "bind_io (t, Inl e) f = (t, Inl e)"
  "bind_io (io_raise e) f = io_raise e"
  "bind_io (io_return a) f = f a"
  "bind_io (io_lift (Inl e)) f = io_raise e"
  "bind_io (io_lift (Inr a)) f = f a"
  by (simp_all add: bind_io_def io_raise_def io_return_def io_lift_def split: prod.split)

lemma bind_io_emit: "bind_io (io_emit evs) f = (evs @ fst (f ()), snd (f ()))"
  by (simp add: bind_io_def io_emit_def split: prod.split)

lemma io_simps [simp]:
  "fst (io_return a) = []" "snd (io_return a) = Inr a"
  "fst (io_raise e) = []" "snd (io_raise e) = Inl e"
  "fst (io_lift r) = []" "snd (io_lift r) = r"
  "fst (io_emit evs) = evs" "snd (io_emit evs) = Inr ()"
  by (simp_all add: io_raise_def io_return_def io_lift_def io_emit_def)

lemma fst_bind_io:
  "fst (bind_io m f) = fst m @ (case snd m of Inl e \<Rightarrow> [] | Inr a \<Rightarrow> fst (f a))"
  by (cases m; cases "snd m") (auto simp: bind_io_def split: prod.split)

lemma snd_bind_io:
  "snd (bind_io m f) = (case snd m of Inl e \<Rightarrow> Inl e | Inr a \<Rightarrow> snd (f a))"
  by (cases m; cases "snd m") (auto simp: bind_io_def split: prod.split)

lemma snd_bind_io_Inr:
  "snd (bind_io m f) = Inr b \<longleftrightarrow> (\<exists>a. snd m = Inr a \<and> snd (f a) = Inr b)"
  by (cases "snd m") (simp_all add: snd_bind_io)

lemma snd_bind_io_Inl:
  "snd m = Inl e \<Longrightarrow> snd (bind_io m f) = Inl e"
  by (simp add: snd_bind_io)

lemma bind_io_ok:
  "snd m = Inr a \<Longrightarrow> bind_io m f = (fst m @ fst (f a), snd (f a))"
  by (cases m) (auto simp: bind_io_def split: prod.split)

lemma set_fst_bind_io:
  assumes "\<forall>e\<in>set (fst m). P e" "\<And>a. snd m = Inr a \<Longrightarrow> \<forall>e\<in>set (fst (f a)). P e"
  shows "\<forall>e\<in>set (fst (bind_io m f)). P e"
  using assms by (cases "snd m") (auto simp: fst_bind_io)

lemma for_each_append:
  "for_each (xs @ ys) body s = bind_io (for_each xs body s) (for_each ys body)"
proof (induction xs arbitrary: s)
  case Nil
  show ?case by simp
next
  case (Cons x xs)
  show ?case
  proof (cases "snd (body x s)")
    case (Inl e)
    then have "body x s = (fst (body x s), Inl e)" by (metis prod.collapse)
    then show ?thesis by (metis append_Cons bind_io_simps(1) for_each.simps(2))
  next
    case (Inr s1)
    then show ?thesis
      by (simp add: bind_io_ok Cons.IH fst_bind_io snd_bind_io split: sum.split)
  qed
qed

lemma for_each_inv:
  assumes "snd (for_each ixs body s) = Inr s'" and "I s"
    and "\<And>i s s'. i \<in> set ixs \<Longrightarrow> I s \<Longrightarrow> snd (body i s) = Inr s' \<Longrightarrow> I s'"
  shows "I s'"
  using assms
proof (induction ixs arbitrary: s)
  case Nil
  then show ?case by simp
next
  case (Cons i ixs)
  from Cons.prems(1) obtain s1 where b: "snd (body i s) = Inr s1"
    and r: "snd (for_each ixs body s1) = Inr s'"
    by (auto simp: snd_bind_io_Inr)
  have s1: "I s1" using Cons.prems(3)[of i s s1] Cons.prems(2) b by simp
  show ?case
    by (rule Cons.IH[OF r s1]) (use Cons.prems(3) in auto)
qed

lemma for_each_member:
  assumes "snd (for_each ixs body s) = Inr s'" and "I s"
    and "\<And>i s s'. i \<in> set ixs \<Longrightarrow> I s \<Longrightarrow> snd (body i s) = Inr s' \<Longrightarrow> I s'"
    and "i \<in> set ixs"
  shows "\<exists>si si'. I si \<and> snd (body i si) = Inr si'"
  using assms
proof (induction ixs arbitrary: s)
  case Nil
  then show ?case by simp
next
  case (Cons j ixs)
  from Cons.prems(1) obtain s1 where b: "snd (body j s) = Inr s1"
    and r: "snd (for_each ixs body s1) = Inr s'"
    by (auto simp: snd_bind_io_Inr)
  show ?case
  proof (cases "i = j")
    case True
    with b Cons.prems(2) show ?thesis by blast
  next
    case False
    with Cons.prems(4) have m: "i \<in> set ixs" by simp
    have s1: "I s1" using Cons.prems(3)[of j s s1] Cons.prems(2) b by simp
    show ?thesis
      by (rule Cons.IH[OF r s1 _ m]) (use Cons.prems(3) in auto)
  qed
qed

lemma for_each_events:
  assumes "\<And>i s. i \<in> set ixs \<Longrightarrow> \<forall>e\<in>set (fst (body i s)). P e"
  shows "\<forall>e\<in>set (fst (for_each ixs body s)). P e"
  using assms
proof (induction ixs arbitrary: s)
  case Nil
  show ?case by simp
next
  case (Cons i ixs)
  have 1: "\<forall>e\<in>set (fst (body i s)). P e"
    using Cons.prems[of i s] by simp
  have 2: "\<forall>e\<in>set (fst (for_each ixs body s1)). P e" for s1
  proof (rule Cons.IH)
    fix j s2 assume "j \<in> set ixs"
    then show "\<forall>e\<in>set (fst (body j s2)). P e" using Cons.prems[of j s2] by simp
  qed
  show ?case
    unfolding for_each.simps
    by (rule set_fst_bind_io) (use 1 2 in blast)+
qed

lemma digit_char_inj:
  "m < 10 \<Longrightarrow> n < 10 \<Longrightarrow> digit_char m = digit_char n \<Longrightarrow> m = n"
  unfolding digit_char_def
  by (auto simp: less_Suc_eq numeral_eq_Suc nth_Cons')

lemma str_nat_not_Nil: "str_nat n \<noteq> []"
  by (subst str_nat.simps) simp

lemma str_nat_length:
  "length (str_nat n) = 1 \<longleftrightarrow> n < 10"
proof (cases "n < 10")
  case True
  then show ?thesis by (subst str_nat.simps) simp
next
  case False
  then have "str_nat n = str_nat (n div 10) @ [digit_char (n mod 10)]"
    by (subst str_nat.simps) simp
  with False str_nat_not_Nil[of "n div 10"] show ?thesis by simp
qed

lemma str_nat_inj: "str_nat m = str_nat n \<Longrightarrow> m = n"
proof (induction m arbitrary: n rule: str_nat.induct)
  case (1 m)
  from "1.prems" have same: "m < 10 \<longleftrightarrow> n < 10"
    using str_nat_length[of m] str_nat_length[of n] by simp
  show ?case
  proof (cases "m < 10")
    case True
    then have m: "str_nat m = [digit_char m]" by (subst str_nat.simps) simp
    from True same have n: "n < 10" by simp
    then have "str_nat n = [digit_char n]" by (subst str_nat.simps) simp
    with m "1.prems" True n show ?thesis by (auto dest: digit_char_inj)
  next
    case False
    then have m: "str_nat m = str_nat (m div 10) @ [digit_char (m mod 10)]"
      by (subst str_nat.simps) simp
    from False same have "\<not> n < 10" by simp
    then have "str_nat n = str_nat (n div 10) @ [digit_char (n mod 10)]"
      by (subst str_nat.simps) simp
    with m "1.prems" have a: "str_nat (m div 10) = str_nat (n div 10)"
      and b: "digit_char (m mod 10) = digit_char (n mod 10)" by simp_all
    from "1.IH"[OF False a] have "m div 10 = n div 10" .
    moreover from b have "m mod 10 = n mod 10" by (intro digit_char_inj) simp_all
    ultimately show ?thesis by (metis div_mult_mod_eq)
  qed
qed

section \<open>The histogram update stays inside the frequency arrays\<close>

lemma np_incr_in_range:
  "0 \<le> iv \<Longrightarrow> iv < int (length a) \<Longrightarrow> np_incr a iv = Inr (a[nat iv := a ! nat iv + 1])"
  by (simp add: np_incr_def Let_def)

lemma hist_inv_frq_length:
  "hist_inv H \<Longrightarrow> ih < nHist H \<Longrightarrow> int (length (frqs H ! ih)) = nbins H ! ih"
  by (simp add: hist_inv_def list_all2_conv_all_nth)

lemma hist_inv_frqs_update:
  assumes "hist_inv H" "length f = length (frqs H ! ih)" "ih < nHist H"
  shows "hist_inv (H\<lparr>frqs := (frqs H)[ih := f]\<rparr>)"
  using assms by (auto simp: hist_inv_def list_all2_conv_all_nth nth_list_update)

lemma fill_post_skip:
  assumes "fill_post H ih vs H'"
    and "\<And>k. k < length (frqs H ! ih) \<Longrightarrow>
          bin_index (nbins H ! ih) (mins H ! ih) (maxs H ! ih) v \<noteq> Inr (int k)"
  shows "fill_post H ih (v # vs) H'"
  using assms unfolding fill_post_def by simp

lemma fill_post_hit:
  assumes p: "fill_post (H\<lparr>frqs := (frqs H)[ih := (frqs H ! ih)[m := frqs H ! ih ! m + 1]]\<rparr>) ih vs H'"
    and ih: "ih < length (frqs H)"
    and m: "m < length (frqs H ! ih)"
    and cnt: "\<And>k. k < length (frqs H ! ih) \<Longrightarrow>
          (bin_index (nbins H ! ih) (mins H ! ih) (maxs H ! ih) v = Inr (int k)) = (m = k)"
  shows "fill_post H ih (v # vs) H'"
proof -
  let ?f = "(frqs H ! ih)[m := frqs H ! ih ! m + 1]"
  let ?H1 = "H\<lparr>frqs := (frqs H)[ih := ?f]\<rparr>"
  have f1: "frqs ?H1 ! ih = ?f" using ih by simp
  have o: "\<And>j. j \<noteq> ih \<Longrightarrow> frqs ?H1 ! j = frqs H ! j" by simp
  have sel: "nbins ?H1 = nbins H" "mins ?H1 = mins H" "maxs ?H1 = maxs H"
    "entries ?H1 = entries H" "nHist ?H1 = nHist H" by simp_all
  from p have a: "hist_inv H'" "nHist H' = nHist H" "entries H' = entries H"
    "mins H' = mins H" "maxs H' = maxs H" "nbins H' = nbins H"
    unfolding fill_post_def sel by blast+
  from p have b: "\<And>j. j \<noteq> ih \<Longrightarrow> frqs H' ! j = frqs H ! j"
    unfolding fill_post_def using o by metis
  from p have c: "length (frqs H' ! ih) = length (frqs H ! ih)"
    unfolding fill_post_def f1 by simp
  from p have d: "\<And>k. k < length (frqs H ! ih) \<Longrightarrow> frqs H' ! ih ! k = ?f ! k +
        real (length (filter (\<lambda>v. bin_index (nbins H ! ih) (mins H ! ih) (maxs H ! ih) v = Inr (int k)) vs))"
    unfolding fill_post_def f1 sel by simp
  have e: "frqs H' ! ih ! k = frqs H ! ih ! k +
        real (length (filter (\<lambda>v. bin_index (nbins H ! ih) (mins H ! ih) (maxs H ! ih) v = Inr (int k)) (v # vs)))"
    if k: "k < length (frqs H ! ih)" for k
  proof (cases "m = k")
    case True
    then show ?thesis using d[OF k] cnt[OF k] k by simp
  next
    case False
    then show ?thesis using d[OF k] cnt[OF k] k by simp
  qed
  show ?thesis
    unfolding fill_post_def using a b c e by blast
qed

lemma hist_fill_ok:
  assumes "hist_inv H" "ih < nHist H"
  shows "hist_fill H ih vs \<noteq> Inl (IndexError ''frqs'') \<and>
         (\<forall>H'. hist_fill H ih vs = Inr H' \<longrightarrow> fill_post H ih vs H')"
  using assms
proof (induction vs arbitrary: H)
  case Nil
  then show ?case by (simp add: fill_post_def)
next
  case (Cons v vs)
  let ?nb = "nbins H ! ih" and ?mn = "mins H ! ih" and ?mx = "maxs H ! ih"
  from Cons.prems have len: "ih < length (nbins H)" "ih < length (mins H)"
    "ih < length (maxs H)" "ih < length (frqs H)"
    by (simp_all add: hist_inv_def)
  have flen: "int (length (frqs H ! ih)) = ?nb"
    using Cons.prems by (rule hist_inv_frq_length)
  show ?case
  proof (cases "bin_index ?nb ?mn ?mx v")
    case (Inl e)
    then have "e = ZeroDivisionError"
      by (auto simp: bin_index_def split: if_splits)
    with Inl len show ?thesis
      by (simp add: list_get_simps)
  next
    case (Inr iv)
    show ?thesis
    proof (cases "0 \<le> iv \<and> iv < ?nb")
      case False
      with Inr len have eq: "hist_fill H ih (v # vs) = hist_fill H ih vs"
        by (auto simp: list_get_simps)
      have cnt: "bin_index ?nb ?mn ?mx v \<noteq> Inr (int k)"
        if "k < length (frqs H ! ih)" for k
        using False Inr flen that by auto
      from Cons.IH[OF Cons.prems] show ?thesis
        unfolding eq using fill_post_skip[OF _ cnt] by blast
    next
      case True
      let ?f = "(frqs H ! ih)[nat iv := frqs H ! ih ! nat iv + 1]"
      let ?H1 = "H\<lparr>frqs := (frqs H)[ih := ?f]\<rparr>"
      from True flen have "np_incr (frqs H ! ih) iv = Inr ?f"
        by (simp add: np_incr_in_range)
      with True Inr len have eq: "hist_fill H ih (v # vs) = hist_fill ?H1 ih vs"
        by (simp add: list_get_simps)
      have inv1: "hist_inv ?H1"
        using Cons.prems by (intro hist_inv_frqs_update) simp_all
      have n1: "ih < nHist ?H1" using Cons.prems by simp
      note IH = Cons.IH[OF inv1 n1]
      have m: "nat iv < length (frqs H ! ih)" using True flen by linarith
      have cnt: "(bin_index ?nb ?mn ?mx v = Inr (int k)) = (nat iv = k)"
        if "k < length (frqs H ! ih)" for k
        using Inr True by auto
      show ?thesis
        unfolding eq using IH fill_post_hit[OF _ len(4) m cnt] by blast
    qed
  qed
qed


lemma hist_inv_entries_update:
  "hist_inv H \<Longrightarrow> hist_inv (H\<lparr>entries := (entries H)[ih := x]\<rparr>)"
  by (simp add: hist_inv_def)

lemma hist_step_ok:
  assumes inv: "hist_inv H" and ih: "ih < nHist H"
  shows "hist_step vals ih H \<noteq> Inl (IndexError ''frqs'') \<and>
         (\<forall>H'. hist_step vals ih H = Inr H' \<longrightarrow> step_post vals H ih H')"
proof (cases "ih < length vals")
  case False
  then show ?thesis by (simp add: hist_step_def list_get_simps)
next
  case True
  let ?vs = "vals ! ih"
  let ?H1 = "H\<lparr>entries := (entries H)[ih := entries H ! ih + real (length ?vs)]\<rparr>"
  from inv ih have le: "ih < length (entries H)" by (simp add: hist_inv_def)
  have eq: "hist_step vals ih H = hist_fill ?H1 ih ?vs"
    using True le by (simp add: hist_step_def list_get_simps)
  have inv1: "hist_inv ?H1" using inv by (rule hist_inv_entries_update)
  have n1: "ih < nHist ?H1" using ih by simp
  note F = hist_fill_ok[OF inv1 n1, of ?vs]
  have "step_post vals H ih H'" if "fill_post ?H1 ih ?vs H'" for H'
    using that le unfolding fill_post_def step_post_def
    by (simp add: nth_list_update)
  with F show ?thesis unfolding eq by blast
qed

lemma loop_post_Cons:
  assumes s: "step_post vals H ih H1" and l: "loop_post vals H1 ihs H'" and d: "ih \<notin> set ihs"
  shows "loop_post vals H (ih # ihs) H'"
proof -
  from s have s1: "nHist H1 = nHist H" "mins H1 = mins H" "maxs H1 = maxs H" "nbins H1 = nbins H"
    and s2: "\<And>j. j \<noteq> ih \<Longrightarrow> frqs H1 ! j = frqs H ! j \<and> entries H1 ! j = entries H ! j"
    and s3: "entries H1 ! ih = entries H ! ih + real (length (vals ! ih))"
      "length (frqs H1 ! ih) = length (frqs H ! ih)"
    and s4: "\<And>k. k < length (frqs H ! ih) \<Longrightarrow> frqs H1 ! ih ! k = frqs H ! ih ! k +
        real (length (filter (\<lambda>v. bin_index (nbins H ! ih) (mins H ! ih) (maxs H ! ih) v = Inr (int k))
           (vals ! ih)))"
    unfolding step_post_def by blast+
  from l have l1: "hist_inv H'" "nHist H' = nHist H1" "mins H' = mins H1" "maxs H' = maxs H1"
      "nbins H' = nbins H1"
    and l2: "\<And>j. j \<notin> set ihs \<Longrightarrow> frqs H' ! j = frqs H1 ! j \<and> entries H' ! j = entries H1 ! j"
    and l3: "\<And>i. i \<in> set ihs \<Longrightarrow>
        entries H' ! i = entries H1 ! i + real (length (vals ! i)) \<and>
        length (frqs H' ! i) = length (frqs H1 ! i) \<and>
        (\<forall>k<length (frqs H1 ! i). frqs H' ! i ! k = frqs H1 ! i ! k +
           real (length (filter (\<lambda>v. bin_index (nbins H1 ! i) (mins H1 ! i) (maxs H1 ! i) v = Inr (int k))
              (vals ! i))))"
    unfolding loop_post_def by blast+
  have a: "frqs H' ! j = frqs H ! j \<and> entries H' ! j = entries H ! j" if "j \<notin> set (ih # ihs)" for j
    using that l2[of j] s2[of j] by simp
  have b: "entries H' ! i = entries H ! i + real (length (vals ! i)) \<and>
        length (frqs H' ! i) = length (frqs H ! i) \<and>
        (\<forall>k<length (frqs H ! i). frqs H' ! i ! k = frqs H ! i ! k +
           real (length (filter (\<lambda>v. bin_index (nbins H ! i) (mins H ! i) (maxs H ! i) v = Inr (int k))
              (vals ! i))))" if i: "i \<in> set (ih # ihs)" for i
  proof (cases "i = ih")
    case True
    with d have "i \<notin> set ihs" by simp
    from l2[OF this] True s3 s4 show ?thesis by simp
  next
    case False
    with i have "i \<in> set ihs" by simp
    from l3[OF this] s2[OF False] show ?thesis unfolding s1 by simp
  qed
  show ?thesis
    unfolding loop_post_def using l1 s1 a b by (intro conjI ballI allI impI) simp_all
qed

lemma hist_loop_ok:
  assumes "hist_inv H" "\<forall>ih\<in>set ihs. ih < nHist H" "distinct ihs"
  shows "hist_loop vals ihs H \<noteq> Inl (IndexError ''frqs'') \<and>
         (\<forall>H'. hist_loop vals ihs H = Inr H' \<longrightarrow> loop_post vals H ihs H')"
  using assms
proof (induction ihs arbitrary: H)
  case Nil
  then show ?case by (simp add: loop_post_def)
next
  case (Cons ih ihs)
  from Cons.prems have ih: "ih < nHist H" by simp
  note S = hist_step_ok[OF Cons.prems(1) ih, of vals]
  show ?case
  proof (cases "hist_step vals ih H")
    case (Inl e)
    with S show ?thesis by simp
  next
    case (Inr H1)
    with S have sp: "step_post vals H ih H1" by simp
    then have inv1: "hist_inv H1" and n: "nHist H1 = nHist H"
      unfolding step_post_def by blast+
    from Cons.prems n have b: "\<forall>i\<in>set ihs. i < nHist H1" by simp
    from Cons.prems have d: "distinct ihs" "ih \<notin> set ihs" by simp_all
    note IH = Cons.IH[OF inv1 b d(1)]
    have eq: "hist_loop vals (ih # ihs) H = hist_loop vals ihs H1"
      using Inr by simp
    show ?thesis
      unfolding eq using IH loop_post_Cons[OF sp _ d(2)] by blast
  qed
qed

lemma animHists_init_inv:
  assumes "animHists_init Hdescr = Inr H"
  shows "hist_inv H"
proof -
  have nb: "check_descr ds = Inr () \<Longrightarrow> \<forall>d\<in>set ds. 1 \<le> h_nbins d" for ds
    by (induction ds) (auto split: if_splits)
  from assms have c: "check_descr Hdescr = Inr ()" and
    H: "H = \<lparr> nHist = length Hdescr, entries = replicate (length Hdescr) 0,
             frqs = map init_frq Hdescr, mins = map h_min Hdescr, maxs = map h_max Hdescr,
             nbins = map h_nbins Hdescr, ymxs = map h_ymax Hdescr, names = map h_name Hdescr,
             types = map h_type Hdescr \<rparr>"
    by (auto simp: animHists_init_def bind_e_Inr_iff)
  have "int (length (init_frq d)) = h_nbins d" if "1 \<le> h_nbins d" for d
    using that by (simp add: init_frq_def)
  with nb[OF c] show ?thesis
    unfolding H hist_inv_def by (simp add: list_all2_conv_all_nth)
qed

lemma animHists_init_example:
  "animHists_init
     [\<lparr>h_min = 0, h_max = 10, h_nbins = 4, h_ymax = 1, h_name = ''x'', h_type = 0\<rparr>] =
   Inr hist_example"
  by (simp add: animHists_init_def hist_example_def init_frq_def numeral_eq_Suc)

text \<open>
  Claim C10.  For every \<^verbatim>\<open>animHists\<close> object as \<^verbatim>\<open>__init__\<close> builds it (and as
  \<^verbatim>\<open>__call__\<close> leaves it, \<open>hist_inv\<close>) and every list of value arrays, \<^verbatim>\<open>__call__\<close>
  never indexes a frequency array out of bounds: the update \<^verbatim>\<open>frqs[ih][iv] += 1\<close> is
  reached only with \<open>0 \<le> iv < nbins[ih]\<close>.  When the call returns, \<open>entries[ih]\<close> has grown
  by the number of values given for histogram \<open>ih\<close>, and bin \<open>k\<close> has grown by the number
  of those values whose index is exactly \<open>k\<close>; so a value whose index lies outside
  \<open>[0, nbins)\<close> is counted in \<open>entries\<close> and changes no bin.
\<close>

theorem animHists_call_in_bounds:
  assumes "hist_inv H"
  shows "animHists_call H (Some vals) \<noteq> Inl (IndexError ''frqs'') \<and>
     (\<forall>H'. animHists_call H (Some vals) = Inr H' \<longrightarrow>
        hist_inv H' \<and>
        (\<forall>ih<nHist H.
           entries H' ! ih = entries H ! ih + real (length (vals ! ih)) \<and>
           length (frqs H' ! ih) = length (frqs H ! ih) \<and>
           (\<forall>k<length (frqs H ! ih). frqs H' ! ih ! k = frqs H ! ih ! k +
              real (length (filter
                (\<lambda>v. bin_index (nbins H ! ih) (mins H ! ih) (maxs H ! ih) v = Inr (int k))
                (vals ! ih))))))"
proof -
  have eq: "animHists_call H (Some vals) = hist_loop vals [0..<nHist H] H"
    by (simp add: animHists_call_def)
  have L: "hist_loop vals [0..<nHist H] H \<noteq> Inl (IndexError ''frqs'') \<and>
         (\<forall>H'. hist_loop vals [0..<nHist H] H = Inr H' \<longrightarrow> loop_post vals H [0..<nHist H] H')"
    using assms by (intro hist_loop_ok) simp_all
  have mem: "ih \<in> set [0..<nHist H]" if "ih < nHist H" for ih
    using that by simp
  have A: "hist_loop vals [0..<nHist H] H \<noteq> Inl (IndexError ''frqs'')"
    using L by blast
  have B: "hist_inv H' \<and>
        (\<forall>ih<nHist H.
           entries H' ! ih = entries H ! ih + real (length (vals ! ih)) \<and>
           length (frqs H' ! ih) = length (frqs H ! ih) \<and>
           (\<forall>k<length (frqs H ! ih). frqs H' ! ih ! k = frqs H ! ih ! k +
              real (length (filter
                (\<lambda>v. bin_index (nbins H ! ih) (mins H ! ih) (maxs H ! ih) v = Inr (int k))
                (vals ! ih)))))"
    if "hist_loop vals [0..<nHist H] H = Inr H'" for H'
  proof -
    from that L have "loop_post vals H [0..<nHist H] H'" by blast
    then show ?thesis unfolding loop_post_def using mem by blast
  qed
  show ?thesis
    unfolding eq using A B by blast
qed

theorem animHists_call_in_bounds_witness:
  "hist_inv hist_example \<and>
   animHists_call hist_example (Some [[1/2, -3, 12, 10]]) =
     Inr (hist_example\<lparr>entries := [4], frqs := [[1, 0, 0, 0]]\<rparr>) \<and>
   animHists_call hist_example (Some [[1/2, -3, 12, 10]]) \<noteq> Inl (IndexError ''frqs'')"
proof -
  have inv: "hist_inv hist_example"
    by (simp add: hist_example_def hist_inv_def)
  have ev: "animHists_call hist_example (Some [[1/2, -3, 12, 10]]) =
     Inr (hist_example\<lparr>entries := [4], frqs := [[1, 0, 0, 0]]\<rparr>)"
    by (simp add: animHists_call_def hist_step_def list_get_def hist_example_def
        bin_index_def py_int_def np_incr_def)
  from animHists_call_in_bounds[OF inv, of "[[1/2, -3, 12, 10]]"] inv ev
  show ?thesis by blast
qed

section \<open>Endpoint allocation\<close>

lemma frame_refl: "frame bc bc"
  unfolding frame_def by (rule exI[of _ "ringbuffers bc"]) simp

lemma frame_trans: "frame a b \<Longrightarrow> frame b c \<Longrightarrow> frame a c"
  unfolding frame_def by auto

lemma frame_fields:
  assumes "frame bc bc'"
  shows "process_list bc' = process_list bc" "functions_dict bc' = functions_dict bc"
    "out_dir bc' = out_dir bc" "workers_started bc' = workers_started bc"
    "workers_setup bc' = workers_setup bc" "self_runtime bc' = self_runtime bc"
    "number_of_functions bc' = number_of_functions bc" "buffers_dict bc' = buffers_dict bc"
    "number_of_ringbuffers bc' = number_of_ringbuffers bc"
    "map_option (map fst) (ringbuffers bc') = map_option (map fst) (ringbuffers bc)"
  using assms unfolding frame_def by auto

lemma map_fst_dict_set:
  "k \<in> fst ` set d \<Longrightarrow> map fst (dict_set k v d) = map fst d"
  by (induction d) auto

lemma dict_set_new:
  "k \<notin> fst ` set d \<Longrightarrow> dict_set k v d = d @ [(k, v)]"
  by (induction d) auto

lemma bind_io_pair:
  "bind_io (t, Inr a) f = (t @ fst (f a), snd (f a))"
  by (simp add: bind_io_def split: prod.split)

lemma attr_get_simps [simp]:
  "attr_get None k = Inl (AttributeError k)" "attr_get (Some v) k = Inr v"
  by (simp_all add: attr_get_def)

lemma key_get_simps [simp]:
  "key_get None k = Inl (KeyError k)" "key_get (Some v) k = Inr v"
  by (simp_all add: key_get_def)

lemma dict_get_simps:
  "map_of d k = None \<Longrightarrow> dict_get d k = Inl (KeyError k)"
  "map_of d k = Some v \<Longrightarrow> dict_get d k = Inr v"
  by (simp_all add: dict_get_def)

lemma get_ringbuffer_trace [simp]: "fst (get_ringbuffer bc key) = []"
  by (cases "ringbuffers bc") (simp_all add: get_ringbuffer_def)

lemma get_ringbuffer_Inr:
  "snd (get_ringbuffer bc key) = Inr rb \<longleftrightarrow>
     (\<exists>rbs. ringbuffers bc = Some rbs \<and> map_of rbs key = Some rb)"
  by (cases "ringbuffers bc")
     (auto simp: get_ringbuffer_def dict_get_def split: option.splits)

lemma get_ringbuffer_cases:
  obtains (err) e where "get_ringbuffer bc key = ([], Inl e)"
      "\<forall>rbs. ringbuffers bc = Some rbs \<longrightarrow> key \<notin> fst ` set rbs"
    | (ok) rbs rb where "get_ringbuffer bc key = ([], Inr rb)" "ringbuffers bc = Some rbs"
      "map_of rbs key = Some rb" "key \<in> fst ` set rbs"
proof (cases "snd (get_ringbuffer bc key)")
  case (Inl e)
  then have 1: "get_ringbuffer bc key = ([], Inl e)"
    by (metis get_ringbuffer_trace prod.collapse)
  have "key \<notin> fst ` set rbs" if "ringbuffers bc = Some rbs" for rbs
  proof
    assume "key \<in> fst ` set rbs"
    then obtain rb where "map_of rbs key = Some rb"
      by (metis domD domI dom_map_of_conv_image_fst)
    with that have "snd (get_ringbuffer bc key) = Inr rb" by (auto simp: get_ringbuffer_Inr)
    with Inl show False by simp
  qed
  with 1 show ?thesis by (intro err) auto
next
  case (Inr rb)
  then have 1: "get_ringbuffer bc key = ([], Inr rb)"
    by (metis get_ringbuffer_trace prod.collapse)
  from Inr obtain rbs where 2: "ringbuffers bc = Some rbs" "map_of rbs key = Some rb"
    by (auto simp: get_ringbuffer_Inr)
  then have "key \<in> fst ` set rbs" by (metis domI dom_map_of_conv_image_fst)
  with 1 2 show ?thesis by (intro ok)
qed

lemma frame_put:
  assumes "ringbuffers bc = Some rbs" "key \<in> fst ` set rbs"
  shows "frame bc (put_ringbuffer bc key rb)"
  unfolding frame_def put_ringbuffer_def
  using assms by (intro exI[of _ "Some (dict_set key rb rbs)"]) (simp add: map_fst_dict_set)

lemma frame_buffer_names: "frame bc bc' \<Longrightarrow> buffer_names bc' = buffer_names bc"
  unfolding frame_def buffer_names_def by (auto split: option.splits)

lemma new_reader_group_spec: "alloc_spec (NewReaderGroup key) bc key (new_reader_group bc key)"
  by (rule get_ringbuffer_cases[of bc key])
     (auto simp: alloc_spec_def new_reader_group_def bind_io_emit bind_io_pair frame_put buffer_names_def)

lemma new_writer_spec: "alloc_spec (NewWriter key) bc key (new_writer bc key)"
  by (rule get_ringbuffer_cases[of bc key])
     (auto simp: alloc_spec_def new_writer_def bind_io_emit bind_io_pair frame_put buffer_names_def)

lemma new_observer_spec: "alloc_spec (NewObserver key) bc key (new_observer bc key)"
  by (rule get_ringbuffer_cases[of bc key])
     (auto simp: alloc_spec_def new_observer_def bind_io_emit bind_io_pair frame_put buffer_names_def)

lemma alloc_specE:
  assumes "alloc_spec ev bc key m"
  obtains (err) e where "m = ([], Inl e)" "key \<notin> set (buffer_names bc)"
    | (ok) bc' h where "m = ([ev], Inr (bc', h))" "frame bc bc'" "key \<in> set (buffer_names bc)"
proof (cases "snd m")
  case (Inl e)
  with assms have "fst m = []" "key \<notin> set (buffer_names bc)"
    by (simp_all add: alloc_spec_def)
  with Inl show ?thesis by (intro err[of e]) (auto simp: prod_eq_iff)
next
  case (Inr p)
  obtain bc' h where p: "p = (bc', h)" by (cases p)
  with Inr assms have "fst m = [ev]" "frame bc bc'" "key \<in> set (buffer_names bc)"
    by (simp_all add: alloc_spec_def)
  with Inr p show ?thesis by (intro ok[of bc' h]) (auto simp: prod_eq_iff)
qed

lemma assign_post_Nil: "assign_post [] st [] st"
  by (simp add: assign_post_def frame_refl)

lemma assign_post_skip:
  assumes "assign_post rest st t st'" "val \<noteq> ''read''" "val \<noteq> ''write''" "val \<noteq> ''observe''"
  shows "assign_post ((key, val) # rest) st t st'"
  using assms unfolding assign_post_def by simp

lemma assign_post_read:
  assumes "assign_post rest (bc1, src @ [h], snk, obs) t st'" "frame bc bc1"
  shows "assign_post ((key, ''read'') # rest) (bc, src, snk, obs) (NewReaderGroup key # t) st'"
proof -
  from assms(1) obtain rs ws os where
    f: "frame bc1 (fst st')" and
    e: "snd st' = ((src @ [h]) @ rs, snk @ ws, obs @ os)"
      "length rs = length (filter (\<lambda>kv. snd kv = ''read'') rest)"
      "length ws = length (filter (\<lambda>kv. snd kv = ''write'') rest)"
      "length os = length (filter (\<lambda>kv. snd kv = ''observe'') rest)" and
    c: "\<And>k. length (filter (\<lambda>e. e = NewReaderGroup k) t) =
            length (filter (\<lambda>kv. kv = (k, ''read'')) rest)"
    unfolding assign_post_def by auto
  have 1: "frame bc (fst st')" using assms(2) f by (rule frame_trans)
  have 2: "snd st' = (src @ (h # rs), snk @ ws, obs @ os)" using e(1) by simp
  have 3: "length (h # rs) = length (filter (\<lambda>kv. snd kv = ''read'') ((key, ''read'') # rest))"
    using e(2) by simp
  have 4: "length (filter (\<lambda>e. e = NewReaderGroup k) (NewReaderGroup key # t)) =
            length (filter (\<lambda>kv. kv = (k, ''read'')) ((key, ''read'') # rest))" for k
    using c[of k] by auto
  show ?thesis
    unfolding assign_post_def fst_conv snd_conv
    using 1 2 3 4 e(3,4) by (intro conjI exI[of _ "h # rs"] exI[of _ ws] exI[of _ os] allI) simp_all
qed

lemma assign_post_write:
  assumes "assign_post rest (bc1, src, snk @ [h], obs) t st'" "frame bc bc1"
  shows "assign_post ((key, ''write'') # rest) (bc, src, snk, obs) (NewWriter key # t) st'"
proof -
  from assms(1) obtain rs ws os where
    f: "frame bc1 (fst st')" and
    e: "snd st' = (src @ rs, (snk @ [h]) @ ws, obs @ os)"
      "length rs = length (filter (\<lambda>kv. snd kv = ''read'') rest)"
      "length ws = length (filter (\<lambda>kv. snd kv = ''write'') rest)"
      "length os = length (filter (\<lambda>kv. snd kv = ''observe'') rest)" and
    c: "\<And>k. length (filter (\<lambda>e. e = NewReaderGroup k) t) =
            length (filter (\<lambda>kv. kv = (k, ''read'')) rest)"
    unfolding assign_post_def by auto
  have 1: "frame bc (fst st')" using assms(2) f by (rule frame_trans)
  have 2: "snd st' = (src @ rs, snk @ (h # ws), obs @ os)" using e(1) by simp
  have 3: "length (h # ws) = length (filter (\<lambda>kv. snd kv = ''write'') ((key, ''write'') # rest))"
    using e(3) by simp
  have 4: "length (filter (\<lambda>e. e = NewReaderGroup k) (NewWriter key # t)) =
            length (filter (\<lambda>kv. kv = (k, ''read'')) ((key, ''write'') # rest))" for k
    using c[of k] by auto
  show ?thesis
    unfolding assign_post_def fst_conv snd_conv
    using 1 2 3 4 e(2,4) by (intro conjI exI[of _ rs] exI[of _ "h # ws"] exI[of _ os] allI) simp_all
qed

lemma assign_post_observe:
  assumes "assign_post rest (bc1, src, snk, obs @ [h]) t st'" "frame bc bc1"
  shows "assign_post ((key, ''observe'') # rest) (bc, src, snk, obs) (NewObserver key # t) st'"
proof -
  from assms(1) obtain rs ws os where
    f: "frame bc1 (fst st')" and
    e: "snd st' = (src @ rs, snk @ ws, (obs @ [h]) @ os)"
      "length rs = length (filter (\<lambda>kv. snd kv = ''read'') rest)"
      "length ws = length (filter (\<lambda>kv. snd kv = ''write'') rest)"
      "length os = length (filter (\<lambda>kv. snd kv = ''observe'') rest)" and
    c: "\<And>k. length (filter (\<lambda>e. e = NewReaderGroup k) t) =
            length (filter (\<lambda>kv. kv = (k, ''read'')) rest)"
    unfolding assign_post_def by auto
  have 1: "frame bc (fst st')" using assms(2) f by (rule frame_trans)
  have 2: "snd st' = (src @ rs, snk @ ws, obs @ (h # os))" using e(1) by simp
  have 3: "length (h # os) = length (filter (\<lambda>kv. snd kv = ''observe'') ((key, ''observe'') # rest))"
    using e(4) by simp
  have 4: "length (filter (\<lambda>e. e = NewReaderGroup k) (NewObserver key # t)) =
            length (filter (\<lambda>kv. kv = (k, ''read'')) ((key, ''observe'') # rest))" for k
    using c[of k] by auto
  show ?thesis
    unfolding assign_post_def fst_conv snd_conv
    using 1 2 3 4 e(2,3) by (intro conjI exI[of _ rs] exI[of _ ws] exI[of _ "h # os"] allI) simp_all
qed

text \<open>The loop either fails or has the effect \<open>assign_post\<close>; its calls are allocations.\<close>

lemma assign_endpoints_spec:
  "(\<forall>e\<in>set (fst (assign_endpoints a (bc, src, snk, obs))). is_alloc e) \<and>
   (\<forall>st'. snd (assign_endpoints a (bc, src, snk, obs)) = Inr st' \<longrightarrow>
      assign_post a (bc, src, snk, obs) (fst (assign_endpoints a (bc, src, snk, obs))) st')"
proof (induction a arbitrary: bc src snk obs)
  case Nil
  show ?case by (simp add: assign_post_Nil)
next
  case (Cons kv rest)
  obtain key val where kv: "kv = (key, val)" by (cases kv)
  consider (r) "val = ''read''" | (w) "val = ''write''" | (o) "val = ''observe''"
    | (n) "val \<noteq> ''read''" "val \<noteq> ''write''" "val \<noteq> ''observe''" by blast
  then show ?case
  proof cases
    case r
    show ?thesis
    proof (rule alloc_specE[OF new_reader_group_spec[of key bc]])
      fix e assume "new_reader_group bc key = ([], Inl e)"
      then show ?thesis unfolding kv r by simp
    next
      fix bc1 h assume m: "new_reader_group bc key = ([NewReaderGroup key], Inr (bc1, h))"
        and f: "frame bc bc1"
      have eq: "assign_endpoints ((key, ''read'') # rest) (bc, src, snk, obs) =
          (NewReaderGroup key # fst (assign_endpoints rest (bc1, src @ [h], snk, obs)),
           snd (assign_endpoints rest (bc1, src @ [h], snk, obs)))"
        by (simp add: m bind_io_pair)
      from Cons.IH[of bc1 "src @ [h]" snk obs] f show ?thesis
        unfolding kv r eq by (auto simp: is_alloc_def intro: assign_post_read)
    qed
  next
    case w
    show ?thesis
    proof (rule alloc_specE[OF new_writer_spec[of key bc]])
      fix e assume "new_writer bc key = ([], Inl e)"
      then show ?thesis unfolding kv w by simp
    next
      fix bc1 h assume m: "new_writer bc key = ([NewWriter key], Inr (bc1, h))"
        and f: "frame bc bc1"
      have eq: "assign_endpoints ((key, ''write'') # rest) (bc, src, snk, obs) =
          (NewWriter key # fst (assign_endpoints rest (bc1, src, snk @ [h], obs)),
           snd (assign_endpoints rest (bc1, src, snk @ [h], obs)))"
        by (simp add: m bind_io_pair)
      from Cons.IH[of bc1 src "snk @ [h]" obs] f show ?thesis
        unfolding kv w eq by (auto simp: is_alloc_def intro: assign_post_write)
    qed
  next
    case o
    show ?thesis
    proof (rule alloc_specE[OF new_observer_spec[of key bc]])
      fix e assume "new_observer bc key = ([], Inl e)"
      then show ?thesis unfolding kv o by simp
    next
      fix bc1 h assume m: "new_observer bc key = ([NewObserver key], Inr (bc1, h))"
        and f: "frame bc bc1"
      have eq: "assign_endpoints ((key, ''observe'') # rest) (bc, src, snk, obs) =
          (NewObserver key # fst (assign_endpoints rest (bc1, src, snk, obs @ [h])),
           snd (assign_endpoints rest (bc1, src, snk, obs @ [h])))"
        by (simp add: m bind_io_pair)
      from Cons.IH[of bc1 src snk "obs @ [h]"] f show ?thesis
        unfolding kv o eq by (auto simp: is_alloc_def intro: assign_post_observe)
    qed
  next
    case n
    then have eq: "assign_endpoints ((key, val) # rest) (bc, src, snk, obs) =
        assign_endpoints rest (bc, src, snk, obs)" by simp
    from Cons.IH[of bc src snk obs] n show ?thesis
      unfolding kv eq by (auto intro: assign_post_skip)
  qed
qed

text \<open>A known role on a name that is no buffer makes the loop fail.\<close>

lemma assign_endpoints_undefined:
  assumes "(key, role) \<in> set a" "role \<in> {''read'', ''write'', ''observe''}"
    "key \<notin> set (buffer_names bc)"
  shows "isl (snd (assign_endpoints a (bc, src, snk, obs)))"
  using assms
proof (induction a arbitrary: bc src snk obs)
  case Nil
  then show ?case by simp
next
  case (Cons kv rest)
  obtain k v where kv: "kv = (k, v)" by (cases kv)
  show ?case
  proof (cases "kv = (key, role)")
    case True
    then have k: "k = key" "v = role" using kv by simp_all
    from Cons.prems(2) consider (r) "role = ''read''" | (w) "role = ''write''"
      | (o) "role = ''observe''" by blast
    then show ?thesis
    proof cases
      case r
      show ?thesis
        by (rule alloc_specE[OF new_reader_group_spec[of key bc]])
           (use Cons.prems(3) in \<open>simp_all add: kv k r\<close>)
    next
      case w
      show ?thesis
        by (rule alloc_specE[OF new_writer_spec[of key bc]])
           (use Cons.prems(3) in \<open>simp_all add: kv k w\<close>)
    next
      case o
      show ?thesis
        by (rule alloc_specE[OF new_observer_spec[of key bc]])
           (use Cons.prems(3) in \<open>simp_all add: kv k o\<close>)
    qed
  next
    case False
    with Cons.prems(1) have mem: "(key, role) \<in> set rest" by simp
    have step: "isl (snd (assign_endpoints rest (bc1, s1, s2, s3)))"
      if "frame bc bc1" for bc1 s1 s2 s3
      by (rule Cons.IH[OF mem Cons.prems(2)])
         (use that Cons.prems(3) in \<open>simp add: frame_buffer_names\<close>)
    consider (r) "v = ''read''" | (w) "v = ''write''" | (o) "v = ''observe''"
      | (n) "v \<noteq> ''read''" "v \<noteq> ''write''" "v \<noteq> ''observe''" by blast
    then show ?thesis
    proof cases
      case r
      show ?thesis
        by (rule alloc_specE[OF new_reader_group_spec[of k bc]])
           (use step in \<open>simp_all add: kv r bind_io_pair\<close>)
    next
      case w
      show ?thesis
        by (rule alloc_specE[OF new_writer_spec[of k bc]])
           (use step in \<open>simp_all add: kv w bind_io_pair\<close>)
    next
      case o
      show ?thesis
        by (rule alloc_specE[OF new_observer_spec[of k bc]])
           (use step in \<open>simp_all add: kv o bind_io_pair\<close>)
    next
      case n
      with step[OF frame_refl] show ?thesis by (simp add: kv)
    qed
  qed
qed

lemma copyfile_trace [simp]: "fst (copyfile E a b) = [CopyFile a b]"
  by (simp add: copyfile_def bind_io_emit)

lemma makedirs_trace [simp]: "fst (makedirs E d m) = [MakeDirs d m]"
  by (simp add: makedirs_def bind_io_emit)

lemma makedirs_Inr [simp]: "snd (makedirs E d m) = Inr u \<longleftrightarrow> makedirs_ok E d"
  by (simp add: makedirs_def bind_io_emit)

lemma get_config_trace [simp]: "fst (get_config E f) = []"
  by (simp add: get_config_def split: option.split)

lemma import_function_trace [simp]: "fst (import_function E m f) = []"
  by (simp add: import_function_def split: sum.split error.split)

lemma list_get_Inr: "list_get xs i w = Inr x \<longleftrightarrow> i < length xs \<and> x = xs ! i"
  by (auto simp: list_get_def)

lemma dict_get_Inr: "dict_get d k = Inr v \<longleftrightarrow> map_of d k = Some v"
  by (auto simp: dict_get_def split: option.splits)

lemma key_get_Inr: "key_get x k = Inr v \<longleftrightarrow> x = Some v"
  by (cases x) simp_all

lemma attr_get_Inr: "attr_get x k = Inr v \<longleftrightarrow> x = Some v"
  by (cases x) simp_all

lemma resolve_config_trace:
  "fst (resolve_config E cdc bc w f) =
     (case config_file w of None \<Rightarrow> []
      | Some c \<Rightarrow> [CopyFile (abspath E c) (posix_dirname (out_dir bc) @ ''/'' @ posix_basename c)])"
  by (auto simp: resolve_config_def fst_bind_io split: option.split yval.split sum.split)

lemma setup_worker_Inr:
  assumes "snd (setup_worker E cdc i bc) = Inr bc'"
  shows "\<exists>w file fkt n cfg bc1 eps pf pl.
     i < length (functions_dict bc) \<and>
     map_of (functions_dict bc ! i) (''Fkt_'' @ str_nat i) = Some w \<and>
     file_name w = Some file \<and> fkt_name w = Some fkt \<and> num_process w = Some n \<and>
     snd (resolve_config E cdc bc w fkt) = Inr cfg \<and>
     snd (assign_endpoints (assigned_ringbuffers w) (bc, [], [], [])) = Inr (bc1, eps) \<and>
     snd (import_function E file fkt) = Inr pf \<and>
     process_list bc1 = Some pl \<and>
     bc' = bc1\<lparr>process_list := Some (pl @ worker_new bc w pf eps cfg (length pl))\<rparr>"
  using assms unfolding setup_worker_def worker_new_def
  by (auto simp: snd_bind_io_Inr list_get_Inr dict_get_Inr key_get_Inr attr_get_Inr
      split: prod.splits)

lemma setup_worker_trace:
  assumes "i < length (functions_dict bc)"
    "map_of (functions_dict bc ! i) (''Fkt_'' @ str_nat i) = Some w"
    "file_name w = Some file" "fkt_name w = Some fkt" "num_process w = Some n"
    "snd (resolve_config E cdc bc w fkt) = Inr cfg"
  shows "fst (setup_worker E cdc i bc) =
       fst (resolve_config E cdc bc w fkt) @
       fst (assign_endpoints (assigned_ringbuffers w) (bc, [], [], []))"
proof -
  have 1: "list_get (functions_dict bc) i ''functions_dict'' = Inr (functions_dict bc ! i)"
    using assms(1) by (simp add: list_get_simps)
  have 2: "dict_get (functions_dict bc ! i) (''Fkt_'' @ str_nat i) = Inr w"
    using assms(2) by (simp add: dict_get_simps)
  show ?thesis
    unfolding setup_worker_def 1 2 bind_io_simps
    using assms(3-6)
    by (cases "snd (assign_endpoints (assigned_ringbuffers w) (bc, [], [], []))")
       (auto simp: fst_bind_io split: sum.split prod.split)
qed

section \<open>One worker definition: endpoints and replicas\<close>

lemma count_distinct_key:
  "distinct (map fst a) \<Longrightarrow> (key, v) \<in> set a \<Longrightarrow>
   length (filter (\<lambda>kv. kv = (key, v)) a) = 1"
proof (induction a)
  case Nil
  then show ?case by simp
next
  case (Cons x a)
  show ?case
  proof (cases "x = (key, v)")
    case True
    with Cons.prems(1) have "key \<notin> fst ` set a" by auto
    then have "filter (\<lambda>kv. kv = (key, v)) a = []"
      by (auto simp: filter_empty_conv image_iff)
    with True show ?thesis by simp
  next
    case False
    with Cons show ?thesis by auto
  qed
qed

lemma filter_role_empty:
  "length (filter (\<lambda>kv. snd kv = r) a) = 0 \<longleftrightarrow> r \<notin> snd ` set a"
  by (auto simp: filter_empty_conv image_iff)

lemma worker_new_replicas:
  "worker_new bc w pf eps cfg n0 =
     map (\<lambda>k. (Process pf
                 (none_if_empty (fst eps), none_if_empty (fst (snd eps)),
                  none_if_empty (snd (snd eps)),
                  dict_set ''directory_prefix'' (YStr (out_dir bc)) cfg)
                 (assigned_ringbuffers w) (the (fkt_name w)) 0)\<lparr>proc_id := n0 + k\<rparr>)
       [0..<nat (the (num_process w))]"
  by (simp add: worker_new_def Process_def)

lemma none_if_empty_simps [simp]:
  "none_if_empty xs \<noteq> Some []" "none_if_empty xs = None \<longleftrightarrow> xs = []"
  by (simp_all add: none_if_empty_def)

text \<open>
  Claim C3.  For one pass of the loop over the worker definitions that does not raise:
  a buffer assigned the role \<^verbatim>\<open>read\<close> gets exactly one call of \<^verbatim>\<open>new_reader_group\<close>,
  whatever \<^verbatim>\<open>num_process\<close> is (the assignment is a mapping, its keys are distinct);
  the processes appended are \<^verbatim>\<open>num_process\<close> copies of one \<^verbatim>\<open>Process\<close> that differ
  in their identity only, so all replicas hold the same endpoint bundle; and each of
  the three endpoint lists is \<open>None\<close> exactly when no buffer has the role, never the
  empty list.
\<close>

theorem setup_worker_endpoints:
  assumes ok: "snd (setup_worker E cdc i bc) = Inr bc'"
    and w: "map_of (functions_dict bc ! i) (''Fkt_'' @ str_nat i) = Some w"
    and d: "distinct (map fst (assigned_ringbuffers w))"
    and pl: "process_list bc = Some pl"
  shows "(\<forall>key. (key, ''read'') \<in> set (assigned_ringbuffers w) \<longrightarrow>
            length (filter (\<lambda>e. e = NewReaderGroup key) (fst (setup_worker E cdc i bc))) = 1) \<and>
         (\<exists>p. process_list bc' =
                 Some (pl @ map (\<lambda>k. p\<lparr>proc_id := length pl + k\<rparr>)
                                [0..<nat (the (num_process w))]) \<and>
              args_source p \<noteq> Some [] \<and> args_sink p \<noteq> Some [] \<and> args_observe p \<noteq> Some [] \<and>
              (args_source p = None \<longleftrightarrow> ''read'' \<notin> snd ` set (assigned_ringbuffers w)) \<and>
              (args_sink p = None \<longleftrightarrow> ''write'' \<notin> snd ` set (assigned_ringbuffers w)) \<and>
              (args_observe p = None \<longleftrightarrow> ''observe'' \<notin> snd ` set (assigned_ringbuffers w)))"
proof -
  let ?a = "assigned_ringbuffers w"
  from setup_worker_Inr[OF ok] w obtain fl fkt n cfg bc1 eps pf pl1 where
    i: "i < length (functions_dict bc)" and
    f: "file_name w = Some fl" "fkt_name w = Some fkt" "num_process w = Some n" and
    rc: "snd (resolve_config E cdc bc w fkt) = Inr cfg" and
    ae: "snd (assign_endpoints ?a (bc, [], [], [])) = Inr (bc1, eps)" and
    pl1: "process_list bc1 = Some pl1" and
    bc': "bc' = bc1\<lparr>process_list := Some (pl1 @ worker_new bc w pf eps cfg (length pl1))\<rparr>"
    by auto
  let ?t = "fst (assign_endpoints ?a (bc, [], [], []))"
  from assign_endpoints_spec[of ?a bc "[]" "[]" "[]"] ae
  have post: "assign_post ?a (bc, [], [], []) ?t (bc1, eps)" by blast
  then have fr: "frame bc bc1" by (simp add: assign_post_def)
  from post obtain rs ws os where eps: "eps = (rs, ws, os)"
    and len: "length rs = length (filter (\<lambda>kv. snd kv = ''read'') ?a)"
      "length ws = length (filter (\<lambda>kv. snd kv = ''write'') ?a)"
      "length os = length (filter (\<lambda>kv. snd kv = ''observe'') ?a)"
    and cnt: "\<And>key. length (filter (\<lambda>e. e = NewReaderGroup key) ?t) =
            length (filter (\<lambda>kv. kv = (key, ''read'')) ?a)"
    by (auto simp: assign_post_def)
  have tr: "fst (setup_worker E cdc i bc) = fst (resolve_config E cdc bc w fkt) @ ?t"
    using i w f rc by (rule setup_worker_trace)
  have nocopy: "filter (\<lambda>e. e = NewReaderGroup key) (fst (resolve_config E cdc bc w fkt)) = []"
    for key
    by (simp add: resolve_config_trace split: option.split)
  have A: "length (filter (\<lambda>e. e = NewReaderGroup key) (fst (setup_worker E cdc i bc))) = 1"
    if "(key, ''read'') \<in> set ?a" for key
    unfolding tr filter_append nocopy using cnt[of key] count_distinct_key[OF d that] by simp
  from frame_fields(1)[OF fr] pl pl1 have pleq: "pl1 = pl" by simp
  let ?p = "Process pf
                 (none_if_empty (fst eps), none_if_empty (fst (snd eps)),
                  none_if_empty (snd (snd eps)),
                  dict_set ''directory_prefix'' (YStr (out_dir bc)) cfg)
                 ?a (the (fkt_name w)) 0"
  have B1: "process_list bc' =
      Some (pl @ map (\<lambda>k. ?p\<lparr>proc_id := length pl + k\<rparr>) [0..<nat (the (num_process w))])"
    unfolding bc' pleq worker_new_replicas by simp
  have rs: "rs = [] \<longleftrightarrow> ''read'' \<notin> snd ` set ?a"
    using len(1) filter_role_empty[of "''read''" ?a] by (metis length_0_conv)
  have ws: "ws = [] \<longleftrightarrow> ''write'' \<notin> snd ` set ?a"
    using len(2) filter_role_empty[of "''write''" ?a] by (metis length_0_conv)
  have os: "os = [] \<longleftrightarrow> ''observe'' \<notin> snd ` set ?a"
    using len(3) filter_role_empty[of "''observe''" ?a] by (metis length_0_conv)
  have B2: "args_source ?p \<noteq> Some [] \<and> args_sink ?p \<noteq> Some [] \<and> args_observe ?p \<noteq> Some [] \<and>
      (args_source ?p = None \<longleftrightarrow> ''read'' \<notin> snd ` set ?a) \<and>
      (args_sink ?p = None \<longleftrightarrow> ''write'' \<notin> snd ` set ?a) \<and>
      (args_observe ?p = None \<longleftrightarrow> ''observe'' \<notin> snd ` set ?a)"
    using rs ws os by (simp add: Process_def eps)
  have B: "\<exists>p. process_list bc' =
                 Some (pl @ map (\<lambda>k. p\<lparr>proc_id := length pl + k\<rparr>)
                                [0..<nat (the (num_process w))]) \<and>
              args_source p \<noteq> Some [] \<and> args_sink p \<noteq> Some [] \<and> args_observe p \<noteq> Some [] \<and>
              (args_source p = None \<longleftrightarrow> ''read'' \<notin> snd ` set ?a) \<and>
              (args_sink p = None \<longleftrightarrow> ''write'' \<notin> snd ` set ?a) \<and>
              (args_observe p = None \<longleftrightarrow> ''observe'' \<notin> snd ` set ?a)"
    by (rule exI[of _ ?p]) (rule conjI[OF B1 B2])
  from A have A': "\<forall>key. (key, ''read'') \<in> set ?a \<longrightarrow>
      length (filter (\<lambda>e. e = NewReaderGroup key) (fst (setup_worker E cdc i bc))) = 1"
    by blast
  show ?thesis by (rule conjI[OF A' B])
qed

theorem setup_worker_endpoints_witness:
  "snd (setup_worker env_example (Some common_example) 2 bc_example) =
     Inr (projr (snd (setup_worker env_example (Some common_example) 2 bc_example))) \<and>
   fst (setup_worker env_example (Some common_example) 2 bc_example) =
     [NewReaderGroup ''RB_1'', NewWriter ''RB_2''] \<and>
   map_option (map (\<lambda>p. (proc_id p, args_source p, args_sink p, args_observe p)))
     (process_list (projr (snd (setup_worker env_example (Some common_example) 2 bc_example)))) =
     Some [(0, Some [Reader ''RB_1'' 0], Some [Writer ''RB_2'' 0], None),
           (1, Some [Reader ''RB_1'' 0], Some [Writer ''RB_2'' 0], None)] \<and>
   length (filter (\<lambda>e. e = NewReaderGroup ''RB_1'')
     (fst (setup_worker env_example (Some common_example) 2 bc_example))) = 1"
proof -
  let ?r = "setup_worker env_example (Some common_example) 2 bc_example"
  have "\<not> isl (snd ?r)" by code_simp
  then have ok: "snd ?r = Inr (projr (snd ?r))" by simp
  have w: "map_of (functions_dict bc_example ! 2) (''Fkt_'' @ str_nat 2) = Some fkt_2_example"
    by code_simp
  have d: "distinct (map fst (assigned_ringbuffers fkt_2_example))" by code_simp
  have pl: "process_list bc_example = Some []" by (simp add: bc_example_def)
  have m: "(''RB_1'', ''read'') \<in> set (assigned_ringbuffers fkt_2_example)" by code_simp
  have t: "fst ?r = [NewReaderGroup ''RB_1'', NewWriter ''RB_2'']" by code_simp
  have p: "map_option (map (\<lambda>p. (proc_id p, args_source p, args_sink p, args_observe p)))
     (process_list (projr (snd ?r))) =
     Some [(0, Some [Reader ''RB_1'' 0], Some [Writer ''RB_2'' 0], None),
           (1, Some [Reader ''RB_1'' 0], Some [Writer ''RB_2'' 0], None)]" by code_simp
  from setup_worker_endpoints[OF ok w d pl] m
  have "length (filter (\<lambda>e. e = NewReaderGroup ''RB_1'') (fst ?r)) = 1" by blast
  with ok t p show ?thesis by blast
qed

section \<open>The worker loop and the start order\<close>

lemma map_plus_upt: "map ((+) n0) [0..<n] = [n0..<n0 + n]"
  by (induction n) simp_all

lemma worker_new_ids:
  "map proc_id (worker_new bc w pf eps cfg n0) = [n0..<n0 + length (worker_new bc w pf eps cfg n0)]"
  by (simp add: worker_new_def Process_def map_plus_upt o_def)

lemma worker_inv_fields:
  assumes "worker_inv bc0 bc"
  shows "functions_dict bc = functions_dict bc0" "out_dir bc = out_dir bc0"
    "workers_started bc = workers_started bc0" "workers_setup bc = workers_setup bc0"
    "self_runtime bc = self_runtime bc0" "number_of_functions bc = number_of_functions bc0"
    "buffers_dict bc = buffers_dict bc0" "number_of_ringbuffers bc = number_of_ringbuffers bc0"
    "buffer_names bc = buffer_names bc0"
  using assms unfolding worker_inv_def buffer_names_def by (auto split: option.splits)

lemma setup_worker_inv:
  assumes ok: "snd (setup_worker E cdc i bc) = Inr bc'" and inv: "worker_inv bc0 bc"
  shows "worker_inv bc0 bc'"
proof -
  from setup_worker_Inr[OF ok] obtain w cfg bc1 eps pf pl1 where
    ae: "snd (assign_endpoints (assigned_ringbuffers w) (bc, [], [], [])) = Inr (bc1, eps)" and
    pl1: "process_list bc1 = Some pl1" and
    bc': "bc' = bc1\<lparr>process_list := Some (pl1 @ worker_new bc w pf eps cfg (length pl1))\<rparr>"
    by auto
  from assign_endpoints_spec[of "assigned_ringbuffers w" bc "[]" "[]" "[]"] ae
  have "frame bc bc1" by (auto simp: assign_post_def)
  then obtain r1 where bc1: "bc1 = bc\<lparr>ringbuffers := r1\<rparr>"
    and r1: "map_option (map fst) r1 = map_option (map fst) (ringbuffers bc)"
    unfolding frame_def by auto
  from inv obtain r pl where bc: "bc = bc0\<lparr>ringbuffers := r, process_list := Some pl\<rparr>"
    and r: "map_option (map fst) r = map_option (map fst) (ringbuffers bc0)"
    and ids: "map proc_id pl = [0..<length pl]"
    unfolding worker_inv_def by auto
  from pl1 bc1 bc have pleq: "pl1 = pl" by simp
  let ?new = "worker_new bc w pf eps cfg (length pl)"
  have 1: "bc' = bc0\<lparr>ringbuffers := r1, process_list := Some (pl @ ?new)\<rparr>"
    unfolding bc' pleq bc1 by (subst (2) bc) simp
  have 2: "map_option (map fst) r1 = map_option (map fst) (ringbuffers bc0)"
    using r1 r bc by simp
  have 3: "map proc_id (pl @ ?new) = [0..<length (pl @ ?new)]"
    using ids worker_new_ids[of bc w pf eps cfg "length pl"]
    by (simp add: upt_add_eq_append[symmetric])
  show ?thesis unfolding worker_inv_def using 1 2 3 by blast
qed

lemma setup_workers_Inr:
  assumes ns: "\<not> workers_setup bc" and ok: "snd (setup_workers G E bc) = Inr bc'"
  shows "\<exists>rt cdc bc2. snd (common_config G E (bc\<lparr>process_list := Some []\<rparr>)) = Inr (rt, cdc) \<and>
           snd (for_each [1..<number_of_functions bc] (setup_worker E cdc)
                  (bc\<lparr>process_list := Some [], self_runtime := Some rt\<rparr>)) = Inr bc2 \<and>
           worker_inv (bc\<lparr>self_runtime := Some rt\<rparr>) bc2 \<and>
           bc' = bc2\<lparr>workers_setup := True\<rparr>"
proof -
  from ns ok obtain rt cdc bc2 where
    c: "snd (common_config G E (bc\<lparr>process_list := Some []\<rparr>)) = Inr (rt, cdc)" and
    l: "snd (for_each [1..<number_of_functions bc] (setup_worker E cdc)
                  (bc\<lparr>process_list := Some [], self_runtime := Some rt\<rparr>)) = Inr bc2" and
    e: "bc' = bc2\<lparr>workers_setup := True\<rparr>"
    unfolding setup_workers_def by (auto simp: snd_bind_io_Inr split: prod.splits)
  let ?b0 = "bc\<lparr>self_runtime := Some rt\<rparr>"
  have i0: "worker_inv ?b0 (bc\<lparr>process_list := Some [], self_runtime := Some rt\<rparr>)"
    unfolding worker_inv_def
    by (intro exI[of _ "ringbuffers bc"] exI[of _ "[]"]) simp
  have "worker_inv ?b0 bc2"
    by (rule for_each_inv[OF l, where I = "worker_inv ?b0"]) (use i0 setup_worker_inv in blast)+
  with c l e show ?thesis by blast
qed

lemma start_workers_first:
  assumes "\<not> workers_started bc" "process_list bc = Some pl"
  shows "start_workers bc =
     (map (\<lambda>p. ProcessStart (proc_id p)) (rev pl),
      Inr (bc\<lparr>process_list := Some (rev pl), workers_started := True\<rparr>, rev pl))"
  using assms by (simp add: start_workers_def bind_io_emit Let_def)

lemma worker_new_desc:
  "map (\<lambda>p. (name p, kwargs p)) (worker_new bc w pf eps cfg n0) =
   replicate (nat (the (num_process w))) (the (fkt_name w), assigned_ringbuffers w)"
  unfolding worker_new_def Process_def
  by (simp add: map_replicate_const comp_def)

lemma for_each_workers_declared:
  assumes "snd (for_each ixs (setup_worker E cdc) s) = Inr s'" and "worker_inv b0 s"
    and "process_list s = Some pl"
  shows "\<exists>pl'. process_list s' = Some (pl @ pl') \<and>
           map (\<lambda>p. (name p, kwargs p)) pl' = concat (map (replicas (functions_dict b0)) ixs)"
  using assms
proof (induction ixs arbitrary: s pl)
  case Nil
  then show ?case by simp
next
  case (Cons i ixs)
  from Cons.prems(1) obtain s1 where
    w: "snd (setup_worker E cdc i s) = Inr s1" and
    l: "snd (for_each ixs (setup_worker E cdc) s1) = Inr s'"
    by (auto simp: snd_bind_io_Inr)
  from setup_worker_Inr[OF w] obtain w' cfg bc1 eps pf pl1 where
    wd: "map_of (functions_dict s ! i) (''Fkt_'' @ str_nat i) = Some w'" and
    ae: "snd (assign_endpoints (assigned_ringbuffers w') (s, [], [], [])) = Inr (bc1, eps)" and
    pl1: "process_list bc1 = Some pl1" and
    s1: "s1 = bc1\<lparr>process_list := Some (pl1 @ worker_new s w' pf eps cfg (length pl1))\<rparr>"
    by auto
  from assign_endpoints_spec[of "assigned_ringbuffers w'" s "[]" "[]" "[]"] ae
  have "frame s bc1" by (auto simp: assign_post_def)
  from frame_fields(1)[OF this] pl1 Cons.prems(3) have pleq: "pl1 = pl" by simp
  let ?new = "worker_new s w' pf eps cfg (length pl)"
  have p1: "process_list s1 = Some (pl @ ?new)" unfolding s1 pleq by simp
  have inv1: "worker_inv b0 s1" by (rule setup_worker_inv[OF w Cons.prems(2)])
  from worker_inv_fields(1)[OF Cons.prems(2)] wd
  have w'': "w' = worker_def (functions_dict b0) i" by (simp add: worker_def_def)
  have d: "map (\<lambda>p. (name p, kwargs p)) ?new = replicas (functions_dict b0) i"
    unfolding worker_new_desc replicas_def w'' ..
  from Cons.IH[OF l inv1 p1] obtain pl' where
    a: "process_list s' = Some ((pl @ ?new) @ pl')" and
    b: "map (\<lambda>p. (name p, kwargs p)) pl' = concat (map (replicas (functions_dict b0)) ixs)"
    by blast
  have "process_list s' = Some (pl @ (?new @ pl'))" using a by simp
  moreover have "map (\<lambda>p. (name p, kwargs p)) (?new @ pl') =
      concat (map (replicas (functions_dict b0)) (i # ixs))"
    using d b by simp
  ultimately show ?case by blast
qed

lemma setup_workers_declared:
  assumes ns: "\<not> workers_setup bc" and ok: "snd (setup_workers G E bc) = Inr bc'"
  shows "\<exists>pl. process_list bc' = Some pl \<and>
           map (\<lambda>p. (name p, kwargs p)) pl = declared (functions_dict bc) (number_of_functions bc)"
proof -
  from setup_workers_Inr[OF ns ok] obtain rt cdc bc2 where
    l: "snd (for_each [1..<number_of_functions bc] (setup_worker E cdc)
              (bc\<lparr>process_list := Some [], self_runtime := Some rt\<rparr>)) = Inr bc2" and
    e: "bc' = bc2\<lparr>workers_setup := True\<rparr>" by blast
  let ?b0 = "bc\<lparr>self_runtime := Some rt\<rparr>"
  have i0: "worker_inv ?b0 (bc\<lparr>process_list := Some [], self_runtime := Some rt\<rparr>)"
    unfolding worker_inv_def
    by (intro exI[of _ "ringbuffers bc"] exI[of _ "[]"]) simp
  from for_each_workers_declared[OF l i0, of "[]"] obtain pl where
    "process_list bc2 = Some pl"
    "map (\<lambda>p. (name p, kwargs p)) pl = declared (functions_dict bc) (number_of_functions bc)"
    by (auto simp: declared_def)
  with e show ?thesis by simp
qed

text \<open>
  Claim C1.  \<^verbatim>\<open>setup_workers\<close> appends the processes in declaration order: the process
  list holds, for \<^verbatim>\<open>Fkt_1\<close>, \<^verbatim>\<open>Fkt_2\<close>, ... in this order, the replicas of that worker
  definition (each with the definition's callable name and buffer assignment), and the
  identities count \<open>0, 1, 2, ...\<close> along the list.  \<^verbatim>\<open>start_workers\<close> starts the processes
  in exactly the reverse of that order: the replicas of the last worker definition
  first, those of \<^verbatim>\<open>Fkt_1\<close> last.
\<close>

theorem start_workers_reverse_order:
  assumes "\<not> workers_setup bc" "\<not> workers_started bc"
    and "snd (setup_workers G E bc) = Inr bc'"
  shows "\<exists>pl. process_list bc' = Some pl \<and> map proc_id pl = [0..<length pl] \<and>
           map (\<lambda>p. (name p, kwargs p)) pl =
             declared (functions_dict bc) (number_of_functions bc) \<and>
           fst (start_workers bc') = map ProcessStart (rev [0..<length pl]) \<and>
           snd (start_workers bc') =
             Inr (bc'\<lparr>process_list := Some (rev pl), workers_started := True\<rparr>, rev pl) \<and>
           map (\<lambda>p. (name p, kwargs p)) (rev pl) =
             rev (declared (functions_dict bc) (number_of_functions bc))"
proof -
  from setup_workers_Inr[OF assms(1,3)] obtain rt bc2 where
    inv: "worker_inv (bc\<lparr>self_runtime := Some rt\<rparr>) bc2" and e: "bc' = bc2\<lparr>workers_setup := True\<rparr>"
    by blast
  from inv obtain pl where pl: "process_list bc2 = Some pl" and ids: "map proc_id pl = [0..<length pl]"
    unfolding worker_inv_def by auto
  from worker_inv_fields(3)[OF inv] assms(2) e have ns: "\<not> workers_started bc'" by simp
  from pl e have pl': "process_list bc' = Some pl" by simp
  from setup_workers_declared[OF assms(1,3)] pl'
  have d: "map (\<lambda>p. (name p, kwargs p)) pl =
      declared (functions_dict bc) (number_of_functions bc)" by simp
  from d have "rev (map (\<lambda>p. (name p, kwargs p)) pl) =
      rev (declared (functions_dict bc) (number_of_functions bc))" by simp
  then have d': "map (\<lambda>p. (name p, kwargs p)) (rev pl) =
      rev (declared (functions_dict bc) (number_of_functions bc))" by (simp only: rev_map)
  have "map (\<lambda>p. ProcessStart (proc_id p)) (rev pl) = map ProcessStart (rev (map proc_id pl))"
    by (simp add: rev_map)
  with ids have t: "map (\<lambda>p. ProcessStart (proc_id p)) (rev pl) = map ProcessStart (rev [0..<length pl])"
    by simp
  from start_workers_first[OF ns pl'] t have
    s: "fst (start_workers bc') = map ProcessStart (rev [0..<length pl])"
       "snd (start_workers bc') =
          Inr (bc'\<lparr>process_list := Some (rev pl), workers_started := True\<rparr>, rev pl)"
    by simp_all
  show ?thesis
    by (rule exI[of _ pl]) (use pl' ids d d' s in blast)
qed

theorem start_workers_reverse_order_witness:
  "\<not> workers_setup bc_example \<and> \<not> workers_started bc_example \<and>
   snd (setup_workers (Some functions_example) env_example bc_example) =
     Inr (projr (snd (setup_workers (Some functions_example) env_example bc_example))) \<and>
   fst (start_workers (projr (snd (setup_workers (Some functions_example) env_example bc_example)))) =
     [ProcessStart 2, ProcessStart 1, ProcessStart 0] \<and>
   map_sum id (map (\<lambda>p. (proc_id p, name p, kwargs p)) \<circ> snd)
     (snd (start_workers
        (projr (snd (setup_workers (Some functions_example) env_example bc_example))))) =
     Inr [(2, ''find_peaks'', [(''RB_1'', ''read''), (''RB_2'', ''write'')]),
          (1, ''find_peaks'', [(''RB_1'', ''read''), (''RB_2'', ''write'')]),
          (0, ''read_source'', [(''RB_1'', ''write'')])]"
proof -
  let ?bc' = "projr (snd (setup_workers (Some functions_example) env_example bc_example))"
  have a: "\<not> workers_setup bc_example" "\<not> workers_started bc_example"
    by (simp_all add: bc_example_def buffer_control_init_def)
  have "\<not> isl (snd (setup_workers (Some functions_example) env_example bc_example))"
    by code_simp
  then have ok: "snd (setup_workers (Some functions_example) env_example bc_example) = Inr ?bc'"
    by simp
  have dd: "declared (functions_dict bc_example) (number_of_functions bc_example) =
      [(''read_source'', [(''RB_1'', ''write'')]),
       (''find_peaks'', [(''RB_1'', ''read''), (''RB_2'', ''write'')]),
       (''find_peaks'', [(''RB_1'', ''read''), (''RB_2'', ''write'')])]" by code_simp
  from start_workers_reverse_order[OF a ok] obtain pl where
    pl: "process_list ?bc' = Some pl" and ids: "map proc_id pl = [0..<length pl]" and
    d: "map (\<lambda>p. (name p, kwargs p)) (rev pl) =
          rev (declared (functions_dict bc_example) (number_of_functions bc_example))" and
    t: "fst (start_workers ?bc') = map ProcessStart (rev [0..<length pl])" and
    r: "snd (start_workers ?bc') =
          Inr (?bc'\<lparr>process_list := Some (rev pl), workers_started := True\<rparr>, rev pl)"
    by blast
  from d have "length pl = 3" unfolding dd using length_map[of "\<lambda>p. (name p, kwargs p)" "rev pl"]
    by simp
  with ids have i3: "map proc_id (rev pl) = [2, 1, 0]" by (simp add: rev_map[symmetric] upt_rec)
  have "map (\<lambda>p. (proc_id p, name p, kwargs p)) xs =
      map (\<lambda>(i, d). (i, fst d, snd d))
        (zip (map proc_id xs) (map (\<lambda>p. (name p, kwargs p)) xs))" for xs :: "process list"
    by (induction xs) simp_all
  then have z: "map (\<lambda>p. (proc_id p, name p, kwargs p)) (rev pl) =
      map (\<lambda>(i, d). (i, fst d, snd d))
        (zip (map proc_id (rev pl)) (map (\<lambda>p. (name p, kwargs p)) (rev pl)))" .
  have t': "fst (start_workers ?bc') = [ProcessStart 2, ProcessStart 1, ProcessStart 0]"
    using t \<open>length pl = 3\<close> by (simp add: upt_rec)
  have r': "map_sum id (map (\<lambda>p. (proc_id p, name p, kwargs p)) \<circ> snd) (snd (start_workers ?bc')) =
     Inr [(2, ''find_peaks'', [(''RB_1'', ''read''), (''RB_2'', ''write'')]),
          (1, ''find_peaks'', [(''RB_1'', ''read''), (''RB_2'', ''write'')]),
          (0, ''read_source'', [(''RB_1'', ''write'')])]"
    unfolding r by (simp add: z i3 d dd)
  from a ok t' r' show ?thesis by blast
qed

section \<open>The buffers, the main script up to the start, and the shutdown\<close>

lemma rb_name_inj: "rb_name i = rb_name j \<longleftrightarrow> i = j"
  by (auto simp: rb_name_def dest: str_nat_inj)

lemma setup_buffer_Inr:
  assumes "snd (setup_buffer E bc i rbs) = Inr rbs'"
  shows "\<exists>obj. rbs' = dict_set (rb_name i) obj rbs"
  using assms unfolding setup_buffer_def rb_name_def Let_def
  by (auto simp: snd_bind_io_Inr bind_io_emit split: option.splits)

lemma setup_buffer_names:
  assumes "snd (for_each ixs (setup_buffer E bc) rbs) = Inr rbs'"
    and "distinct ixs" and "\<forall>i\<in>set ixs. rb_name i \<notin> fst ` set rbs"
  shows "map fst rbs' = map fst rbs @ map rb_name ixs"
  using assms
proof (induction ixs arbitrary: rbs)
  case Nil
  then show ?case by simp
next
  case (Cons i ixs)
  from Cons.prems(1) obtain r1 where b: "snd (setup_buffer E bc i rbs) = Inr r1"
    and l: "snd (for_each ixs (setup_buffer E bc) r1) = Inr rbs'"
    by (auto simp: snd_bind_io_Inr)
  from setup_buffer_Inr[OF b] obtain obj where "r1 = dict_set (rb_name i) obj rbs" by blast
  with Cons.prems(3) have r1: "r1 = rbs @ [(rb_name i, obj)]" by (simp add: dict_set_new)
  have d: "distinct ixs" using Cons.prems(2) by simp
  have n: "\<forall>j\<in>set ixs. rb_name j \<notin> fst ` set r1"
    using Cons.prems(2,3) unfolding r1 by (auto simp: rb_name_inj)
  from Cons.IH[OF l d n] show ?case unfolding r1 by simp
qed

lemma setup_buffers_Inr:
  assumes "snd (setup_buffers E bc) = Inr bc'"
  shows "\<exists>rbs. bc' = bc\<lparr>ringbuffers := Some rbs\<rparr> \<and>
           map fst rbs = map rb_name [1..<number_of_ringbuffers bc]"
proof -
  from assms obtain rbs where
    l: "snd (for_each [1..<number_of_ringbuffers bc] (setup_buffer E bc) []) = Inr rbs"
    and e: "bc' = bc\<lparr>ringbuffers := Some rbs\<rparr>"
    unfolding setup_buffers_def by (auto simp: snd_bind_io_Inr)
  from setup_buffer_names[OF l] have "map fst rbs = map rb_name [1..<number_of_ringbuffers bc]"
    by simp
  with e show ?thesis by blast
qed

lemma display_layout_simps [simp]:
  "fst (display_layout bc) = []"
  "snd (display_layout bc) = Inr u \<longleftrightarrow> ringbuffers bc \<noteq> None"
  by (cases "ringbuffers bc"; simp add: display_layout_def)+

lemma main_init_Inr:
  assumes "snd (main_init E f) = Inr bc"
  shows "\<exists>y bd fd bc1. setup_files E (abspath E f) = Inr y \<and> RingBuffer y = Some bd \<and>
           Functions y = Some fd \<and>
           snd (setup_buffers E (buffer_control_init bd fd (directory_prefix E f))) = Inr bc1 \<and>
           snd (setup_workers (Some fd) E bc1) = Inr bc"
  using assms unfolding main_init_def
  by (auto simp: snd_bind_io_Inr key_get_Inr bind_io_emit split: if_splits)

text \<open>The controller that \<^verbatim>\<open>__main__\<close> has set up and started.\<close>

lemma main_setup_Inr:
  assumes "snd (main_setup E f) = Inr (bc, pl)"
  shows "\<exists>y bd fd rbs. setup_files E (abspath E f) = Inr y \<and> RingBuffer y = Some bd \<and>
           Functions y = Some fd \<and>
           buffers_dict bc = bd \<and> number_of_ringbuffers bc = length bd + 1 \<and>
           functions_dict bc = fd \<and>
           ringbuffers bc = Some rbs \<and> map fst rbs = map rb_name [1..<length bd + 1] \<and>
           process_list bc = Some pl \<and> workers_started bc \<and> self_runtime bc \<noteq> None"
proof -
  from assms obtain bc2 where i: "snd (main_init E f) = Inr bc2"
    and s: "snd (start_workers bc2) = Inr (bc, pl)"
    unfolding main_setup_def by (auto simp: snd_bind_io_Inr)
  from main_init_Inr[OF i] obtain y bd fd bc1 where
    y: "setup_files E (abspath E f) = Inr y" "RingBuffer y = Some bd" "Functions y = Some fd" and
    sb: "snd (setup_buffers E (buffer_control_init bd fd (directory_prefix E f))) = Inr bc1" and
    sw: "snd (setup_workers (Some fd) E bc1) = Inr bc2" by blast
  let ?b0 = "buffer_control_init bd fd (directory_prefix E f)"
  from setup_buffers_Inr[OF sb] obtain rbs where
    bc1: "bc1 = ?b0\<lparr>ringbuffers := Some rbs\<rparr>" and
    names: "map fst rbs = map rb_name [1..<number_of_ringbuffers ?b0]" by blast
  have ns: "\<not> workers_setup bc1" by (simp add: bc1 buffer_control_init_def)
  from setup_workers_Inr[OF ns sw] obtain rt bc3 where
    inv: "worker_inv (bc1\<lparr>self_runtime := Some rt\<rparr>) bc3" and e: "bc2 = bc3\<lparr>workers_setup := True\<rparr>"
    by blast
  from inv obtain r pl0 where
    bc3: "bc3 = bc1\<lparr>self_runtime := Some rt, ringbuffers := r, process_list := Some pl0\<rparr>"
    and r: "map_option (map fst) r = map_option (map fst) (ringbuffers bc1)"
    unfolding worker_inv_def by auto
  from r bc1 obtain rbs2 where r2: "r = Some rbs2" "map fst rbs2 = map fst rbs" by auto
  have nst: "\<not> workers_started bc2" by (simp add: e bc3 bc1 buffer_control_init_def)
  have pl2: "process_list bc2 = Some pl0" by (simp add: e bc3)
  let ?X = "bc2\<lparr>process_list := Some (rev pl0), workers_started := True\<rparr>"
  have "snd (start_workers bc2) = Inr (?X, rev pl0)"
    unfolding start_workers_first[OF nst pl2] by (rule snd_conv)
  with s have "(Inr (bc, pl) :: error + buffer_control \<times> process list) = Inr (?X, rev pl0)"
    by (rule trans[OF sym])
  then have "(bc, pl) = (?X, rev pl0)" by (rule sum.inject(2)[THEN iffD1])
  then have bc: "bc = ?X" and pl: "pl = rev pl0" by simp_all
  show ?thesis
    using y names r2
    by (intro exI[of _ y] exI[of _ bd] exI[of _ fd] exI[of _ rbs2])
       (simp add: bc pl e bc3 bc1 buffer_control_init_def)
qed

lemma shutdown_started:
  assumes "ringbuffers bc = Some rbs" "process_list bc = Some pl" "workers_started bc"
  shows "shutdown bc =
     (map BufferShutdown (map fst rbs) @ map (\<lambda>p. ProcessJoin (proc_id p)) pl,
      Inr (bc\<lparr>ringbuffers := None\<rparr>))"
proof -
  have "map (\<lambda>(name, buffer). BufferShutdown name) rbs = map BufferShutdown (map fst rbs)"
    by (simp add: case_prod_beta')
  with assms show ?thesis by (simp add: shutdown_def bind_io_emit)
qed

text \<open>
  Claim C2.  For the controller the main script has set up and started, \<^verbatim>\<open>shutdown\<close>
  first calls \<^verbatim>\<open>shutdown()\<close> on the buffers \<^verbatim>\<open>RB_1\<close>, \<^verbatim>\<open>RB_2\<close>, ... in the order of their
  declaration, and only then joins the processes: the trace is the buffer shutdowns
  followed by the joins, so every buffer shutdown precedes every join.
\<close>

theorem shutdown_buffers_then_join:
  assumes "snd (main_setup E f) = Inr (bc, pl)"
  shows "shutdown bc =
     (map BufferShutdown (map (\<lambda>i. ''RB_'' @ str_nat i) [1..<number_of_ringbuffers bc]) @
      map (\<lambda>p. ProcessJoin (proc_id p)) pl,
      Inr (bc\<lparr>ringbuffers := None\<rparr>))"
proof -
  from main_setup_Inr[OF assms] obtain y bd fd rbs where
    "setup_files E (abspath E f) = Inr y" "RingBuffer y = Some bd" "Functions y = Some fd"
    "buffers_dict bc = bd" and
    n: "number_of_ringbuffers bc = length bd + 1" and
    "functions_dict bc = fd" and
    r: "ringbuffers bc = Some rbs" "map fst rbs = map rb_name [1..<length bd + 1]" and
    p: "process_list bc = Some pl" "workers_started bc" by blast
  have names: "map fst rbs = map (\<lambda>i. ''RB_'' @ str_nat i) [1..<number_of_ringbuffers bc]"
    by (simp only: r(2) n rb_name_def[abs_def])
  show ?thesis
    unfolding shutdown_started[OF r(1) p] names ..
qed

lemma str_nat_digits [simp]: "str_nat 1 = ''1''" "str_nat 2 = ''2''" "str_nat 3 = ''3''"
  by (simp_all add: str_nat.simps digit_char_def)

lemma main_setup_example:
  "(case main_setup env_example ''demo_setup.yaml'' of
      (t, Inr (bc, pl)) \<Rightarrow>
        t = [MakeDirs ''target/demo_2024-01-02_030405/'' 504,
             CopyFile ''/daq/demo_setup.yaml'' ''target/demo_2024-01-02_030405/demo_setup.yaml'',
             Hook ''appl_init'', NewBuffer ''RB_1'' 16 1 (Scalar ''float''),
             NewBuffer ''RB_2'' 8 1 (Fields [(''height'', ''float'')]),
             CopyFile ''/daq/config/common.yaml'' ''target/demo_2024-01-02_030405/common.yaml'',
             NewWriter ''RB_1'', NewReaderGroup ''RB_1'', NewWriter ''RB_2'',
             ProcessStart 2, ProcessStart 1, ProcessStart 0] \<and>
        number_of_ringbuffers bc = 3 \<and> map proc_id pl = [2, 1, 0] \<and>
        self_runtime bc = Some (YInt 0)
    | (t, Inl e) \<Rightarrow> False)"
  by code_simp

theorem shutdown_buffers_then_join_witness:
  "snd (main_setup env_example ''demo_setup.yaml'') =
     Inr (projr (snd (main_setup env_example ''demo_setup.yaml''))) \<and>
   fst (shutdown (fst (projr (snd (main_setup env_example ''demo_setup.yaml''))))) =
     [BufferShutdown ''RB_1'', BufferShutdown ''RB_2'',
      ProcessJoin 2, ProcessJoin 1, ProcessJoin 0]"
proof -
  let ?M = "main_setup env_example ''demo_setup.yaml''"
  from main_setup_example obtain bc pl where
    ok: "snd ?M = Inr (bc, pl)" and n: "number_of_ringbuffers bc = 3"
    and ids: "map proc_id pl = [2, 1, 0]"
    by (auto split: prod.splits sum.splits)
  have j: "map (\<lambda>p. ProcessJoin (proc_id p)) pl = map ProcessJoin (map proc_id pl)" by simp
  have nm: "map (\<lambda>i. ''RB_'' @ str_nat i) [1..<3] = [''RB_1'', ''RB_2'']" by code_simp
  have "fst (shutdown bc) =
     [BufferShutdown ''RB_1'', BufferShutdown ''RB_2'', ProcessJoin 2, ProcessJoin 1, ProcessJoin 0]"
    unfolding shutdown_buffers_then_join[OF ok] n j ids nm by simp
  with ok show ?thesis by simp
qed

section \<open>The calls made before the workers are started\<close>

lemma events_ok_bind:
  "events_ok P m \<Longrightarrow> (\<And>a. events_ok P (f a)) \<Longrightarrow> events_ok P (bind_io m f)"
  unfolding events_ok_def by (rule set_fst_bind_io) auto

lemma events_ok_simps [simp]:
  "events_ok P (io_return a)" "events_ok P (io_raise e)" "events_ok P (io_lift r)"
  "events_ok P (io_emit evs) \<longleftrightarrow> (\<forall>e\<in>set evs. P e)"
  by (simp_all add: events_ok_def)

lemma events_ok_for_each:
  "(\<And>i s. events_ok P (body i s)) \<Longrightarrow> events_ok P (for_each ixs body s)"
  unfolding events_ok_def by (rule for_each_events) auto

lemma events_ok_copyfile [simp]: "events_ok init_event (copyfile E a b)"
  by (simp add: events_ok_def init_event_def)

lemma events_ok_get_config [simp]: "events_ok P (get_config E c)"
  by (simp add: events_ok_def)

lemma events_ok_import [simp]: "events_ok P (import_function E m f)"
  by (simp add: events_ok_def)

lemma is_alloc_init: "is_alloc e \<Longrightarrow> init_event e"
  by (cases e) (simp_all add: is_alloc_def init_event_def)

lemma events_ok_assign [simp]: "events_ok init_event (assign_endpoints a (bc, s1, s2, s3))"
  using assign_endpoints_spec[of a bc s1 s2 s3] by (auto simp: events_ok_def is_alloc_init)

lemma events_ok_setup_buffer: "events_ok init_event (setup_buffer E bc i rbs)"
  unfolding setup_buffer_def Let_def
  by (auto intro!: events_ok_bind simp: init_event_def split: option.split)

lemma events_ok_setup_buffers: "events_ok init_event (setup_buffers E bc)"
  unfolding setup_buffers_def
  by (intro events_ok_bind events_ok_for_each events_ok_setup_buffer) simp

lemma events_ok_resolve_config: "events_ok init_event (resolve_config E cdc bc w f)"
  by (cases "config_file w") (simp_all add: events_ok_def resolve_config_trace init_event_def)

lemma events_ok_common_config: "events_ok init_event (common_config G E bc)"
  unfolding common_config_def Let_def
  by (auto intro!: events_ok_bind split: option.split)

lemma events_ok_setup_worker: "events_ok init_event (setup_worker E cdc i bc)"
  unfolding setup_worker_def
  by (auto intro!: events_ok_bind events_ok_resolve_config split: prod.split)

lemma events_ok_setup_workers: "events_ok init_event (setup_workers G E bc)"
  unfolding setup_workers_def
  by (auto intro!: events_ok_bind events_ok_for_each events_ok_setup_worker
        events_ok_common_config split: prod.split)

lemma events_ok_display_layout [simp]: "events_ok P (display_layout bc)"
  by (simp add: events_ok_def)

lemma events_ok_makedirs [simp]: "events_ok init_event (makedirs E d m)"
  by (simp add: events_ok_def init_event_def)

lemma events_ok_main_init: "events_ok init_event (main_init E f)"
  unfolding main_init_def
  by (auto intro!: events_ok_bind events_ok_setup_buffers events_ok_setup_workers
        simp: init_event_def)

section \<open>Batch mode: the supervision loop\<close>














section \<open>The configuration of a worker\<close>

text \<open>
  Claim C5.  The setup file names no common configuration file and the worker
  \<^verbatim>\<open>Fkt_1\<close> names none of its own: where the comment in the source promises that no
  external configuration is passed to the function, \<^verbatim>\<open>setup_workers\<close> reads the local
  variable \<^verbatim>\<open>config_dict_common\<close> that was never assigned, and the script ends with
  \<open>UnboundLocalError\<close> after the buffers were created; no process is created or started.
\<close>

theorem no_common_config_raises:
  "main_setup (env_with yaml_no_common) ''demo_setup.yaml'' =
     ([MakeDirs ''target/demo_2024-01-02_030405/'' 504,
       CopyFile ''/daq/demo_setup.yaml'' ''target/demo_2024-01-02_030405/demo_setup.yaml'',
       Hook ''appl_init'', NewBuffer ''RB_1'' 16 1 (Scalar ''float''),
       NewBuffer ''RB_2'' 8 1 (Fields [(''height'', ''float'')])],
      Inl (UnboundLocalError ''config_dict_common''))"
  by code_simp

text \<open>
  With a common configuration file the same two workers get their configuration as
  the claim says: \<^verbatim>\<open>read_source\<close> has no section and gets the empty configuration,
  \<^verbatim>\<open>find_peaks\<close> gets its section, both with \<^verbatim>\<open>directory_prefix\<close> added.
\<close>

lemma example_configs:
  "(case snd (main_setup env_example ''demo_setup.yaml'') of
      Inr (bc, pl) \<Rightarrow>
        map (\<lambda>p. (name p, args_config p)) pl =
          [(''find_peaks'', [(''threshold'', YInt 5),
              (''directory_prefix'', YStr ''target/demo_2024-01-02_030405/'')]),
           (''find_peaks'', [(''threshold'', YInt 5),
              (''directory_prefix'', YStr ''target/demo_2024-01-02_030405/'')]),
           (''read_source'', [(''directory_prefix'', YStr ''target/demo_2024-01-02_030405/'')])]
    | Inl e \<Rightarrow> False)"
  by code_simp

section \<open>The common configuration and the run time\<close>

lemma common_config_unfold:
  assumes "functions_dict bc = e # rest" and "map_of e ''Fkt_main'' = Some m"
  shows "common_config G E bc =
     (case G of
         None \<Rightarrow> io_raise (NameError ''parallel_functions_dict'')
       | Some parallel_functions_dict \<Rightarrow>
           bind_io (io_lift (list_get parallel_functions_dict 0 ''parallel_functions_dict''))
             (\<lambda>g0.
           bind_io (io_lift (dict_get g0 ''Fkt_main'')) (\<lambda>g_main.
             case config_file g_main of
               None \<Rightarrow> io_return (own_runtime m, None)
             | Some cfg_common \<Rightarrow>
                 bind_io (copyfile E (abspath E cfg_common)
                            (posix_dirname (out_dir bc) @ ''/'' @ posix_basename cfg_common))
                   (\<lambda>_.
                 bind_io (get_config E cfg_common) (\<lambda>config_dict_common.
                 bind_io (io_lift (dict_get config_dict_common ''general'')) (\<lambda>general.
                 bind_io (io_lift (runtime_override general)) (\<lambda>override.
                   io_return
                     ((case override of None \<Rightarrow> own_runtime m | Some r \<Rightarrow> r),
                      Some config_dict_common))))))))"
  unfolding common_config_def own_runtime_def
  by (simp add: assms list_get_simps dict_get_simps Let_def)

lemma runtime_override_Inr:
  "runtime_override g = Inr ov \<Longrightarrow> map_of c ''general'' = Some g \<Longrightarrow>
   file_runtime (Some c) = ov"
  by (auto simp: runtime_override_def file_runtime_def split: yval.splits if_splits)

text \<open>
  Claim C9 (as the code has it).  Two controllers whose \<^verbatim>\<open>functions_dict\<close> each have an
  entry \<^verbatim>\<open>Fkt_main\<close> and that were given the same output directory run lines 83 to 95
  of \<^verbatim>\<open>setup_workers\<close> under the same module-global \<^verbatim>\<open>parallel_functions_dict\<close>.  Then
  both copy the same common configuration file, both end in the same exception or with
  the same common configuration, and a run time set in the section \<^verbatim>\<open>general\<close> of that
  file is the run time of both.  Only when the file sets none (or there is no file) is
  the run time of each controller the one of its own \<^verbatim>\<open>functions_dict\<close>.
\<close>

theorem common_config_from_global:
  assumes "functions_dict bc1 = e1 # rest1" and "map_of e1 ''Fkt_main'' = Some m1"
      and "functions_dict bc2 = e2 # rest2" and "map_of e2 ''Fkt_main'' = Some m2"
      and o: "out_dir bc1 = out_dir bc2"
  shows "fst (common_config G E bc1) = fst (common_config G E bc2) \<and>
     (case snd (common_config G E bc1) of
        Inl e \<Rightarrow> snd (common_config G E bc2) = Inl e
      | Inr (rt1, c) \<Rightarrow>
          (\<exists>rt2. snd (common_config G E bc2) = Inr (rt2, c) \<and>
             (case file_runtime c of
                Some r \<Rightarrow> rt1 = r \<and> rt2 = r
              | None \<Rightarrow> rt1 = own_runtime m1 \<and> rt2 = own_runtime m2)))"
proof (cases G)
  case None
  then show ?thesis
    unfolding common_config_unfold[OF assms(1,2)] common_config_unfold[OF assms(3,4)] by simp
next
  case (Some g)
  show ?thesis
  proof (cases "list_get g 0 ''parallel_functions_dict''")
    case (Inl e)
    with Some show ?thesis
      unfolding common_config_unfold[OF assms(1,2)] common_config_unfold[OF assms(3,4)] by simp
  next
    case g0: (Inr g0)
    show ?thesis
    proof (cases "dict_get g0 ''Fkt_main''")
      case (Inl e)
      with Some g0 show ?thesis
        unfolding common_config_unfold[OF assms(1,2)] common_config_unfold[OF assms(3,4)] by simp
    next
      case gm: (Inr g_main)
      show ?thesis
      proof (cases "config_file g_main")
        case None
        with Some g0 gm show ?thesis
          unfolding common_config_unfold[OF assms(1,2)] common_config_unfold[OF assms(3,4)]
          by (simp add: file_runtime_def)
      next
        case cf: (Some cfg)
        show ?thesis
        proof (cases "copy_ok E (abspath E cfg)
                        (posix_dirname (out_dir bc2) @ ''/'' @ posix_basename cfg)")
          case False
          with Some g0 gm cf o show ?thesis
            unfolding common_config_unfold[OF assms(1,2)] common_config_unfold[OF assms(3,4)]
            by (simp add: copyfile_def bind_io_emit bind_io_pair)
        next
          case cp: True
          show ?thesis
          proof (cases "config_files E (abspath E cfg)")
            case None
            with Some g0 gm cf o cp show ?thesis
              unfolding common_config_unfold[OF assms(1,2)] common_config_unfold[OF assms(3,4)]
              by (simp add: copyfile_def bind_io_emit bind_io_pair get_config_def)
          next
            case c: (Some c)
            show ?thesis
            proof (cases "dict_get c ''general''")
              case (Inl e)
              with Some g0 gm cf o cp c show ?thesis
                unfolding common_config_unfold[OF assms(1,2)] common_config_unfold[OF assms(3,4)]
                by (simp add: copyfile_def bind_io_emit bind_io_pair get_config_def)
            next
              case gen: (Inr general)
              then have mg: "map_of c ''general'' = Some general"
                by (simp add: dict_get_Inr)
              show ?thesis
              proof (cases "runtime_override general")
                case (Inl e)
                with Some g0 gm cf o cp c gen show ?thesis
                  unfolding common_config_unfold[OF assms(1,2)] common_config_unfold[OF assms(3,4)]
                  by (simp add: copyfile_def bind_io_emit bind_io_pair get_config_def)
              next
                case ov: (Inr ov)
                from runtime_override_Inr[OF ov mg] have fr: "file_runtime (Some c) = ov" .
                from Some g0 gm cf o cp c gen ov fr show ?thesis
                  unfolding common_config_unfold[OF assms(1,2)] common_config_unfold[OF assms(3,4)]
                  by (cases ov) (simp_all add: copyfile_def bind_io_emit bind_io_pair get_config_def)
              qed
            qed
          qed
        qed
      qed
    qed
  qed
qed

theorem common_config_from_global_witness:
  "fst (common_config (Some functions_example) env_example (bc_runtime 10)) =
   fst (common_config (Some functions_example) env_example (bc_runtime 20)) \<and>
   fst (common_config (Some functions_example) env_example (bc_runtime 10)) =
     [CopyFile ''/daq/config/common.yaml'' ''target/out/common.yaml''] \<and>
   map_sum id fst (snd (common_config (Some functions_example) env_example (bc_runtime 10))) =
     Inr (YInt 0) \<and>
   map_sum id fst (snd (common_config (Some functions_example) env_example (bc_runtime 20))) =
     Inr (YInt 0)"
proof -
  let ?m = "\<lambda>r. fkt_main_example\<lparr>config_file := None, runtime := Some (YInt r)\<rparr>"
  let ?c1 = "common_config (Some functions_example) env_example (bc_runtime 10)"
  let ?c2 = "common_config (Some functions_example) env_example (bc_runtime 20)"
  have a: "functions_dict (bc_runtime 10) = [(''Fkt_main'', ?m 10)] # []"
          "functions_dict (bc_runtime 20) = [(''Fkt_main'', ?m 20)] # []"
          "out_dir (bc_runtime 10) = out_dir (bc_runtime 20)"
    by (simp_all add: bc_runtime_def buffer_control_init_def)
  have b: "map_of [(''Fkt_main'', ?m 10)] ''Fkt_main'' = Some (?m 10)"
          "map_of [(''Fkt_main'', ?m 20)] ''Fkt_main'' = Some (?m 20)"
    by simp_all
  have t: "fst ?c1 = [CopyFile ''/daq/config/common.yaml'' ''target/out/common.yaml'']"
    by code_simp
  have r: "snd ?c1 = Inr (YInt 0, Some common_example)" by code_simp
  have f: "file_runtime (Some common_example) = Some (YInt 0)" by code_simp
  from common_config_from_global[OF a(1) b(1) a(2) b(2) a(3),
      of "Some functions_example" env_example] r f
  have "fst ?c1 = fst ?c2" and "\<exists>rt2. snd ?c2 = Inr (rt2, Some common_example) \<and> rt2 = YInt 0"
    by simp_all
  with t r show ?thesis by auto
qed

text \<open>
  Under a module-global whose \<^verbatim>\<open>Fkt_main\<close> names no common configuration file and no
  run time, two controllers that differ only in the run time of their own \<^verbatim>\<open>Fkt_main\<close>
  entry resolve different run times: the run time is read from \<^verbatim>\<open>self.functions_dict\<close>.
\<close>

theorem runtime_read_from_instance:
  "map_sum id self_runtime (snd (setup_workers (Some global_no_runtime) env_example (bc_runtime 10)))
     = Inr (Some (YInt 10)) \<and>
   map_sum id self_runtime (snd (setup_workers (Some global_no_runtime) env_example (bc_runtime 20)))
     = Inr (Some (YInt 20))"
  by code_simp

section \<open>Errors while the controller is set up\<close>

lemma make_fields_invalid:
  "isl (make_fields E d) \<longleftrightarrow>
   list_ex (\<lambda>kv. length (snd kv) < 2 \<or> \<not> np_dtype_ok E (snd kv ! 1)) d"
proof (induction d)
  case Nil
  show ?case by simp
next
  case (Cons kv d)
  obtain k v where kv: "kv = (k, v)" by (cases kv)
  show ?case
  proof (cases "length v < 2")
    case True
    then have "isl (make_fields E ((k, v) # d))"
      by (cases "0 < length v") (simp_all add: list_get_simps)
    with True kv show ?thesis by simp
  next
    case False
    then have 0: "list_get v 0 ''value'' = Inr (v ! 0)" and 1: "list_get v (Suc 0) ''value'' = Inr (v ! Suc 0)"
      by (cases v; simp add: list_get_def)+
    show ?thesis
      using Cons.IH False
      by (cases "make_fields E d") (simp_all add: kv 0 1)
  qed
qed

lemma invalid_dtype_isl: "isl (make_dtype E dt) \<longleftrightarrow> invalid_dtype E dt"
proof (cases dt)
  case (DTStr s)
  then show ?thesis by (simp add: make_dtype_def invalid_dtype_def)
next
  case (DTDict d)
  have "isl (bind_e (make_fields E d) (\<lambda>fs. Inr (Fields fs))) = isl (make_fields E d)"
    by (cases "make_fields E d") simp_all
  with DTDict show ?thesis by (simp add: make_dtype_def invalid_dtype_def make_fields_invalid)
next
  case DTOther
  then show ?thesis by (simp add: make_dtype_def invalid_dtype_def)
qed

lemma setup_buffer_dtype:
  assumes "snd (setup_buffer E bc i rbs) = Inr rbs'"
  shows "\<exists>spec dt l. i - 1 < length (buffers_dict bc) \<and>
           map_of (buffers_dict bc ! (i - 1)) (rb_name i) = Some spec \<and>
           data_type spec = Some dt \<and> make_dtype E dt = Inr l"
  using assms unfolding setup_buffer_def rb_name_def Let_def
  by (auto simp: snd_bind_io_Inr bind_io_emit list_get_Inr key_get_Inr split: option.splits)

lemma setup_buffers_member:
  assumes ok: "snd (setup_buffers E bc) = Inr bc'" and i: "i \<in> set [1..<number_of_ringbuffers bc]"
  shows "\<exists>rbs rbs'. snd (setup_buffer E bc i rbs) = Inr rbs'"
proof -
  from ok obtain rbs where
    l: "snd (for_each [1..<number_of_ringbuffers bc] (setup_buffer E bc) []) = Inr rbs"
    unfolding setup_buffers_def by (auto simp: snd_bind_io_Inr)
  from for_each_member[OF l, where I = "\<lambda>_. True", OF _ _ i] show ?thesis by simp
qed

lemma setup_workers_member:
  assumes ns: "\<not> workers_setup bc" and ok: "snd (setup_workers G E bc) = Inr bc'"
    and i: "i \<in> set [1..<number_of_functions bc]"
  shows "\<exists>rt cdc si si'. worker_inv (bc\<lparr>self_runtime := Some rt\<rparr>) si \<and>
           snd (setup_worker E cdc i si) = Inr si'"
proof -
  from setup_workers_Inr[OF ns ok] obtain rt cdc bc2 where
    l: "snd (for_each [1..<number_of_functions bc] (setup_worker E cdc)
              (bc\<lparr>process_list := Some [], self_runtime := Some rt\<rparr>)) = Inr bc2" by blast
  let ?b0 = "bc\<lparr>self_runtime := Some rt\<rparr>"
  have i0: "worker_inv ?b0 (bc\<lparr>process_list := Some [], self_runtime := Some rt\<rparr>)"
    unfolding worker_inv_def
    by (intro exI[of _ "ringbuffers bc"] exI[of _ "[]"]) simp
  have "\<exists>si si'. worker_inv ?b0 si \<and> snd (setup_worker E cdc i si) = Inr si'"
    by (rule for_each_member[OF l, where I = "worker_inv ?b0", OF i0 _ i])
       (use setup_worker_inv in blast)
  then show ?thesis by blast
qed

text \<open>
  When \<^verbatim>\<open>__main__\<close> gets as far as starting the workers, every buffer definition had a
  data type that was accepted ...
\<close>

lemma main_init_buffer:
  assumes ok: "snd (main_init E f) = Inr bc"
    and y: "setup_files E (abspath E f) = Inr y" "RingBuffer y = Some bd"
    and j: "j < length bd"
  shows "\<exists>spec dt l. map_of (bd ! j) (rb_name (Suc j)) = Some spec \<and>
           data_type spec = Some dt \<and> make_dtype E dt = Inr l"
proof -
  from main_init_Inr[OF ok] y obtain fd bc1 where
    sb: "snd (setup_buffers E (buffer_control_init bd fd (directory_prefix E f))) = Inr bc1"
    by auto
  let ?b0 = "buffer_control_init bd fd (directory_prefix E f)"
  have n: "number_of_ringbuffers ?b0 = length bd + 1" and b: "buffers_dict ?b0 = bd"
    by (simp_all add: buffer_control_init_def)
  from j have "Suc j \<in> set [1..<number_of_ringbuffers ?b0]"
    unfolding n set_upt atLeastLessThan_iff by arith
  from setup_buffers_member[OF sb this] obtain rbs rbs' where
    "snd (setup_buffer E ?b0 (Suc j) rbs) = Inr rbs'" by blast
  from setup_buffer_dtype[OF this] show ?thesis unfolding b by simp
qed

text \<open>
  ... and every worker definition had its endpoints allocated on the buffers
  \<^verbatim>\<open>RB_1\<close>, \<^verbatim>\<open>RB_2\<close>, ... and its callable looked up.
\<close>

lemma main_init_worker:
  assumes ok: "snd (main_init E f) = Inr bc"
    and y: "setup_files E (abspath E f) = Inr y" "RingBuffer y = Some bd" "Functions y = Some fd"
    and i: "1 \<le> i" "i < length fd"
  shows "\<exists>w file fkt b b1 eps pf.
           map_of (fd ! i) (''Fkt_'' @ str_nat i) = Some w \<and>
           file_name w = Some file \<and> fkt_name w = Some fkt \<and>
           buffer_names b = map rb_name [1..<length bd + 1] \<and>
           snd (assign_endpoints (assigned_ringbuffers w) (b, [], [], [])) = Inr (b1, eps) \<and>
           snd (import_function E file fkt) = Inr pf"
proof -
  let ?b0 = "buffer_control_init bd fd (directory_prefix E f)"
  from main_init_Inr[OF ok] y obtain bc1 where
    sb: "snd (setup_buffers E ?b0) = Inr bc1" and
    sw: "snd (setup_workers (Some fd) E bc1) = Inr bc"
    by auto
  from setup_buffers_Inr[OF sb] obtain rbs where
    bc1: "bc1 = ?b0\<lparr>ringbuffers := Some rbs\<rparr>" and
    names: "map fst rbs = map rb_name [1..<number_of_ringbuffers ?b0]" by blast
  have ns: "\<not> workers_setup bc1" and nf: "number_of_functions bc1 = length fd"
    and fd: "functions_dict bc1 = fd"
    by (simp_all add: bc1 buffer_control_init_def)
  have bn: "buffer_names bc1 = map rb_name [1..<length bd + 1]"
    using names by (simp add: bc1 buffer_names_def buffer_control_init_def)
  from i have "i \<in> set [1..<number_of_functions bc1]"
    unfolding nf set_upt atLeastLessThan_iff by simp
  from setup_workers_member[OF ns sw this] obtain rt cdc si si' where
    inv: "worker_inv (bc1\<lparr>self_runtime := Some rt\<rparr>) si" and
    w: "snd (setup_worker E cdc i si) = Inr si'" by blast
  from worker_inv_fields(1,9)[OF inv] fd bn have
    f: "functions_dict si = fd" and b: "buffer_names si = map rb_name [1..<length bd + 1]"
    by (simp_all add: buffer_names_def)
  from setup_worker_Inr[OF w] obtain w' fl fkt b1 eps pf where
    "map_of (functions_dict si ! i) (''Fkt_'' @ str_nat i) = Some w'"
    "file_name w' = Some fl" "fkt_name w' = Some fkt"
    "snd (assign_endpoints (assigned_ringbuffers w') (si, [], [], [])) = Inr (b1, eps)"
    "snd (import_function E fl fkt) = Inr pf" by blast
  with f b show ?thesis by blast
qed

text \<open>When the setup fails, \<^verbatim>\<open>start_workers\<close> is not reached.\<close>

lemma main_setup_aborts:
  assumes "isl (snd (main_init E f))"
  shows "isl (snd (main_setup E f))" and "ProcessStart p \<notin> set (fst (main_setup E f))"
proof -
  from assms obtain e where e: "snd (main_init E f) = Inl e"
    by (cases "snd (main_init E f)") simp_all
  then have m: "main_init E f = (fst (main_init E f), Inl e)" by (simp add: prod_eq_iff)
  have ms: "main_setup E f = (fst (main_init E f), Inl e)"
    unfolding main_setup_def by (subst m) simp
  show "isl (snd (main_setup E f))" by (simp add: ms)
  from events_ok_main_init[of E f] show "ProcessStart p \<notin> set (fst (main_setup E f))"
    by (auto simp: ms events_ok_def init_event_def)
qed

text \<open>
  Claim C6 (as the code has it).  The setup file loads.  If some buffer definition has
  a data type that \<^verbatim>\<open>setup_buffers\<close> refuses, or some worker definition assigns one of
  the roles \<^verbatim>\<open>read\<close>, \<^verbatim>\<open>write\<close>, \<^verbatim>\<open>observe\<close> to a name that is none of the buffers
  \<^verbatim>\<open>RB_1\<close>, \<^verbatim>\<open>RB_2\<close>, ..., then the script ends with an exception and no worker process
  has been started.
\<close>

theorem setup_errors_abort:
  assumes "setup_files E (abspath E f) = Inr y" and "RingBuffer y = Some bd"
    and "Functions y = Some fd"
    and "(\<exists>j spec dt. j < length bd \<and> map_of (bd ! j) (rb_name (Suc j)) = Some spec \<and>
            data_type spec = Some dt \<and> invalid_dtype E dt) \<or>
         (\<exists>i w key role. 1 \<le> i \<and> i < length fd \<and>
            map_of (fd ! i) (''Fkt_'' @ str_nat i) = Some w \<and>
            (key, role) \<in> set (assigned_ringbuffers w) \<and>
            role \<in> {''read'', ''write'', ''observe''} \<and>
            key \<notin> set (map rb_name [1..<length bd + 1]))"
  shows "isl (snd (main_setup E f)) \<and> ProcessStart p \<notin> set (fst (main_setup E f))"
proof -
  have "isl (snd (main_init E f))"
  proof (rule ccontr)
    assume "\<not> isl (snd (main_init E f))"
    then obtain bc where ok: "snd (main_init E f) = Inr bc"
      by (cases "snd (main_init E f)") simp_all
    from assms(4) show False
    proof
      assume "\<exists>j spec dt. j < length bd \<and> map_of (bd ! j) (rb_name (Suc j)) = Some spec \<and>
            data_type spec = Some dt \<and> invalid_dtype E dt"
      then obtain j spec dt where j: "j < length bd" and
        s: "map_of (bd ! j) (rb_name (Suc j)) = Some spec" "data_type spec = Some dt" and
        bad: "invalid_dtype E dt" by blast
      from main_init_buffer[OF ok assms(1,2) j] s obtain l where "make_dtype E dt = Inr l"
        by auto
      with bad invalid_dtype_isl[of E dt] show False by simp
    next
      assume "\<exists>i w key role. 1 \<le> i \<and> i < length fd \<and>
            map_of (fd ! i) (''Fkt_'' @ str_nat i) = Some w \<and>
            (key, role) \<in> set (assigned_ringbuffers w) \<and>
            role \<in> {''read'', ''write'', ''observe''} \<and>
            key \<notin> set (map rb_name [1..<length bd + 1])"
      then obtain i w key role where i: "1 \<le> i" "i < length fd" and
        w: "map_of (fd ! i) (''Fkt_'' @ str_nat i) = Some w" and
        k: "(key, role) \<in> set (assigned_ringbuffers w)"
           "role \<in> {''read'', ''write'', ''observe''}" and
        u: "key \<notin> set (map rb_name [1..<length bd + 1])" by blast
      from main_init_worker[OF ok assms(1,2,3) i] w obtain b b1 eps where
        b: "buffer_names b = map rb_name [1..<length bd + 1]" and
        a: "snd (assign_endpoints (assigned_ringbuffers w) (b, [], [], [])) = Inr (b1, eps)"
        by auto
      from u b have "key \<notin> set (buffer_names b)" by simp
      from assign_endpoints_undefined[OF k this, of "[]" "[]" "[]"] a show False by simp
    qed
  qed
  from main_setup_aborts[OF this] show ?thesis by blast
qed

theorem setup_errors_abort_witness:
  "isl (snd (main_setup (env_with yaml_undefined_buffer) ''demo_setup.yaml'')) \<and>
   ProcessStart 0 \<notin> set (fst (main_setup (env_with yaml_undefined_buffer) ''demo_setup.yaml'')) \<and>
   isl (snd (main_setup (env_with yaml_invalid_dtype) ''demo_setup.yaml'')) \<and>
   ProcessStart 0 \<notin> set (fst (main_setup (env_with yaml_invalid_dtype) ''demo_setup.yaml''))"
proof -
  let ?E1 = "env_with yaml_undefined_buffer" and ?E2 = "env_with yaml_invalid_dtype"
  let ?w = "fkt_1_example\<lparr>RB_assign := Some [(''RB_9'', ''write'')]\<rparr>"
  let ?fd = "[[(''Fkt_main'', fkt_main_example)], [(''Fkt_1'', ?w)], [(''Fkt_2'', fkt_2_example)]]"
  let ?spec = "\<lparr>number_of_slots = Some 16, channel_per_slot = Some 1,
                data_type = Some (DTStr ''floot'')\<rparr>"
  have y1: "setup_files ?E1 (abspath ?E1 ''demo_setup.yaml'') = Inr yaml_undefined_buffer"
    by (simp add: env_with_def)
  have r1: "RingBuffer yaml_undefined_buffer = Some buffers_example"
    and f1: "Functions yaml_undefined_buffer = Some ?fd"
    by (simp_all add: yaml_undefined_buffer_def)
  have u: "''RB_9'' \<notin> set (map rb_name [1..<length buffers_example + 1])" by code_simp
  have a: "1 \<le> (1::nat)" "1 < length ?fd"
    "map_of (?fd ! 1) (''Fkt_'' @ str_nat 1) = Some ?w"
    "(''RB_9'', ''write'') \<in> set (assigned_ringbuffers ?w)"
    "''write'' \<in> {''read'', ''write'', ''observe''}"
    by code_simp+
  have h1: "\<exists>i w key role. 1 \<le> i \<and> i < length ?fd \<and>
            map_of (?fd ! i) (''Fkt_'' @ str_nat i) = Some w \<and>
            (key, role) \<in> set (assigned_ringbuffers w) \<and>
            role \<in> {''read'', ''write'', ''observe''} \<and>
            key \<notin> set (map rb_name [1..<length buffers_example + 1])"
    using a u by blast
  have y2: "setup_files ?E2 (abspath ?E2 ''demo_setup.yaml'') = Inr yaml_invalid_dtype"
    by (simp add: env_with_def)
  have r2: "RingBuffer yaml_invalid_dtype = Some [[(''RB_1'', ?spec)]]"
    and f2: "Functions yaml_invalid_dtype = Some functions_example"
    by (simp_all add: yaml_invalid_dtype_def)
  have i2: "invalid_dtype ?E2 (DTStr ''floot'')" by (simp add: invalid_dtype_def env_with_def)
  have b: "0 < length [[(''RB_1'', ?spec)]]"
    "map_of ([[(''RB_1'', ?spec)]] ! 0) (rb_name (Suc 0)) = Some ?spec"
    "data_type ?spec = Some (DTStr ''floot'')"
    by code_simp+
  have h2: "\<exists>j spec dt. j < length [[(''RB_1'', ?spec)]] \<and>
            map_of ([[(''RB_1'', ?spec)]] ! j) (rb_name (Suc j)) = Some spec \<and>
            data_type spec = Some dt \<and> invalid_dtype ?E2 dt"
    using b i2 by blast
  from setup_errors_abort[OF y1 r1 f1 disjI2[OF h1], of 0]
       setup_errors_abort[OF y2 r2 f2 disjI1[OF h2], of 0]
  show ?thesis by blast
qed

text \<open>
  A role that is none of \<^verbatim>\<open>read\<close>, \<^verbatim>\<open>write\<close>, \<^verbatim>\<open>observe\<close> is passed over without a
  word: with the role \<^verbatim>\<open>writer\<close> for the source the script sets up both workers and
  starts all three processes, the source without any buffer to write to.
\<close>

theorem unknown_role_ignored:
  "fst (main_setup (env_with yaml_unknown_role) ''demo_setup.yaml'') =
     [MakeDirs ''target/demo_2024-01-02_030405/'' 504,
      CopyFile ''/daq/demo_setup.yaml'' ''target/demo_2024-01-02_030405/demo_setup.yaml'',
      Hook ''appl_init'', NewBuffer ''RB_1'' 16 1 (Scalar ''float''),
      NewBuffer ''RB_2'' 8 1 (Fields [(''height'', ''float'')]),
      CopyFile ''/daq/config/common.yaml'' ''target/demo_2024-01-02_030405/common.yaml'',
      NewReaderGroup ''RB_1'', NewWriter ''RB_2'',
      ProcessStart 2, ProcessStart 1, ProcessStart 0] \<and>
   map_sum id (map (\<lambda>p. (proc_id p, name p, args_sink p)) \<circ> snd)
     (snd (main_setup (env_with yaml_unknown_role) ''demo_setup.yaml'')) =
     Inr [(2, ''find_peaks'', Some [Writer ''RB_2'' 0]), (1, ''find_peaks'', Some [Writer ''RB_2'' 0]),
          (0, ''read_source'', None)]"
  by code_simp

section \<open>Callables that cannot be resolved\<close>

lemma import_function_Inr:
  assumes "snd (import_function E m fn) = Inr pf"
  shows "(\<exists>e. modules E m = Inl e \<and> is_import_error e \<and> pf = None) \<or>
         (\<exists>defined. modules E m = Inr defined \<and> fn \<in> set defined \<and> pf = Some (m, fn))"
  using assms
  by (auto simp: import_function_def is_import_error_def split: sum.splits error.splits if_splits)

lemma import_function_Inl:
  "modules E m = Inr defined \<Longrightarrow> fn \<notin> set defined \<Longrightarrow>
   import_function E m fn = io_raise (KeyError fn)"
  "modules E m = Inl e \<Longrightarrow> \<not> is_import_error e \<Longrightarrow> import_function E m fn = io_raise e"
  by (auto simp: import_function_def is_import_error_def split: error.splits)

text \<open>
  Claim C7 (as the code has it).  The setup file loads, and for some worker definition
  either the module is imported but does not define the callable, or the import raises
  an exception other than \<open>ImportError\<close>.  Then \<^verbatim>\<open>import_function\<close> raises for that
  definition (\<open>KeyError\<close> with the name of the callable, or the exception of the import),
  the script ends with an exception, and no worker process has been started.
\<close>

theorem unresolved_callable_aborts:
  assumes "setup_files E (abspath E f) = Inr y" and "Functions y = Some fd"
    and "1 \<le> i" and "i < length fd"
    and "map_of (fd ! i) (''Fkt_'' @ str_nat i) = Some w"
    and "file_name w = Some m" and "fkt_name w = Some fn"
    and "(\<exists>defined. modules E m = Inr defined \<and> fn \<notin> set defined) \<or>
         (\<exists>e. modules E m = Inl e \<and> \<not> is_import_error e)"
  shows "snd (import_function E m fn) =
           Inl (case modules E m of Inr defined \<Rightarrow> KeyError fn | Inl e \<Rightarrow> e) \<and>
         isl (snd (main_setup E f)) \<and> ProcessStart p \<notin> set (fst (main_setup E f))"
proof -
  from assms(8) have imp:
    "snd (import_function E m fn) =
       Inl (case modules E m of Inr defined \<Rightarrow> KeyError fn | Inl e \<Rightarrow> e)"
    by (auto simp: import_function_Inl)
  have "isl (snd (main_init E f))"
  proof (rule ccontr)
    assume "\<not> isl (snd (main_init E f))"
    then obtain bc where ok: "snd (main_init E f) = Inr bc"
      by (cases "snd (main_init E f)") simp_all
    from main_init_Inr[OF ok] assms(1) obtain bd where bd: "RingBuffer y = Some bd" by auto
    from main_init_worker[OF ok assms(1) bd assms(2,3,4)] assms(5,6,7) obtain pf where
      "snd (import_function E m fn) = Inr pf" by auto
    with imp show False by simp
  qed
  from main_setup_aborts[OF this] imp show ?thesis by blast
qed

theorem unresolved_callable_aborts_witness:
  "snd (import_function (env_with yaml_missing_callable) ''modules/source'' ''read_sauce'') =
     Inl (KeyError ''read_sauce'') \<and>
   isl (snd (main_setup (env_with yaml_missing_callable) ''demo_setup.yaml'')) \<and>
   ProcessStart 0 \<notin> set (fst (main_setup (env_with yaml_missing_callable) ''demo_setup.yaml'')) \<and>
   snd (import_function (env_with yaml_broken_module) ''modules/broken'' ''read_source'') =
     Inl (SyntaxError ''modules/broken'') \<and>
   isl (snd (main_setup (env_with yaml_broken_module) ''demo_setup.yaml'')) \<and>
   ProcessStart 0 \<notin> set (fst (main_setup (env_with yaml_broken_module) ''demo_setup.yaml''))"
proof -
  let ?E1 = "env_with yaml_missing_callable" and ?E2 = "env_with yaml_broken_module"
  let ?w1 = "fkt_1_example\<lparr>fkt_name := Some ''read_sauce''\<rparr>"
  let ?w2 = "fkt_1_example\<lparr>file_name := Some ''modules/broken''\<rparr>"
  let ?fd1 = "[[(''Fkt_main'', fkt_main_example)], [(''Fkt_1'', ?w1)], [(''Fkt_2'', fkt_2_example)]]"
  let ?fd2 = "[[(''Fkt_main'', fkt_main_example)], [(''Fkt_1'', ?w2)], [(''Fkt_2'', fkt_2_example)]]"
  have y1: "setup_files ?E1 (abspath ?E1 ''demo_setup.yaml'') = Inr yaml_missing_callable"
    and y2: "setup_files ?E2 (abspath ?E2 ''demo_setup.yaml'') = Inr yaml_broken_module"
    by (simp_all add: env_with_def)
  have fd1: "Functions yaml_missing_callable = Some ?fd1"
    by (simp add: yaml_missing_callable_def)
  have fd2: "Functions yaml_broken_module = Some ?fd2"
    by (simp add: yaml_broken_module_def)
  have a1: "1 \<le> (1::nat)" "1 < length ?fd1"
    "map_of (?fd1 ! 1) (''Fkt_'' @ str_nat 1) = Some ?w1"
    by code_simp+
  have a2: "1 \<le> (1::nat)" "1 < length ?fd2"
    "map_of (?fd2 ! 1) (''Fkt_'' @ str_nat 1) = Some ?w2"
    by code_simp+
  have b1: "file_name ?w1 = Some ''modules/source''" "fkt_name ?w1 = Some ''read_sauce''"
    by (simp_all add: fkt_1_example_def)
  have b2: "file_name ?w2 = Some ''modules/broken''" "fkt_name ?w2 = Some ''read_source''"
    by (simp_all add: fkt_1_example_def)
  have m1: "modules ?E1 ''modules/source'' = Inr [''read_source'']"
    and m2: "modules ?E2 ''modules/broken'' = Inl (SyntaxError ''modules/broken'')"
    by (simp_all add: env_with_def)
  have h1: "(\<exists>defined. modules ?E1 ''modules/source'' = Inr defined \<and>
               ''read_sauce'' \<notin> set defined) \<or>
            (\<exists>e. modules ?E1 ''modules/source'' = Inl e \<and> \<not> is_import_error e)"
    unfolding m1 by simp
  have h2: "(\<exists>defined. modules ?E2 ''modules/broken'' = Inr defined \<and>
               ''read_source'' \<notin> set defined) \<or>
            (\<exists>e. modules ?E2 ''modules/broken'' = Inl e \<and> \<not> is_import_error e)"
    unfolding m2 by (simp add: is_import_error_def)
  from unresolved_callable_aborts[OF y1 fd1 a1 b1 h1, of 0]
       unresolved_callable_aborts[OF y2 fd2 a2 b2 h2, of 0]
  show ?thesis unfolding m1 m2 by simp
qed

text \<open>
  A module that is not found is no error: \<^verbatim>\<open>import_function\<close> catches the
  \<open>ImportError\<close> and returns \<open>None\<close>, the processes of that worker are created with
  \<^verbatim>\<open>target=None\<close>, and all processes are started.
\<close>

theorem unimportable_module_started:
  "fst (main_setup (env_with yaml_missing_module) ''demo_setup.yaml'') =
     [MakeDirs ''target/demo_2024-01-02_030405/'' 504,
      CopyFile ''/daq/demo_setup.yaml'' ''target/demo_2024-01-02_030405/demo_setup.yaml'',
      Hook ''appl_init'', NewBuffer ''RB_1'' 16 1 (Scalar ''float''),
      NewBuffer ''RB_2'' 8 1 (Fields [(''height'', ''float'')]),
      CopyFile ''/daq/config/common.yaml'' ''target/demo_2024-01-02_030405/common.yaml'',
      NewWriter ''RB_1'', NewReaderGroup ''RB_1'', NewWriter ''RB_2'',
      ProcessStart 2, ProcessStart 1, ProcessStart 0] \<and>
   map_sum id (map (\<lambda>p. (proc_id p, name p, target p)) \<circ> snd)
     (snd (main_setup (env_with yaml_missing_module) ''demo_setup.yaml'')) =
     Inr [(2, ''find_peaks'', Some (''modules/filters'', ''find_peaks'')),
          (1, ''find_peaks'', Some (''modules/filters'', ''find_peaks'')),
          (0, ''read_source'', None)]"
  by code_simp

section \<open>The output directory\<close>

lemma find_from_first:
  "\<forall>k<length pre. take (length sub) (drop k (pre @ sub @ post)) \<noteq> sub \<Longrightarrow>
   find_from sub (pre @ sub @ post) i = int (i + length pre)"
proof (induction pre arbitrary: i)
  case Nil
  have t: "take (length sub) (sub @ post) = sub" by simp
  show ?case
  proof (cases "sub @ post")
    case Nil
    then show ?thesis by simp
  next
    case (Cons a l)
    from t have "take (length sub) (a # l) = sub" unfolding Cons .
    then have "find_from sub (a # l) i = int i" by (subst find_from.simps) (simp only: refl if_True)
    then show ?thesis by (simp add: Cons)
  qed
next
  case (Cons c pre)
  from Cons.prems have 0: "take (length sub) (c # pre @ sub @ post) \<noteq> sub" by fastforce
  have "\<forall>k<length pre. take (length sub) (drop k (pre @ sub @ post)) \<noteq> sub"
  proof (intro allI impI)
    fix k assume "k < length pre"
    then have "Suc k < length (c # pre)" by simp
    with Cons.prems have "take (length sub) (drop (Suc k) ((c # pre) @ sub @ post)) \<noteq> sub"
      by blast
    then show "take (length sub) (drop k (pre @ sub @ post)) \<noteq> sub" by simp
  qed
  from Cons.IH[OF this, of "Suc i"] 0 show ?case by simp
qed

lemma py_slice_find:
  assumes "\<forall>k<length pre. take (length sub) (drop k (pre @ sub @ post)) \<noteq> sub"
  shows "py_slice_to (pre @ sub @ post) (py_find (pre @ sub @ post) sub) = pre"
  unfolding py_find_def find_from_first[OF assms] py_slice_to_def by simp

lemma digit_char_not_slash: "k < 10 \<Longrightarrow> digit_char k \<noteq> CHR ''/''"
  unfolding digit_char_def
  by (auto simp: less_Suc_eq numeral_eq_Suc nth_Cons')

lemma last_str_nat: "last (str_nat n) = digit_char (n mod 10)"
  by (subst str_nat.simps) simp

lemma last_time_code: "last (time_code t) \<noteq> CHR ''/''"
proof -
  have "last (time_code t) = last (str_nat (tm_sec t))"
    unfolding time_code_def fmt0_def by (simp add: str_nat_not_Nil)
  then show ?thesis by (simp add: last_str_nat digit_char_not_slash)
qed

lemma time_code_not_Nil: "time_code t \<noteq> []"
  unfolding time_code_def by simp

lemma posix_dirname_slash:
  assumes "X \<noteq> []" and "last X \<noteq> CHR ''/''"
  shows "posix_dirname (X @ ''/'') = X"
proof -
  have a: "after_last (CHR ''/'') (X @ ''/'') = length (X @ ''/'')"
    by (simp add: after_last_def)
  have "last X \<in> set (X @ ''/'')" using assms(1) by simp
  then have n: "X @ ''/'' \<noteq> replicate (length (X @ ''/'')) (CHR ''/'')"
    using assms(2) by (metis in_set_replicate)
  from assms obtain B where X: "X = B @ [last X]" by (metis append_butlast_last_id)
  have r: "rstrip (CHR ''/'') (X @ ''/'') = X"
    unfolding rstrip_def by (subst (1 2) X) (use assms(2) in simp)
  show ?thesis
    unfolding posix_dirname_def a Let_def using n r by simp
qed

lemma dirname_directory_prefix:
  "posix_dirname (directory_prefix E f) @ ''/'' = directory_prefix E f"
proof -
  let ?X = "''target/'' @ py_slice_to (path_stem f) (py_find (path_stem f) ''setup'') @
            time_code (localtime E)"
  have d: "directory_prefix E f = ?X @ ''/''" by (simp add: directory_prefix_def Let_def)
  have "last ?X = last (time_code (localtime E))" by (simp add: time_code_not_Nil)
  with last_time_code have "last ?X \<noteq> CHR ''/''" by simp
  moreover have "?X \<noteq> []" by simp
  ultimately have "posix_dirname (?X @ ''/'') = ?X" by (rule posix_dirname_slash[rotated])
  then show ?thesis unfolding d by simp
qed

lemma makedirs_simps:
  "makedirs_ok E d \<Longrightarrow> makedirs E d m = ([MakeDirs d m], Inr ())"
  "\<not> makedirs_ok E d \<Longrightarrow> makedirs E d m = ([MakeDirs d m], Inl (OSError d))"
  by (simp_all add: makedirs_def bind_io_emit)

lemma posix_basename_plain: "CHR ''/'' \<notin> set f \<Longrightarrow> posix_basename f = f"
proof -
  assume "CHR ''/'' \<notin> set f"
  then have tw: "takeWhile (\<lambda>x. x \<noteq> CHR ''/'') (rev f) = rev f"
    by (intro takeWhile_eq_all_conv[THEN iffD2]) auto
  show ?thesis unfolding posix_basename_def after_last_def tw by simp
qed

lemma main_init_first:
  assumes "f \<noteq> []" and "setup_files E (abspath E f) = Inr y"
    and "makedirs_ok E (directory_prefix E f)"
  shows "\<exists>rest. fst (main_init E f) =
     MakeDirs (directory_prefix E f) 504 #
     CopyFile (abspath E f) (directory_prefix E f @ f) # rest"
proof -
  have e: "posix_dirname (directory_prefix E f) @ ''/'' @ f = directory_prefix E f @ f"
    using dirname_directory_prefix[of E f] by (metis append_assoc)
  show ?thesis
    unfolding main_init_def e
    using assms(1,2) by (simp add: makedirs_simps(1)[OF assms(3)] bind_io_pair fst_bind_io)
qed

lemma main_init_makedirs_fails:
  assumes "f \<noteq> []" and "setup_files E (abspath E f) = Inr y"
    and "\<not> makedirs_ok E (directory_prefix E f)"
  shows "main_init E f =
     ([MakeDirs (directory_prefix E f) 504], Inl (OSError (directory_prefix E f)))"
  unfolding main_init_def
  using assms(1,2) by (simp add: makedirs_simps(2)[OF assms(3)])

text \<open>
  Claim C8 (as the code has it).  The setup file is given by a bare file name, it loads,
  and the stem of its name holds the word \<^verbatim>\<open>setup\<close>, first after the prefix \<open>pre\<close>.
  Then the first call of the script is \<^verbatim>\<open>os.makedirs\<close> of
  \<^verbatim>\<open>target/\<close>\<open>pre\<close>\<^verbatim>\<open><YYYY-MM-DD_HHMMSS>/\<close> with mode \<open>0o770\<close>.  When it succeeds, the next
  call, before anything else and so before any worker is started, is the copy of the
  setup file into that directory under its base name; when it fails, the script ends
  there with its exception.
\<close>

theorem output_directory:
  assumes "setup_files E (abspath E f) = Inr y"
    and "CHR ''/'' \<notin> set f"
    and "path_stem f = pre @ ''setup'' @ post"
    and "\<forall>k<length pre. take 5 (drop k (path_stem f)) \<noteq> ''setup''"
  shows "(makedirs_ok E (''target/'' @ pre @ time_code (localtime E) @ ''/'') \<longrightarrow>
          take 2 (fst (main_setup E f)) =
            [MakeDirs (''target/'' @ pre @ time_code (localtime E) @ ''/'') (7 * 64 + 7 * 8),
             CopyFile (abspath E f)
               (''target/'' @ pre @ time_code (localtime E) @ ''/'' @ posix_basename f)]) \<and>
         (\<not> makedirs_ok E (''target/'' @ pre @ time_code (localtime E) @ ''/'') \<longrightarrow>
          main_setup E f =
            ([MakeDirs (''target/'' @ pre @ time_code (localtime E) @ ''/'') (7 * 64 + 7 * 8)],
             Inl (OSError (''target/'' @ pre @ time_code (localtime E) @ ''/''))))"
proof -
  have "path_stem [] = []" by code_simp
  with assms(3) have f: "f \<noteq> []" by auto
  have l: "length ''setup'' = 5" by simp
  have "\<forall>k<length pre. take (length ''setup'') (drop k (pre @ ''setup'' @ post)) \<noteq> ''setup''"
    using assms(4) unfolding assms(3) l .
  from py_slice_find[OF this]
  have d: "directory_prefix E f = ''target/'' @ pre @ time_code (localtime E) @ ''/''"
    unfolding directory_prefix_def Let_def assms(3) by simp
  note b = posix_basename_plain[OF assms(2)]
  have 1: "take 2 (fst (main_setup E f)) =
            [MakeDirs (directory_prefix E f) (7 * 64 + 7 * 8),
             CopyFile (abspath E f) (directory_prefix E f @ posix_basename f)]"
    if "makedirs_ok E (directory_prefix E f)"
  proof -
    from main_init_first[OF f assms(1) that] obtain rest where
      "fst (main_init E f) =
         MakeDirs (directory_prefix E f) 504 #
         CopyFile (abspath E f) (directory_prefix E f @ f) # rest"
      by blast
    then show ?thesis
      unfolding main_setup_def b by (simp add: fst_bind_io)
  qed
  have 2: "main_setup E f =
            ([MakeDirs (directory_prefix E f) (7 * 64 + 7 * 8)],
             Inl (OSError (directory_prefix E f)))"
    if "\<not> makedirs_ok E (directory_prefix E f)"
    unfolding main_setup_def main_init_makedirs_fails[OF f assms(1) that] by simp
  from 1 2 show ?thesis unfolding d by simp
qed

theorem output_directory_witness:
  "take 2 (fst (main_setup env_example ''demo_setup.yaml'')) =
     [MakeDirs ''target/demo_2024-01-02_030405/'' 504,
      CopyFile ''/daq/demo_setup.yaml'' ''target/demo_2024-01-02_030405/demo_setup.yaml''] \<and>
   main_setup (env_example\<lparr>makedirs_ok := (\<lambda>d. False)\<rparr>) ''demo_setup.yaml'' =
     ([MakeDirs ''target/demo_2024-01-02_030405/'' 504],
      Inl (OSError ''target/demo_2024-01-02_030405/''))"
proof -
  let ?E = "env_example\<lparr>makedirs_ok := (\<lambda>d. False)\<rparr>"
  have y: "setup_files env_example (abspath env_example ''demo_setup.yaml'') = Inr yaml_example"
    "setup_files ?E (abspath ?E ''demo_setup.yaml'') = Inr yaml_example"
    by (simp_all add: env_example_def env_with_def)
  have p: "CHR ''/'' \<notin> set ''demo_setup.yaml''" by simp
  have s: "path_stem ''demo_setup.yaml'' = ''demo_'' @ ''setup'' @ []" by code_simp
  have n: "\<forall>k<length ''demo_''. take 5 (drop k (path_stem ''demo_setup.yaml'')) \<noteq> ''setup''"
    by code_simp
  have t: "time_code (localtime env_example) = ''2024-01-02_030405''"
    "time_code (localtime ?E) = ''2024-01-02_030405''" by code_simp+
  have a: "abspath env_example ''demo_setup.yaml'' = ''/daq/demo_setup.yaml''"
    by (simp add: env_example_def env_with_def)
  have b: "posix_basename ''demo_setup.yaml'' = ''demo_setup.yaml''" by code_simp
  have m: "makedirs_ok env_example ''target/demo_2024-01-02_030405/''"
    "\<not> makedirs_ok ?E ''target/demo_2024-01-02_030405/''"
    by (simp_all add: env_example_def env_with_def)
  from output_directory[OF y(1) p s n] output_directory[OF y(2) p s n] m
  show ?thesis unfolding t a b by simp
qed

text \<open>
  For the setup file \<^verbatim>\<open>demo_setup.yaml\<close> the directory is not named after the stem
  \<^verbatim>\<open>demo_setup\<close> of the file: the stem is cut where the word \<^verbatim>\<open>setup\<close> begins, and
  nothing is put between it and the time code.
\<close>

theorem output_directory_not_stem:
  "path_stem ''demo_setup.yaml'' = ''demo_setup'' \<and>
   time_code (localtime env_example) = ''2024-01-02_030405'' \<and>
   MakeDirs ''target/demo_setup_2024-01-02_030405/'' 504
     \<notin> set (fst (main_setup env_example ''demo_setup.yaml'')) \<and>
   hd (fst (main_setup env_example ''demo_setup.yaml'')) =
     MakeDirs ''target/demo_2024-01-02_030405/'' 504"
proof -
  have s: "path_stem ''demo_setup.yaml'' = ''demo_setup''" by code_simp
  have t: "time_code (localtime env_example) = ''2024-01-02_030405''" by code_simp
  from main_setup_example have
    "fst (main_setup env_example ''demo_setup.yaml'') =
       [MakeDirs ''target/demo_2024-01-02_030405/'' 504,
        CopyFile ''/daq/demo_setup.yaml'' ''target/demo_2024-01-02_030405/demo_setup.yaml'',
        Hook ''appl_init'', NewBuffer ''RB_1'' 16 1 (Scalar ''float''),
        NewBuffer ''RB_2'' 8 1 (Fields [(''height'', ''float'')]),
        CopyFile ''/daq/config/common.yaml'' ''target/demo_2024-01-02_030405/common.yaml'',
        NewWriter ''RB_1'', NewReaderGroup ''RB_1'', NewWriter ''RB_2'',
        ProcessStart 2, ProcessStart 1, ProcessStart 0]"
    by (auto split: prod.splits sum.splits)
  with s t show ?thesis by simp
qed

end
